(* ===== verification/Sim_Prelude.thy ===== *)
theory Sim_Prelude
  imports Main "HOL-Library.Word"
begin

section \<open>Shared types, automation and generic lemmas\<close>

text \<open>
  What every component of the development shares: the names of Python's byte strings and
  decoded text, fixed-width big-endian integers, decimal and hexadecimal rendering, cutting a
  byte string into chunks, a deque with a bound, and the collections of facts the component
  proofs draw on.
\<close>

unbundle bit_operations_syntax

named_theorems wire "lengths and inverses of encoders and decoders"
named_theorems policy "unfoldings of validation predicates"
named_theorems keeps_intro "compositional rules of the session monad"

type_synonym byte = "8 word"
type_synonym bytes = "byte list"
type_synonym utext = "nat list" \<comment> \<open>a Python string as its code points\<close>

definition ascii :: "string \<Rightarrow> bytes" where
  "ascii s = map of_char s"

definition lit :: "string \<Rightarrow> utext" where
  "lit s = map of_char s"

lemma length_ascii [simp, wire]: "length (ascii s) = length s"
  by (simp add: ascii_def)

lemma length_lit [simp, wire]: "length (lit s) = length s"
  by (simp add: lit_def)

lemma ascii_append [simp]: "ascii (s @ t) = ascii s @ ascii t"
  by (simp add: ascii_def)

lemma ascii_Nil [simp]: "ascii [] = []"
  by (simp add: ascii_def)

lemma ascii_Cons [simp]: "ascii (c # s) = of_char c # ascii s"
  by (simp add: ascii_def)

lemma lit_Nil [simp]: "lit [] = []"
  by (simp add: lit_def)

lemma lit_Cons [simp]: "lit (c # s) = of_char c # lit s"
  by (simp add: lit_def)

lemma lit_append [simp]: "lit (s @ t) = lit s @ lit t"
  by (simp add: lit_def)

lemma inj_lit: "inj lit"
  unfolding lit_def by (rule inj_mapI) (simp add: inj_def)

lemma lit_eq_iff [simp]: "lit s = lit t \<longleftrightarrow> s = t"
  using inj_lit by (auto dest: injD)

subsection \<open>Big-endian integers of a fixed number of bytes\<close>

fun be_encode :: "nat \<Rightarrow> nat \<Rightarrow> bytes" where
  "be_encode 0 n = []"
| "be_encode (Suc k) n = be_encode k (n div 256) @ [of_nat (n mod 256)]"

fun be_decode_acc :: "nat \<Rightarrow> bytes \<Rightarrow> nat" where
  "be_decode_acc acc [] = acc"
| "be_decode_acc acc (b # bs) = be_decode_acc (acc * 256 + unat b) bs"

definition be_decode :: "bytes \<Rightarrow> nat" where
  "be_decode bs = be_decode_acc 0 bs"

lemma length_be_encode [simp, wire]: "length (be_encode k n) = k"
  by (induction k arbitrary: n) auto

lemma be_decode_acc_append:
  "be_decode_acc acc (xs @ ys) = be_decode_acc (be_decode_acc acc xs) ys"
  by (induction xs arbitrary: acc) auto

lemma be_decode_snoc [simp]: "be_decode (bs @ [b]) = be_decode bs * 256 + unat b"
  by (simp add: be_decode_def be_decode_acc_append)

lemma be_decode_Nil [simp]: "be_decode [] = 0"
  by (simp add: be_decode_def)

lemma unat_of_nat_byte: "unat (of_nat n :: byte) = n mod 256"
  by (simp add: unat_of_nat)

lemma be_decode_encode [wire]: "n < 256 ^ k \<Longrightarrow> be_decode (be_encode k n) = n"
proof (induction k arbitrary: n)
  case 0
  then show ?case by simp
next
  case (Suc k)
  then have "n div 256 < 256 ^ k"
    by (simp add: less_mult_imp_div_less)
  with Suc.IH have "be_decode (be_encode k (n div 256)) = n div 256" by blast
  then show ?case by (simp add: unat_of_nat_byte)
qed

lemma unat_of_char [simp]: "unat (of_char c :: byte) = of_char c"
proof -
  have "(of_char c :: byte) = of_nat (of_char c :: nat)" by (rule of_nat_of_char [symmetric])
  then show ?thesis by (simp only: unat_of_nat_byte) simp
qed

lemma unat_byte_bound: "unat (b :: byte) < 256"
  using unsigned_less [of b, where 'a = nat] by simp

lemma be_decode_bound [wire]: "be_decode bs < 256 ^ length bs"
proof (induction bs rule: rev_induct)
  case Nil
  then show ?case by simp
next
  case (snoc b bs)
  have "unat b < 256" by (rule unat_byte_bound)
  with snoc show ?case by simp
qed

lemma be_encode_decode [wire]: "be_encode (length bs) (be_decode bs) = bs"
proof (induction bs rule: rev_induct)
  case Nil
  then show ?case by simp
next
  case (snoc b bs)
  have "unat b < 256" by (rule unat_byte_bound)
  then have "(be_decode bs * 256 + unat b) div 256 = be_decode bs"
    and "(be_decode bs * 256 + unat b) mod 256 = unat b" by simp_all
  with snoc show ?case by simp
qed

lemma be_encode_decode_eq: "length bs = k \<Longrightarrow> be_encode k (be_decode bs) = bs"
  using be_encode_decode [of bs] by simp

subsection \<open>Rendering integers\<close>

definition digit_char :: "nat \<Rightarrow> char" where
  "digit_char d = (if d < 10 then char_of (48 + d) else char_of (87 + d))"

fun base_digits :: "nat \<Rightarrow> nat \<Rightarrow> string" where
  "base_digits b n =
     (if b < 2 \<or> n < b then [digit_char n] else base_digits b (n div b) @ [digit_char (n mod b)])"

declare base_digits.simps [simp del]

definition str_nat :: "nat \<Rightarrow> string" where
  "str_nat n = base_digits 10 n"

definition str_int :: "int \<Rightarrow> string" where
  "str_int i = (if i < 0 then CHR ''-'' # str_nat (nat (- i)) else str_nat (nat i))"

definition hex_nat :: "nat \<Rightarrow> string" where
  "hex_nat n = base_digits 16 n"

definition hex2 :: "byte \<Rightarrow> string" \<comment> \<open>the format \<open>02x\<close> of a byte\<close> where
  "hex2 b = [digit_char (unat b div 16), digit_char (unat b mod 16)]"

definition hex_bytes :: "bytes \<Rightarrow> string" where
  "hex_bytes bs = concat (map hex2 bs)"

lemma base_digits_nonempty [simp]: "base_digits b n \<noteq> []"
  by (subst base_digits.simps) simp

lemma length_hex_bytes [wire]: "length (hex_bytes bs) = 2 * length bs"
  by (induction bs) (simp_all add: hex_bytes_def hex2_def)

fun join :: "string \<Rightarrow> string list \<Rightarrow> string" where
  "join sep [] = []"
| "join sep [x] = x"
| "join sep (x # y # xs) = x @ sep @ join sep (y # xs)"

subsection \<open>Cutting a byte string into chunks\<close>

function chunks :: "nat \<Rightarrow> 'a list \<Rightarrow> 'a list list" where
  "chunks k xs = (if xs = [] \<or> k = 0 then [] else take k xs # chunks k (drop k xs))"
  by pat_completeness auto
termination
  by (relation "measure (\<lambda>(k, xs). length xs)") auto

declare chunks.simps [simp del]

lemma chunks_Nil [simp]: "chunks k [] = []"
  by (simp add: chunks.simps)

lemma concat_chunks [wire]: "0 < k \<Longrightarrow> concat (chunks k xs) = xs"
proof (induction k xs rule: chunks.induct)
  case (1 k xs)
  then show ?case by (simp add: chunks.simps [of k xs])
qed

lemma chunks_bounds [wire]:
  "c \<in> set (chunks k xs) \<Longrightarrow> 0 < length c \<and> length c \<le> k"
proof (induction k xs rule: chunks.induct)
  case (1 k xs)
  show ?case
  proof (cases "xs = [] \<or> k = 0")
    case True
    with "1.prems" show ?thesis by (simp add: chunks.simps [of k xs])
  next
    case False
    with 1 show ?thesis by (auto simp: chunks.simps [of k xs])
  qed
qed

subsection \<open>A deque with a bound\<close>

text \<open>
  \<open>deque(maxlen=n).append\<close>: the oldest entry leaves when the bound is passed.
\<close>

definition maxlen_append :: "nat \<Rightarrow> 'a list \<Rightarrow> 'a \<Rightarrow> 'a list" where
  "maxlen_append n xs x = (let ys = xs @ [x] in drop (length ys - n) ys)"

lemma length_maxlen_append [simp]: "length (maxlen_append n xs x) = min n (Suc (length xs))"
  by (simp add: maxlen_append_def)

lemma maxlen_append_suffix: "\<exists>ys. ys @ maxlen_append n xs x = xs @ [x]"
  unfolding maxlen_append_def Let_def by (metis append_take_drop_id)

subsection \<open>Spans\<close>

definition span :: "('a \<Rightarrow> bool) \<Rightarrow> 'a list \<Rightarrow> 'a list \<times> 'a list" where
  "span p xs = (takeWhile p xs, dropWhile p xs)"

definition strip_by :: "('a \<Rightarrow> bool) \<Rightarrow> 'a list \<Rightarrow> 'a list" where
  "strip_by p xs = rev (dropWhile p (rev (dropWhile p xs)))"

lemma strip_by_id: "xs = [] \<or> (\<not> p (hd xs) \<and> \<not> p (last xs)) \<Longrightarrow> strip_by p xs = xs"
  by (cases xs rule: rev_cases) (auto simp: strip_by_def dropWhile_append hd_append dropWhile_eq_self_iff split: if_splits)

end
