(* ===== verification/Py_Float.thy ===== *)
theory Py_Float
  imports Sim_Prelude
begin

section \<open>Python floats\<close>

text \<open>
  The double-precision values the program computes with: a finite value \<open>Fin m e\<close> is
  \<open>m * 2 ^ e\<close>, beside the infinities and NaN.  Products and quotients are rounded to 53
  significant bits, half to even, as the hardware does; exponents are not bounded, because the
  range checks of the code keep every product and quotient far from overflow and the operands'
  exponents keep them away from the subnormal range.  \<open>py_round\<close> is Python's \<open>round\<close> to an
  integer, half to even.
\<close>

datatype pyfloat = Fin int int | Inf bool | NaN

fun isfinite :: "pyfloat \<Rightarrow> bool" where
  "isfinite (Fin m e) = True"
| "isfinite _ = False"

subsection \<open>Rounding a quotient of integers half to even\<close>

definition rhe :: "int \<Rightarrow> int \<Rightarrow> int" where
  "rhe n d =
     (let q = n div d; r = n mod d
      in if 2 * r < d then q else if 2 * r > d then q + 1
         else if even q then q else q + 1)"

fun bitlen :: "nat \<Rightarrow> nat" where
  "bitlen n = (if n = 0 then 0 else Suc (bitlen (n div 2)))"

declare bitlen.simps [simp del]

definition round53 :: "int \<Rightarrow> int \<Rightarrow> pyfloat" where
  "round53 m e =
     (let b = bitlen (nat \<bar>m\<bar>)
      in if b \<le> 53 then Fin m e
         else let s = b - 53 in Fin (sgn m * rhe \<bar>m\<bar> (2 ^ s)) (e + int s))"

fun fmul_int :: "pyfloat \<Rightarrow> int \<Rightarrow> pyfloat" where
  "fmul_int (Fin m e) k = round53 (m * k) e"
| "fmul_int (Inf s) k = (if k = 0 then NaN else Inf (s \<noteq> (k < 0)))"
| "fmul_int NaN k = NaN"

text \<open>\<open>\<bar>x\<bar> > k\<close> for an integer \<open>k\<close>: false on NaN.\<close>

fun fabs_gt :: "pyfloat \<Rightarrow> int \<Rightarrow> bool" where
  "fabs_gt (Fin m e) k =
     (if 0 \<le> e then k < \<bar>m\<bar> * 2 ^ nat e else k * 2 ^ nat (- e) < \<bar>m\<bar>)"
| "fabs_gt (Inf s) k = True"
| "fabs_gt NaN k = False"

fun fgt :: "pyfloat \<Rightarrow> int \<Rightarrow> bool" where
  "fgt (Fin m e) k =
     (if 0 \<le> e then k < m * 2 ^ nat e else k * 2 ^ nat (- e) < m)"
| "fgt (Inf negative) k = (\<not> negative)"
| "fgt NaN k = False"

text \<open>\<open>round(x)\<close> of a finite float; infinities and NaN raise in Python and are no result here.\<close>

fun py_round :: "pyfloat \<Rightarrow> int option" where
  "py_round (Fin m e) = Some (if 0 \<le> e then m * 2 ^ nat e else rhe m (2 ^ nat (- e)))"
| "py_round _ = None"

text \<open>
  The correctly rounded quotient of two integers (\<open>b \<noteq> 0\<close>): the exponent is chosen so that
  the scaled quotient lies in \<open>[2^52, 2^53)\<close>, then rounded once.
\<close>

definition scaled :: "int \<Rightarrow> int \<Rightarrow> int \<Rightarrow> int \<times> int" where
  "scaled a b e = (if 0 \<le> e then (a, b * 2 ^ nat e) else (a * 2 ^ nat (- e), b))"

definition true_div :: "int \<Rightarrow> int \<Rightarrow> pyfloat" where
  "true_div a b =
     (if a = 0 then Fin 0 0
      else let n = \<bar>a\<bar>; d = \<bar>b\<bar>; s = sgn a * sgn b;
               e0 = int (bitlen (nat n)) - int (bitlen (nat d)) - 53;
               (n0, d0) = scaled n d e0;
               e = (if n0 div d0 < 2 ^ 53 then e0 else e0 + 1);
               (n1, d1) = scaled n d e
           in Fin (s * rhe n1 d1) e)"

fun fdiv :: "pyfloat \<Rightarrow> pyfloat \<Rightarrow> pyfloat" where
  "fdiv (Fin m1 e1) (Fin m2 e2) =
     (case true_div m1 m2 of Fin m e \<Rightarrow> Fin m (e + e1 - e2) | x \<Rightarrow> x)"
| "fdiv (Inf s) (Fin m e) = Inf (s \<noteq> (m < 0))"
| "fdiv (Fin m e) (Inf s) = Fin 0 0"
| "fdiv _ _ = NaN"

subsection \<open>Facts about rounding\<close>

lemma rhe_bounds:
  assumes "0 < d"
  shows "2 * (rhe n d * d - n) \<le> d" and "2 * (n - rhe n d * d) \<le> d"
proof -
  have n: "n = n div d * d + n mod d" by simp
  have r: "0 \<le> n mod d" "n mod d < d" using assms by simp_all
  define q where "q = n div d"
  define r' where "r' = n mod d"
  have n': "n = q * d + r'" using n by (simp add: q_def r'_def)
  have "rhe n d = q \<or> rhe n d = q + 1"
    by (auto simp: rhe_def Let_def q_def)
  moreover have "rhe n d = q \<Longrightarrow> 2 * r' \<le> d"
    by (auto simp: rhe_def Let_def q_def r'_def split: if_splits)
  moreover have "rhe n d = q + 1 \<Longrightarrow> d \<le> 2 * r'"
    by (auto simp: rhe_def Let_def q_def r'_def split: if_splits)
  ultimately have "2 * (rhe n d * d - n) \<le> d \<and> 2 * (n - rhe n d * d) \<le> d"
    using r unfolding r'_def [symmetric] by (auto simp: n' algebra_simps)
  then show "2 * (rhe n d * d - n) \<le> d" and "2 * (n - rhe n d * d) \<le> d" by blast+
qed

lemma rhe_mono_le: "0 < d \<Longrightarrow> n \<le> k * d \<Longrightarrow> rhe n d \<le> k"
proof -
  assume d: "0 < d" and le: "n \<le> k * d"
  have "2 * (rhe n d * d - n) \<le> d" by (rule rhe_bounds(1) [OF d])
  moreover have "n \<le> x \<Longrightarrow> 2 * (y - n) \<le> d \<Longrightarrow> 2 * y \<le> 2 * x + d" for x y by presburger
  ultimately have "2 * (rhe n d * d) \<le> 2 * (k * d) + d" using le by blast
  then have "rhe n d * d * 2 < (k + 1) * d * 2" using d by (simp add: algebra_simps)
  with d have "rhe n d < k + 1" by (simp add: mult_less_cancel_right)
  then show "rhe n d \<le> k" by simp
qed

lemma rhe_mono_ge: "0 < d \<Longrightarrow> k * d \<le> n \<Longrightarrow> k \<le> rhe n d"
proof -
  assume d: "0 < d" and le: "k * d \<le> n"
  have "2 * (n - rhe n d * d) \<le> d" by (rule rhe_bounds(2) [OF d])
  moreover have "x \<le> n \<Longrightarrow> 2 * (n - y) \<le> d \<Longrightarrow> 2 * x \<le> 2 * y + d" for x y by presburger
  ultimately have "2 * (k * d) \<le> 2 * (rhe n d * d) + d" using le by blast
  then have "(k - 1) * d * 2 < rhe n d * d * 2" using d by (simp add: algebra_simps)
  with d have "k - 1 < rhe n d" by (simp add: mult_less_cancel_right)
  then show "k \<le> rhe n d" by simp
qed

lemma rhe_exact [simp]: "0 < d \<Longrightarrow> rhe (k * d) d = k"
  by (simp add: rhe_def)

lemma rhe_scale:
  assumes "0 < d" "0 < c"
  shows "rhe (c * n) (c * d) = rhe n d"
proof -
  have q: "(c * n) div (c * d) = n div d" using assms by simp
  have r: "(c * n) mod (c * d) = c * (n mod d)" by (rule mult_mod_right [symmetric])
  have cancel: "c * x < c * y \<longleftrightarrow> x < y" for x y
    using assms by simp
  have lt: "2 * (c * (n mod d)) < c * d \<longleftrightarrow> 2 * (n mod d) < d"
    using cancel [of "2 * (n mod d)" d] by (simp only: mult.left_commute [of 2 c])
  have gt: "c * d < 2 * (c * (n mod d)) \<longleftrightarrow> d < 2 * (n mod d)"
    using cancel [of d "2 * (n mod d)"] by (simp only: mult.left_commute [of 2 c])
  show ?thesis unfolding rhe_def Let_def q r lt gt ..
qed

lemma bitlen_bounds:
  "0 < n \<Longrightarrow> 2 ^ (bitlen n - 1) \<le> n \<and> n < 2 ^ bitlen n"
proof (induction n rule: bitlen.induct)
  case (1 n)
  show ?case
  proof (cases "n div 2 = 0")
    case True
    with "1.prems" have "n = 1" by auto
    then show ?thesis by (simp add: bitlen.simps [of "Suc 0"] bitlen.simps [of 0])
  next
    case False
    with 1 have IH: "2 ^ (bitlen (n div 2) - 1) \<le> n div 2" "n div 2 < 2 ^ bitlen (n div 2)"
      by auto
    have b: "bitlen n = Suc (bitlen (n div 2))" using "1.prems" by (simp add: bitlen.simps [of n])
    have "0 < bitlen (n div 2)" using False by (simp add: bitlen.simps [of "n div 2"])
    then obtain k where k: "bitlen (n div 2) = Suc k" by (cases "bitlen (n div 2)") auto
    from IH k b show ?thesis by auto
  qed
qed

lemma bitlen_le: "n < 2 ^ k \<Longrightarrow> bitlen n \<le> k"
proof (cases "n = 0")
  case True
  then show ?thesis by (simp add: bitlen.simps [of 0])
next
  case False
  assume "n < 2 ^ k"
  with bitlen_bounds [of n] False have "(2::nat) ^ (bitlen n - 1) < 2 ^ k" by linarith
  then show ?thesis by simp
qed

end
