(* ===== verification/Py_Values.thy ===== *)
theory Py_Values
  imports Py_Float
begin

section \<open>JSON values and the exceptions of the program\<close>

text \<open>
  The values that travel as JSON (a Python dict is an association list with distinct keys, in
  insertion order), Python's truth test on them, and one constructor for every exception class
  the program raises or catches.  The subclass tests follow the class hierarchy of the source:
  every \<open>except\<close> clause of the code is one of these tests.
\<close>

datatype json =
    JNull
  | JBool bool
  | JInt int
  | JFloat pyfloat
  | JStr utext
  | JArr "json list"
  | JObj "(utext \<times> json) list"

definition jstr :: "string \<Rightarrow> json" where
  "jstr s = JStr (lit s)"

fun truthy :: "json \<Rightarrow> bool" where
  "truthy JNull = False"
| "truthy (JBool b) = b"
| "truthy (JInt i) = (i \<noteq> 0)"
| "truthy (JFloat (Fin m e)) = (m \<noteq> 0)"
| "truthy (JFloat _) = True"
| "truthy (JStr s) = (s \<noteq> [])"
| "truthy (JArr xs) = (xs \<noteq> [])"
| "truthy (JObj kvs) = (kvs \<noteq> [])"

fun is_obj :: "json \<Rightarrow> bool" where
  "is_obj (JObj kvs) = True"
| "is_obj _ = False"

text \<open>\<open>d.get(key)\<close>: \<open>None\<close> (here \<open>JNull\<close>) for a missing key.\<close>

fun jget :: "json \<Rightarrow> string \<Rightarrow> json" where
  "jget (JObj kvs) k = (case map_of kvs (lit k) of Some v \<Rightarrow> v | None \<Rightarrow> JNull)"
| "jget _ k = JNull"

fun jhas :: "json \<Rightarrow> string \<Rightarrow> bool" where
  "jhas (JObj kvs) k = (lit k \<in> fst ` set kvs)"
| "jhas _ k = False"

definition jobj :: "(string \<times> json) list \<Rightarrow> json" where
  "jobj kvs = JObj (map (\<lambda>(k, v). (lit k, v)) kvs)"

lemma jget_jobj [simp]: "jget (jobj kvs) k = (case map_of kvs k of Some v \<Rightarrow> v | None \<Rightarrow> JNull)"
proof -
  have "map_of (map (\<lambda>(k, v). (lit k, v)) kvs) (lit k) = map_of kvs k"
    by (induction kvs) auto
  then show ?thesis by (simp add: jobj_def)
qed

lemma is_obj_jobj [simp]: "is_obj (jobj kvs)"
  by (simp add: jobj_def)

subsection \<open>Exceptions\<close>

datatype exn =
    FirmwareValidationError string
  | FramebufferError string
  | BoardInputError string
  | QmpError string
  | QmpUnavailableError string
  | QmpCommandError json
  | GdbRemoteError string
  | BrokerProtocolError string
  | BrokerUnavailableError string
  | OciPolicyError string
  | SessionCapacityError string
  | SessionNotFoundError string
  | WorkerUnavailableError string
  | SessionTransitionError string
  | RuntimeError string
  | ValueError string
  | TypeError string
  | KeyError string
  | IndexError string
  | OverflowError string
  | BufferError string
  | FileNotFoundError string
  | FileExistsError string
  | BrokenPipeError string
  | ConnectionError string
  | OSError string
  | ProcessLookupError
  | TimeoutError
  | IncompleteReadError
  | UnicodeDecodeError
  | JSONDecodeError
  | WebSocketDisconnect
  | CancelledError

fun is_qmp_error :: "exn \<Rightarrow> bool" where
  "is_qmp_error (QmpError m) = True"
| "is_qmp_error (QmpUnavailableError m) = True"
| "is_qmp_error (QmpCommandError d) = True"
| "is_qmp_error _ = False"

fun is_gdb_error :: "exn \<Rightarrow> bool" where
  "is_gdb_error (GdbRemoteError m) = True"
| "is_gdb_error _ = False"

fun is_connection_error :: "exn \<Rightarrow> bool" where
  "is_connection_error (ConnectionError m) = True"
| "is_connection_error (BrokenPipeError m) = True"
| "is_connection_error _ = False"

text \<open>\<open>TimeoutError\<close> is an \<open>OSError\<close> since Python 3.10.\<close>

fun is_os_error :: "exn \<Rightarrow> bool" where
  "is_os_error (OSError m) = True"
| "is_os_error (FileNotFoundError m) = True"
| "is_os_error (FileExistsError m) = True"
| "is_os_error ProcessLookupError = True"
| "is_os_error TimeoutError = True"
| "is_os_error e = is_connection_error e"

fun is_runtime_error :: "exn \<Rightarrow> bool" where
  "is_runtime_error (RuntimeError m) = True"
| "is_runtime_error (QmpError m) = True"
| "is_runtime_error (QmpUnavailableError m) = True"
| "is_runtime_error (QmpCommandError d) = True"
| "is_runtime_error (GdbRemoteError m) = True"
| "is_runtime_error (BrokerProtocolError m) = True"
| "is_runtime_error (BrokerUnavailableError m) = True"
| "is_runtime_error (OciPolicyError m) = True"
| "is_runtime_error (SessionCapacityError m) = True"
| "is_runtime_error (WorkerUnavailableError m) = True"
| "is_runtime_error (SessionTransitionError m) = True"
| "is_runtime_error _ = False"

text \<open>\<open>except Exception\<close> catches everything but \<open>CancelledError\<close>.\<close>

fun is_exception :: "exn \<Rightarrow> bool" where
  "is_exception CancelledError = False"
| "is_exception _ = True"

definition sum_bind :: "'e + 'a \<Rightarrow> ('a \<Rightarrow> 'e + 'b) \<Rightarrow> 'e + 'b" where
  "sum_bind r f = (case r of Inl e \<Rightarrow> Inl e | Inr x \<Rightarrow> f x)"

lemma sum_bind_simps [simp]:
  "sum_bind (Inl e) f = Inl e"
  "sum_bind (Inr x) f = f x"
  by (simp_all add: sum_bind_def)

lemma sum_bind_Inr [simp]:
  "sum_bind r f = Inr y \<longleftrightarrow> (\<exists>x. r = Inr x \<and> f x = Inr y)"
  by (cases r) auto

definition is_ok :: "'e + 'a \<Rightarrow> bool" where
  "is_ok r = (case r of Inl e \<Rightarrow> False | Inr x \<Rightarrow> True)"

lemma is_ok_simps [simp]: "is_ok (Inr x)" "\<not> is_ok (Inl e)"
  by (simp_all add: is_ok_def)

lemma is_ok_iff: "is_ok r \<longleftrightarrow> (\<exists>x. r = Inr x)"
  by (cases r) auto

text \<open>A guard: raise \<open>e\<close> unless \<open>b\<close>.\<close>

definition ensure :: "bool \<Rightarrow> exn \<Rightarrow> exn + unit" where
  "ensure b e = (if b then Inr () else Inl e)"

lemma ensure_Inr [simp]: "ensure b e = Inr u \<longleftrightarrow> b"
  by (simp add: ensure_def)

lemma ensure_True [simp]: "ensure True e = Inr ()"
  and ensure_False [simp]: "ensure False e = Inl e"
  by (simp_all add: ensure_def)

end
