(* ===== verification/Async.thy ===== *)
theory Async
  imports Py_Values
begin

section \<open>Coroutines\<close>

text \<open>
  The program's tasks are coroutines on one event loop: a task runs without interruption from one
  \<open>await\<close> that suspends to the next, and other tasks run in between.  \<open>Do\<close> is code that runs without
  suspending, \<open>Await b g\<close> a suspension that can end once \<open>b\<close> holds of the state (a lock is free, a
  task is done, a queue is not empty) and then continues with an input from outside (what a peer
  sent, the time).  A task ends with an exception or a value.  Everything is polymorphic in the
  state \<open>'w\<close> and the input \<open>'i\<close>.
\<close>

datatype (dead 'w, dead 'i, 'a) prog =
    Ret "exn + 'a"
  | Do "'w \<Rightarrow> 'w \<times> ('w, 'i, 'a) prog"
  | Await "'w \<Rightarrow> bool" "'i \<Rightarrow> 'w \<Rightarrow> 'w \<times> ('w, 'i, 'a) prog"

text \<open>Every control structure is a continuation on the outcome.\<close>

primrec outcome :: "('w, 'i, 'a) prog \<Rightarrow> (exn + 'a \<Rightarrow> ('w, 'i, 'b) prog) \<Rightarrow> ('w, 'i, 'b) prog" where
  "outcome (Ret r) k = k r"
| "outcome (Do g) k = Do (\<lambda>w. map_prod id (\<lambda>p. outcome p k) (g w))"
| "outcome (Await b g) k = Await b (\<lambda>i w. map_prod id (\<lambda>p. outcome p k) (g i w))"

definition return :: "'a \<Rightarrow> ('w, 'i, 'a) prog" where
  "return x = Ret (Inr x)"

definition raising :: "exn \<Rightarrow> ('w, 'i, 'a) prog" where
  "raising e = Ret (Inl e)"

definition then_do :: "('w, 'i, 'a) prog \<Rightarrow> ('a \<Rightarrow> ('w, 'i, 'b) prog) \<Rightarrow> ('w, 'i, 'b) prog" where
  "then_do p f = outcome p (\<lambda>r. case r of Inl e \<Rightarrow> Ret (Inl e) | Inr x \<Rightarrow> f x)"

definition seq :: "('w, 'i, 'a) prog \<Rightarrow> ('w, 'i, 'b) prog \<Rightarrow> ('w, 'i, 'b) prog" where
  "seq p q = then_do p (\<lambda>_. q)"

text \<open>\<open>try/except\<close>: the handler re-raises what its clauses do not name.\<close>

definition on_error :: "('w, 'i, 'a) prog \<Rightarrow> (exn \<Rightarrow> ('w, 'i, 'a) prog) \<Rightarrow> ('w, 'i, 'a) prog" where
  "on_error p h = outcome p (\<lambda>r. case r of Inl e \<Rightarrow> h e | Inr x \<Rightarrow> Ret (Inr x))"

text \<open>\<open>try/finally\<close>.\<close>

definition always :: "('w, 'i, 'a) prog \<Rightarrow> ('w, 'i, unit) prog \<Rightarrow> ('w, 'i, 'a) prog" where
  "always p f = outcome p (\<lambda>r. outcome f (\<lambda>r'. case r' of Inl e \<Rightarrow> Ret (Inl e) | Inr u \<Rightarrow> Ret r))"

definition change :: "('w \<Rightarrow> 'w) \<Rightarrow> ('w, 'i, unit) prog" where
  "change f = Do (\<lambda>w. (f w, Ret (Inr ())))"

text \<open>Code that reads the state and goes on accordingly, without suspending.\<close>

definition look :: "('w \<Rightarrow> ('w, 'i, 'a) prog) \<Rightarrow> ('w, 'i, 'a) prog" where
  "look f = Do (\<lambda>w. (w, f w))"

definition attempt :: "('w \<Rightarrow> exn + 'w) \<Rightarrow> ('w, 'i, unit) prog" where
  "attempt f = Do (\<lambda>w. case f w of Inl e \<Rightarrow> (w, Ret (Inl e)) | Inr w' \<Rightarrow> (w', Ret (Inr ())))"

primrec foreach :: "'x list \<Rightarrow> ('x \<Rightarrow> ('w, 'i, unit) prog) \<Rightarrow> ('w, 'i, unit) prog" where
  "foreach [] f = Ret (Inr ())"
| "foreach (x # xs) f = seq (f x) (foreach xs f)"

lemmas prog_defs = return_def raising_def then_do_def seq_def on_error_def always_def change_def
  look_def attempt_def

subsection \<open>Running a task\<close>

text \<open>\<open>settle\<close> runs a task up to its next suspension or its end; \<open>resume\<close> continues a suspended one.\<close>

primrec settle :: "('w, 'i, 'a) prog \<Rightarrow> 'w \<Rightarrow> 'w \<times> ('w, 'i, 'a) prog" where
  "settle (Ret r) = (\<lambda>w. (w, Ret r))"
| "settle (Do g) = (\<lambda>w. (\<lambda>(w', q). q w') (map_prod id settle (g w)))"
| "settle (Await b g) = (\<lambda>w. (w, Await b g))"

fun runnable :: "('w, 'i, 'a) prog \<Rightarrow> 'w \<Rightarrow> bool" where
  "runnable (Await b g) w = b w"
| "runnable p w = False"

fun resume :: "('w, 'i, 'a) prog \<Rightarrow> 'i \<Rightarrow> 'w \<Rightarrow> 'w \<times> ('w, 'i, 'a) prog" where
  "resume (Await b g) i w = (case g i w of (w', p) \<Rightarrow> settle p w')"
| "resume p i w = settle p w"

text \<open>A task alone: the inputs of its suspensions, one by one; a disabled one stays.\<close>

fun alone :: "'i list \<Rightarrow> 'w \<times> ('w, 'i, 'a) prog \<Rightarrow> 'w \<times> ('w, 'i, 'a) prog" where
  "alone [] c = c"
| "alone (i # is) (w, p) = (if runnable p w then alone is (resume p i w) else (w, p))"

definition start_alone :: "'i list \<Rightarrow> ('w, 'i, 'a) prog \<Rightarrow> 'w \<Rightarrow> 'w \<times> ('w, 'i, 'a) prog" where
  "start_alone is p w = alone is (settle p w)"

text \<open>How control structures run: \<open>carry\<close> hands a piece's end to its continuation.\<close>

definition carry :: "'w \<times> ('w, 'i, 'a) prog \<Rightarrow> (exn + 'a \<Rightarrow> ('w, 'i, 'b) prog) \<Rightarrow> 'w \<times> ('w, 'i, 'b) prog" where
  "carry c k = (case c of (w, p) \<Rightarrow> (case p of Ret r \<Rightarrow> settle (k r) w | _ \<Rightarrow> (w, outcome p k)))"

lemma carry_simps [simp]:
  "carry (w, Ret r) k = settle (k r) w"
  "carry (w, Await b g) k = (w, outcome (Await b g) k)"
  by (simp_all add: carry_def)

lemma settle_outcome: "settle (outcome p k) w = carry (settle p w) k"
proof (induction p arbitrary: w)
  case (Ret r)
  then show ?case by simp
next
  case (Do g)
  obtain w' q where g: "g w = (w', q)" by (cases "g w")
  have "settle (outcome q k) w' = carry (settle q w') k"
    using Do.IH [OF rangeI [of g w], of q w'] g by (simp add: snds.simps)
  with g show ?case by simp
next
  case (Await b g)
  then show ?case by simp
qed

lemma resume_outcome: "resume (outcome (Await b g) k) i w = carry (resume (Await b g) i w) k"
  by (simp add: settle_outcome split: prod.split)

lemma outcome_outcome: "outcome (outcome p k) k' = outcome p (\<lambda>r. outcome (k r) k')"
proof (induction p)
  case (Ret r)
  then show ?case by simp
next
  case (Do g)
  have "outcome (outcome (snd (g w)) k) k' = outcome (snd (g w)) (\<lambda>r. outcome (k r) k')" for w
    using Do.IH [of "g w" "snd (g w)"] by (simp add: snds.simps)
  then show ?case by (simp add: fun_eq_iff map_prod_def split_beta)
next
  case (Await b g)
  have "outcome (outcome (snd (g i w)) k) k' = outcome (snd (g i w)) (\<lambda>r. outcome (k r) k')" for i w
    using Await.IH [of "g i" "g i w" "snd (g i w)"] by (simp add: snds.simps)
  then show ?case by (simp add: fun_eq_iff map_prod_def split_beta)
qed

lemma runnable_outcome: "runnable (outcome (Await b g) k) w = b w"
  by simp

lemma settle_simps:
  "settle (return x0) w = (w, Ret (Inr x0))"
  "settle (raising e) w = (w, Ret (Inl e))"
  "settle (change u0) w = (u0 w, Ret (Inr ()))"
  "settle (look h) w = settle (h w) w"
  "settle (then_do p0 f) w = carry (settle p0 w) (\<lambda>r. case r of Inl e \<Rightarrow> Ret (Inl e) | Inr x \<Rightarrow> f x)"
  "settle (seq p q) w = carry (settle p w) (\<lambda>r. case r of Inl e \<Rightarrow> Ret (Inl e) | Inr x \<Rightarrow> q)"
  "settle (on_error p h') w = carry (settle p w) (\<lambda>r. case r of Inl e \<Rightarrow> h' e | Inr x \<Rightarrow> Ret (Inr x))"
  "settle (always p u) w = carry (settle p w) (\<lambda>r. outcome u (\<lambda>r'. case r' of Inl e \<Rightarrow> Ret (Inl e) | Inr y \<Rightarrow> Ret r))"
  by (simp_all add: prog_defs settle_outcome)

subsection \<open>Invariants\<close>

text \<open>
  \<open>safe I p\<close>: from a state with \<open>I\<close>, every uninterrupted piece of the task leads to a state with \<open>I\<close>,
  whatever other tasks have done at a suspension as long as they have kept \<open>I\<close>.
\<close>

inductive safe :: "('w \<Rightarrow> bool) \<Rightarrow> ('w, 'i, 'a) prog \<Rightarrow> bool" for I :: "'w \<Rightarrow> bool" where
  safe_Ret: "safe I (Ret r)"
| safe_Do: "(\<And>w. I w \<Longrightarrow> I (fst (g w)) \<and> safe I (snd (g w))) \<Longrightarrow> safe I (Do g)"
| safe_Await: "(\<And>i w. I w \<Longrightarrow> I (fst (g i w)) \<and> safe I (snd (g i w))) \<Longrightarrow> safe I (Await b g)"

inductive_cases safe_DoE: "safe I (Do g)"
inductive_cases safe_AwaitE: "safe I (Await b g)"

named_theorems safe_intro "compositional rules for safe coroutines"

declare safe_Ret [safe_intro]

lemma safe_outcome:
  assumes "safe I p" and "\<And>r. safe I (k r)"
  shows "safe I (outcome p k)"
  using assms(1)
proof (induction rule: safe.induct)
  case (safe_Ret r)
  show ?case by (simp add: assms(2))
next
  case (safe_Do g)
  then show ?case by (auto intro!: safe.safe_Do simp: map_prod_def split: prod.split) (metis fst_conv, metis snd_conv)
next
  case (safe_Await g b)
  then show ?case by (auto intro!: safe.safe_Await simp: map_prod_def split: prod.split) (metis fst_conv, metis snd_conv)
qed

lemma safe_return [safe_intro]: "safe I (return x)"
  by (simp add: return_def safe_Ret)

lemma safe_raising [safe_intro]: "safe I (raising e)"
  by (simp add: raising_def safe_Ret)

lemma safe_then_do [safe_intro]:
  "safe I p \<Longrightarrow> (\<And>x. safe I (f x)) \<Longrightarrow> safe I (then_do p f)"
  unfolding then_do_def by (rule safe_outcome) (auto intro: safe_Ret split: sum.split)

lemma safe_seq [safe_intro]: "safe I p \<Longrightarrow> safe I q \<Longrightarrow> safe I (seq p q)"
  unfolding seq_def by (intro safe_then_do)

lemma safe_on_error [safe_intro]:
  "safe I p \<Longrightarrow> (\<And>e. safe I (h e)) \<Longrightarrow> safe I (on_error p h)"
  unfolding on_error_def by (rule safe_outcome) (auto intro: safe_Ret split: sum.split)

lemma safe_always [safe_intro]: "safe I p \<Longrightarrow> safe I f \<Longrightarrow> safe I (always p f)"
  unfolding always_def by (intro safe_outcome) (auto intro: safe_Ret split: sum.split)

lemma safe_change: "(\<And>w. I w \<Longrightarrow> I (f w)) \<Longrightarrow> safe I (change f)"
  unfolding change_def by (rule safe_Do) (simp add: safe_Ret)

lemma safe_look [safe_intro]: "(\<And>w. safe I (f w)) \<Longrightarrow> safe I (look f)"
  unfolding look_def by (rule safe_Do) simp

lemma safe_attempt: "(\<And>w w'. I w \<Longrightarrow> f w = Inr w' \<Longrightarrow> I w') \<Longrightarrow> safe I (attempt f)"
  unfolding attempt_def by (rule safe_Do) (auto intro: safe_Ret split: sum.split)

lemma safe_foreach [safe_intro]: "(\<And>x. safe I (f x)) \<Longrightarrow> safe I (foreach xs f)"
  by (induction xs) (auto intro: safe_intro)

lemma safe_if [safe_intro]:
  "(b \<Longrightarrow> safe I p) \<Longrightarrow> (\<not> b \<Longrightarrow> safe I q) \<Longrightarrow> safe I (if b then p else q)"
  by simp

lemma safe_let [safe_intro]: "(\<And>y. safe I (f y)) \<Longrightarrow> safe I (let y = x in f y)"
  by simp

lemma safe_case_option [safe_intro]:
  "safe I p \<Longrightarrow> (\<And>x. safe I (f x)) \<Longrightarrow> safe I (case z of None \<Rightarrow> p | Some x \<Rightarrow> f x)"
  by (simp split: option.split)

lemma safe_case_prod [safe_intro]:
  "(\<And>x y. safe I (f x y)) \<Longrightarrow> safe I (case z of (x, y) \<Rightarrow> f x y)"
  by (simp split: prod.split)

lemma safe_case_sum [safe_intro]:
  "(\<And>x. safe I (f x)) \<Longrightarrow> (\<And>y. safe I (g y)) \<Longrightarrow> safe I (case z of Inl x \<Rightarrow> f x | Inr y \<Rightarrow> g y)"
  by (simp split: sum.split)

lemma safe_settle:
  assumes "safe I p" "I w"
  shows "I (fst (settle p w)) \<and> safe I (snd (settle p w))"
  using assms
proof (induction arbitrary: w rule: safe.induct)
  case (safe_Ret r)
  then show ?case by (simp add: safe.safe_Ret)
next
  case (safe_Do g)
  obtain w' p where "g w = (w', p)" by (cases "g w")
  with safe_Do(1) [OF safe_Do(2)] show ?case by simp
next
  case (safe_Await g b)
  then show ?case by (auto intro: safe.safe_Await)
qed

lemma safe_resume:
  assumes "safe I p" "I w"
  shows "I (fst (resume p i w)) \<and> safe I (snd (resume p i w))"
proof (cases p)
  case (Await b g)
  obtain w' q where g: "g i w = (w', q)" by (cases "g i w")
  have "I w'" "safe I q" using assms Await g by (auto elim!: safe_AwaitE) (metis fst_conv, metis snd_conv)
  then show ?thesis using safe_settle Await g by simp
next
  case (Ret r)
  then show ?thesis using safe_settle [OF assms] by (simp only: resume.simps)
next
  case (Do g)
  then show ?thesis using safe_settle [OF assms] by (simp only: resume.simps)
qed

lemma safe_conj: "safe I p \<Longrightarrow> safe J p \<Longrightarrow> safe (\<lambda>w. I w \<and> J w) p"
proof (induction p)
  case (Ret r)
  then show ?case by (simp add: safe_Ret)
next
  case (Do g)
  have "safe (\<lambda>w. I w \<and> J w) (snd (g w))" if "I w" "J w" for w
  proof (rule Do.IH)
    show "snd (g w) \<in> Basic_BNFs.snds (g w)" by (simp add: snds.simps)
  qed (use Do.prems that in \<open>auto elim!: safe_DoE\<close>)
  with Do.prems show ?case by (auto intro!: safe_Do elim!: safe_DoE)
next
  case (Await b g)
  have "safe (\<lambda>w. I w \<and> J w) (snd (g i w))" if "I w" "J w" for i w
  proof (rule Await.IH)
    show "snd (g i w) \<in> Basic_BNFs.snds (g i w)" by (simp add: snds.simps)
  qed (use Await.prems that in \<open>auto elim!: safe_AwaitE\<close>)
  with Await.prems show ?case by (auto intro!: safe_Await elim!: safe_AwaitE)
qed

subsection \<open>Outcomes under interference\<close>

text \<open>
  \<open>ends R p w r w'\<close>: the task \<open>p\<close>, started in \<open>w\<close>, can end with \<open>r\<close> in \<open>w'\<close> when the other tasks
  change the state at each suspension by steps in \<open>R\<close>.  \<open>wp\<close> is its weakest precondition, one
  equation per construct.
\<close>

inductive ends :: "('w \<Rightarrow> 'w \<Rightarrow> bool) \<Rightarrow> ('w, 'i, 'a) prog \<Rightarrow> 'w \<Rightarrow> exn + 'a \<Rightarrow> 'w \<Rightarrow> bool"
  for R :: "'w \<Rightarrow> 'w \<Rightarrow> bool" where
  ends_Ret: "ends R (Ret r) w r w"
| ends_Do: "ends R (snd (g w)) (fst (g w)) r w' \<Longrightarrow> ends R (Do g) w r w'"
| ends_Await: "R w u \<Longrightarrow> b u \<Longrightarrow> ends R (snd (g i u)) (fst (g i u)) r w' \<Longrightarrow> ends R (Await b g) w r w'"

primrec wp :: "('w \<Rightarrow> 'w \<Rightarrow> bool) \<Rightarrow> ('w, 'i, 'a) prog \<Rightarrow> (exn + 'a \<Rightarrow> 'w \<Rightarrow> bool) \<Rightarrow> 'w \<Rightarrow> bool" where
  "wp R (Ret r) = (\<lambda>Q w. Q r w)"
| "wp R (Do g) = (\<lambda>Q w. (\<lambda>(w', t). t Q w') (map_prod id (wp R) (g w)))"
| "wp R (Await b g) = (\<lambda>Q w. \<forall>u i. R w u \<longrightarrow> b u \<longrightarrow> (\<lambda>(w', t). t Q w') (map_prod id (wp R) (g i u)))"

lemma wp_sound: "ends R p w r w' \<Longrightarrow> wp R p Q w \<Longrightarrow> Q r w'"
proof (induction rule: ends.induct)
  case (ends_Ret r w)
  then show ?case by simp
next
  case (ends_Do g w r w')
  then show ?case by (cases "g w") simp
next
  case (ends_Await w u b g i r w')
  obtain v q where g: "g i u = (v, q)" by (cases "g i u")
  from ends_Await.prems ends_Await.hyps(1,2)
  have "(\<lambda>(w', t). t Q w') (map_prod id (wp R) (g i u))" by simp
  with g ends_Await.IH show ?case by simp
qed

lemma wp_complete: "(\<And>r w'. ends R p w r w' \<Longrightarrow> Q r w') \<Longrightarrow> wp R p Q w"
proof (induction p arbitrary: w)
  case (Ret r)
  then show ?case by (simp add: ends_Ret)
next
  case (Do g)
  obtain w' q where g: "g w = (w', q)" by (cases "g w")
  have "wp R q Q w'"
    using Do.IH [OF rangeI [of g w], of q w'] Do.prems g ends.ends_Do [of R g w] by (simp add: snds.simps)
  with g show ?case by simp
next
  case (Await b g)
  have "(\<lambda>(w', t). t Q w') (map_prod id (wp R) (g i u))" if "R w u" "b u" for u i
  proof -
    obtain w' q where g: "g i u = (w', q)" by (cases "g i u")
    have "wp R q Q w'"
      using Await.IH [OF rangeI [of g i] rangeI [of "g i" u], of q w'] Await.prems g that ends.ends_Await [of R w u b g i]
      by (simp add: snds.simps)
    with g show ?thesis by simp
  qed
  then show ?case by simp
qed

lemma wp_mono: "wp R p Q w \<Longrightarrow> (\<And>r u. Q r u \<Longrightarrow> Q' r u) \<Longrightarrow> wp R p Q' w"
  by (rule wp_complete) (blast dest: wp_sound)

lemma wp_any: "(\<And>r u. Q r u) \<Longrightarrow> wp R p Q w"
  by (rule wp_complete) blast

lemma wp_cong: "(\<And>r u. Q1 r u = Q2 r u) \<Longrightarrow> wp R p Q1 w = wp R p Q2 w"
  by (intro arg_cong [where f = "\<lambda>Q. wp R p Q w"] ext)

lemma wp_outcome: "wp R (outcome p k) Q w = wp R p (\<lambda>r u. wp R (k r) Q u) w"
proof (induction p arbitrary: w)
  case (Ret r)
  then show ?case by simp
next
  case (Do g)
  obtain w' q where g: "g w = (w', q)" by (cases "g w")
  show ?case using Do.IH [OF rangeI [of g w], of q w'] g by (simp add: snds.simps)
next
  case (Await b g)
  have "(\<lambda>(w', t). t Q w') (map_prod id (wp R) (map_prod id (\<lambda>p. outcome p k) (g i u)))
      = (\<lambda>(w', t). t (\<lambda>r u. wp R (k r) Q u) w') (map_prod id (wp R) (g i u))" for i u
  proof -
    obtain w' q where g: "g i u = (w', q)" by (cases "g i u")
    show ?thesis
      using Await.IH [OF rangeI [of g i] rangeI [of "g i" u], of q w'] g by (simp add: snds.simps)
  qed
  then show ?case by simp
qed

lemma wp_simps:
  "wp R (return x0) Q0 w = Q0 (Inr x0) w"
  "wp R (raising e) Q w = Q (Inl e) w"
  "wp R (change u0) Q1 w = Q1 (Inr ()) (u0 w)"
  "wp R (look h) Q w = wp R (h w) Q w"
  "wp R (attempt a) Q1 w = (case a w of Inl e \<Rightarrow> Q1 (Inl e) w | Inr w' \<Rightarrow> Q1 (Inr ()) w')"
  "wp R (then_do p0 f) Q w = wp R p0 (\<lambda>r u. case r of Inl e \<Rightarrow> Q (Inl e) u | Inr x \<Rightarrow> wp R (f x) Q u) w"
  "wp R (seq p0 q) Q w = wp R p0 (\<lambda>r u. case r of Inl e \<Rightarrow> Q (Inl e) u | Inr x \<Rightarrow> wp R q Q u) w"
  "wp R (on_error p h') Q w = wp R p (\<lambda>r u. case r of Inl e \<Rightarrow> wp R (h' e) Q u | Inr x \<Rightarrow> Q (Inr x) u) w"
  "wp R (always p u1) Q w = wp R p (\<lambda>r u. wp R u1 (\<lambda>r' u. case r' of Inl e \<Rightarrow> Q (Inl e) u | Inr y \<Rightarrow> Q r u) u) w"
proof -
  show "wp R (return x0) Q0 w = Q0 (Inr x0) w" "wp R (raising e) Q w = Q (Inl e) w"
    "wp R (change u0) Q1 w = Q1 (Inr ()) (u0 w)" "wp R (look h) Q w = wp R (h w) Q w"
    "wp R (attempt a) Q1 w = (case a w of Inl e \<Rightarrow> Q1 (Inl e) w | Inr w' \<Rightarrow> Q1 (Inr ()) w')"
    by (simp_all add: prog_defs split: sum.split)
  show "wp R (then_do p0 f) Q w = wp R p0 (\<lambda>r u. case r of Inl e \<Rightarrow> Q (Inl e) u | Inr x \<Rightarrow> wp R (f x) Q u) w"
    "wp R (seq p0 q) Q w = wp R p0 (\<lambda>r u. case r of Inl e \<Rightarrow> Q (Inl e) u | Inr x \<Rightarrow> wp R q Q u) w"
    "wp R (on_error p h') Q w = wp R p (\<lambda>r u. case r of Inl e \<Rightarrow> wp R (h' e) Q u | Inr x \<Rightarrow> Q (Inr x) u) w"
    by (simp_all only: prog_defs wp_outcome) (auto intro!: wp_cong split: sum.split)
  show "wp R (always p u1) Q w = wp R p (\<lambda>r u. wp R u1 (\<lambda>r' u. case r' of Inl e \<Rightarrow> Q (Inl e) u | Inr y \<Rightarrow> Q r u) u) w"
    by (simp only: prog_defs wp_outcome)
      (auto intro!: wp_cong split: sum.split)
qed

text \<open>A condition that every piece and every other task keep holds at the end.\<close>

lemma wp_safe:
  assumes "safe I p" "\<And>u v. I u \<Longrightarrow> R u v \<Longrightarrow> I v" "I w"
  shows "wp R p (\<lambda>r u. I u) w"
proof (rule wp_complete)
  fix r w'
  assume "ends R p w r w'"
  then show "I w'" using assms(1,3)
  proof (induction rule: ends.induct)
    case (ends_Ret r w)
    then show ?case by simp
  next
    case (ends_Do g w r w')
    then show ?case by (blast elim: safe_DoE)
  next
    case (ends_Await w u b g i r w')
    then show ?case using assms(2) by (blast elim: safe_AwaitE)
  qed
qed

subsection \<open>Exhibiting a run\<close>

lemma ends_outcome: "ends R p w r u \<Longrightarrow> ends R (k r) u r' w' \<Longrightarrow> ends R (outcome p k) w r' w'"
proof (induction rule: ends.induct)
  case (ends_Ret r w)
  then show ?case by simp
next
  case (ends_Do g w r w')
  then show ?case by (auto intro!: ends.ends_Do simp: map_prod_def split_beta)
next
  case (ends_Await w u b g i r w')
  then show ?case by (auto intro!: ends.ends_Await [of R _ u _ _ i] simp: map_prod_def split_beta)
qed

lemma ends_then_do: "ends R p w (Inr x) u \<Longrightarrow> ends R (f x) u r w' \<Longrightarrow> ends R (then_do p f) w r w'"
  and ends_then_do_raises: "ends R p w (Inl e) u \<Longrightarrow> ends R (then_do p f) w (Inl e) u"
  unfolding then_do_def by (auto elim!: ends_outcome simp: ends.ends_Ret)

lemma ends_seq: "ends R p w (Inr x) u \<Longrightarrow> ends R q u r w' \<Longrightarrow> ends R (seq p q) w r w'"
  and ends_seq_raises: "ends R p w (Inl e) u \<Longrightarrow> ends R (seq p q) w (Inl e) u"
  unfolding seq_def by (auto intro: ends_then_do ends_then_do_raises)

lemma ends_on_error: "ends R p w (Inr x) u \<Longrightarrow> ends R (on_error p h) w (Inr x) u"
  and ends_on_error_handled: "ends R p w (Inl e) u \<Longrightarrow> ends R (h e) u r w' \<Longrightarrow> ends R (on_error p h) w r w'"
  unfolding on_error_def by (auto elim!: ends_outcome simp: ends.ends_Ret)

lemma ends_look: "ends R (f w) w r w' \<Longrightarrow> ends R (look f) w r w'"
  unfolding look_def by (rule ends.ends_Do) simp

lemma ends_return: "ends R (return x) w (Inr x) w" and ends_raising: "ends R (raising e) w (Inl e) w"
  by (simp_all add: return_def raising_def ends.ends_Ret)

lemma ends_always: "ends R p w r u \<Longrightarrow> ends R f u (Inr ()) w' \<Longrightarrow> ends R (always p f) w r w'"
  unfolding always_def by (auto elim!: ends_outcome simp: ends.ends_Ret)

lemma ends_change: "ends R (change f) w (Inr ()) (f w)"
  unfolding change_def by (rule ends.ends_Do) (simp add: ends.ends_Ret)

lemma ends_foreach: "(\<And>x. x \<in> set xs \<Longrightarrow> ends R (f x) w (Inr ()) w) \<Longrightarrow> ends R (foreach xs f) w (Inr ()) w"
  by (induction xs) (auto intro: ends.ends_Ret ends_seq)

subsection \<open>Outcomes with inputs of one kind\<close>

text \<open>
  \<open>ends_on J R\<close>: the task ends so when, besides, every suspension is given an input with \<open>J\<close> (a
  transport in order, say).
\<close>

inductive ends_on :: "('i \<Rightarrow> bool) \<Rightarrow> ('w \<Rightarrow> 'w \<Rightarrow> bool) \<Rightarrow> ('w, 'i, 'a) prog \<Rightarrow> 'w \<Rightarrow> exn + 'a \<Rightarrow> 'w \<Rightarrow> bool"
  for J :: "'i \<Rightarrow> bool" and R :: "'w \<Rightarrow> 'w \<Rightarrow> bool" where
  ends_on_Ret: "ends_on J R (Ret r) w r w"
| ends_on_Do: "ends_on J R (snd (g w)) (fst (g w)) r w' \<Longrightarrow> ends_on J R (Do g) w r w'"
| ends_on_Await: "R w u \<Longrightarrow> b u \<Longrightarrow> J i \<Longrightarrow> ends_on J R (snd (g i u)) (fst (g i u)) r w' \<Longrightarrow> ends_on J R (Await b g) w r w'"

inductive_cases ends_on_RetE: "ends_on J R (Ret r) w r' w'"
inductive_cases ends_on_DoE: "ends_on J R (Do g) w r w'"
inductive_cases ends_on_AwaitE: "ends_on J R (Await b g) w r w'"

lemma ends_on_ends: "ends_on J R p w r w' \<Longrightarrow> ends R p w r w'"
  by (induction rule: ends_on.induct) (auto intro: ends.intros)

lemma ends_on_outcome:
  "ends_on J R (outcome p k) w r w' \<Longrightarrow> \<exists>x u. ends_on J R p w x u \<and> ends_on J R (k x) u r w'"
proof (induction p arbitrary: w)
  case (Ret x)
  then show ?case by (auto intro: ends_on_Ret)
next
  case (Do g)
  from Do.prems have "ends_on J R (outcome (snd (g w)) k) (fst (g w)) r w'"
    by (auto elim!: ends_on_DoE simp: map_prod_def split_beta)
  from Do.IH [OF rangeI [of g w] _ this] show ?case by (auto simp: snds.simps intro: ends_on_Do)
next
  case (Await b g)
  from Await.prems obtain u i where u: "R w u" "b u" "J i"
    and "ends_on J R (outcome (snd (g i u)) k) (fst (g i u)) r w'"
    by (auto elim!: ends_on_AwaitE simp: map_prod_def split_beta)
  from Await.IH [OF rangeI [of g i] rangeI [of "g i" u] _ this(4)] u show ?case
    by (auto simp: snds.simps intro: ends_on_Await)
qed

lemma ends_on_seq:
  assumes "ends_on J R (seq p q) w r w'"
  obtains e where "ends_on J R p w (Inl e) w'" "r = Inl e"
  | x u where "ends_on J R p w (Inr x) u" "ends_on J R q u r w'"
proof -
  from ends_on_outcome [OF assms [unfolded seq_def then_do_def]] obtain x u where x: "ends_on J R p w x u"
    "ends_on J R (case x of Inl e \<Rightarrow> Ret (Inl e) | Inr y \<Rightarrow> q) u r w'" by blast
  show thesis
  proof (cases x)
    case (Inl e)
    with x that(1) show thesis by (auto elim: ends_on_RetE)
  next
    case (Inr y)
    with x that(2) show thesis by auto
  qed
qed

lemma ends_on_simps:
  "ends_on J R (look f) w r w' \<longleftrightarrow> ends_on J R (f w) w r w'"
  "ends_on J R (change h) w r1 w' \<longleftrightarrow> r1 = Inr () \<and> w' = h w"
  "ends_on J R (Ret r2) w r3 w' \<longleftrightarrow> r3 = r2 \<and> w' = w"
  by (auto simp: look_def change_def intro!: ends_on_Do intro: ends_on_Ret elim!: ends_on_DoE ends_on_RetE)

end
