(* ===== verification/Boards.thy ===== *)
theory Boards
  imports Py_Values
begin

section \<open>Board profiles (boards.py)\<close>

text \<open>
  The two owned device profiles, with every field the source gives them, and the lookup the API
  and the broker use.  Field names that would clash carry a prefix (\<open>board_id\<close> is \<open>id\<close>).
\<close>

datatype fidelity = EMULATED | BEHAVIORAL | PLANNED | UNSUPPORTED

fun fidelity_value :: "fidelity \<Rightarrow> string" where
  "fidelity_value EMULATED = ''emulated''"
| "fidelity_value BEHAVIORAL = ''behavioral''"
| "fidelity_value PLANNED = ''planned''"
| "fidelity_value UNSUPPORTED = ''unsupported''"

record capability =
  cap_id :: string
  cap_label :: string
  cap_fidelity :: fidelity
  cap_note :: string

record display_profile =
  controller :: string
  disp_width :: int
  disp_height :: int
  transport :: string
  rotation_degrees :: int

record board_profile =
  board_id :: string
  board_label :: string
  mcu :: string
  flash_size_bytes :: nat
  psram_size_mib :: nat
  display :: display_profile
  capabilities :: "capability list"

definition Capability :: "string \<Rightarrow> string \<Rightarrow> fidelity \<Rightarrow> string \<Rightarrow> capability" where
  "Capability i l f n = \<lparr>cap_id = i, cap_label = l, cap_fidelity = f, cap_note = n\<rparr>"

definition CARDPUTER_ADV :: board_profile where
  "CARDPUTER_ADV = \<lparr>
     board_id = ''cardputer-adv'',
     board_label = ''Cardputer ADV compatible'',
     mcu = ''ESP32-S3FN8'',
     flash_size_bytes = 8 * 1024 * 1024,
     psram_size_mib = 0,
     display = \<lparr>controller = ''ST7789'', disp_width = 240, disp_height = 135,
                transport = ''SPI'', rotation_degrees = 90\<rparr>,
     capabilities = [
       Capability ''cpu'' ''ESP32-S3 CPU and boot'' EMULATED ''Espressif QEMU'',
       Capability ''flash'' ''8 MiB SPI flash'' EMULATED ''Patched GigaDevice QE path'',
       Capability ''serial'' ''UART console'' EMULATED ''Bidirectional byte stream'',
       Capability ''display'' ''ST7789 display'' EMULATED
         ''SPI3 command/data model with RGB framebuffer capture'',
       Capability ''keyboard'' ''TCA8418 keyboard'' EMULATED
         ''I2C FIFO, GPIO 11 interrupt, and typed key injection'',
       Capability ''imu'' ''BMI270 IMU'' BEHAVIORAL
         ''I2C identification, configuration, and deterministic scripted samples'',
       Capability ''power'' ''Battery voltage'' BEHAVIORAL
         ''ADC1 GPIO10 battery-divider model; hardware has no charge-status telemetry'',
       Capability ''wifi'' ''Wi-Fi RF'' UNSUPPORTED ''No physical RF simulation'',
       Capability ''ble'' ''Bluetooth LE RF'' UNSUPPORTED ''No physical RF simulation'']\<rparr>"

definition STICKS3 :: board_profile where
  "STICKS3 = \<lparr>
     board_id = ''sticks3'',
     board_label = ''StickS3 compatible'',
     mcu = ''ESP32-S3-PICO-1-N8R8'',
     flash_size_bytes = 8 * 1024 * 1024,
     psram_size_mib = 8,
     display = \<lparr>controller = ''ST7789'', disp_width = 135, disp_height = 240,
                transport = ''SPI'', rotation_degrees = 0\<rparr>,
     capabilities = [
       Capability ''cpu'' ''ESP32-S3 CPU and boot'' EMULATED ''Espressif QEMU'',
       Capability ''flash'' ''8 MiB SPI flash'' EMULATED ''Patched GigaDevice QE path'',
       Capability ''psram'' ''8 MiB PSRAM'' EMULATED ''QEMU SPI PSRAM model'',
       Capability ''serial'' ''UART console'' EMULATED ''Bidirectional byte stream'',
       Capability ''display'' ''ST7789 display'' EMULATED
         ''SPI3 command/data model with RGB framebuffer capture'',
       Capability ''buttons'' ''Physical buttons'' EMULATED
         ''Active-low GPIO 11/12 transitions from typed button input'',
       Capability ''imu'' ''BMI270 IMU'' BEHAVIORAL
         ''I2C identification, configuration, and deterministic scripted samples'',
       Capability ''power'' ''Battery and power states'' BEHAVIORAL
         ''M5PM1 I2C registers with scripted voltage and charging state'',
       Capability ''wifi'' ''Wi-Fi RF'' UNSUPPORTED ''No physical RF simulation'',
       Capability ''ble'' ''Bluetooth LE RF'' UNSUPPORTED ''No physical RF simulation'']\<rparr>"

definition BOARD_PROFILES :: "(string \<times> board_profile) list" where
  "BOARD_PROFILES = [(board_id CARDPUTER_ADV, CARDPUTER_ADV), (board_id STICKS3, STICKS3)]"

definition get_board_profile :: "string \<Rightarrow> exn + board_profile" where
  "get_board_profile b =
     (case map_of BOARD_PROFILES b of
        Some p \<Rightarrow> Inr p
      | None \<Rightarrow> Inl (ValueError (''unknown board profile: '' @ b)))"

definition capability_dict :: "capability \<Rightarrow> json" where
  "capability_dict c = jobj [
     (''id'', jstr (cap_id c)), (''label'', jstr (cap_label c)),
     (''fidelity'', jstr (fidelity_value (cap_fidelity c))), (''note'', jstr (cap_note c))]"

definition display_dict :: "display_profile \<Rightarrow> json" where
  "display_dict d = jobj [
     (''controller'', jstr (controller d)), (''width'', JInt (disp_width d)),
     (''height'', JInt (disp_height d)), (''transport'', jstr (transport d)),
     (''rotation_degrees'', JInt (rotation_degrees d))]"

definition as_public_dict :: "board_profile \<Rightarrow> json" where
  "as_public_dict b = jobj [
     (''id'', jstr (board_id b)), (''label'', jstr (board_label b)), (''mcu'', jstr (mcu b)),
     (''flash_size_bytes'', JInt (int (flash_size_bytes b))),
     (''psram_size_mib'', JInt (int (psram_size_mib b))),
     (''display'', display_dict (display b)),
     (''capabilities'', JArr (map capability_dict (capabilities b)))]"

lemma board_id_simps [simp]:
  "board_id CARDPUTER_ADV = ''cardputer-adv''" "board_id STICKS3 = ''sticks3''"
  by (simp_all add: CARDPUTER_ADV_def STICKS3_def)

lemma flash_size_simps [simp]:
  "flash_size_bytes CARDPUTER_ADV = 8388608" "flash_size_bytes STICKS3 = 8388608"
  by (simp_all add: CARDPUTER_ADV_def STICKS3_def)

lemma psram_size_simps [simp]:
  "psram_size_mib CARDPUTER_ADV = 0" "psram_size_mib STICKS3 = 8"
  by (simp_all add: CARDPUTER_ADV_def STICKS3_def)

lemma board_profiles_lookup:
  "map_of BOARD_PROFILES b =
     (if b = ''cardputer-adv'' then Some CARDPUTER_ADV
      else if b = ''sticks3'' then Some STICKS3 else None)"
  by (simp add: BOARD_PROFILES_def)

lemma get_board_profile_Inr:
  "get_board_profile b = Inr p \<longleftrightarrow>
     (b = ''cardputer-adv'' \<and> p = CARDPUTER_ADV) \<or> (b = ''sticks3'' \<and> p = STICKS3)"
  by (auto simp: get_board_profile_def board_profiles_lookup)

lemma get_board_profile_id: "get_board_profile b = Inr p \<Longrightarrow> board_id p = b"
  by (auto simp: get_board_profile_Inr)

end
