(* ===== verification/Tracing.thy ===== *)
theory Tracing
  imports Py_Values
begin

section \<open>Worker trace lines (tracing.py)\<close>

text \<open>
  A line of the worker's trace stream is decoded as ASCII with replacement (U+FFFD for every
  other byte), stripped and matched against
  \<^verbatim>\<open>^(?:D+@D+[.]D+:)?(?P<name>[a-z0-9_]+)(?:S+(?P<detail>.*))?$\<close> (D a digit, S white space).
  The decoded text holds code points below 128 and U+FFFD only, so the digit and space classes
  of the Unicode pattern are their ASCII parts.  Every choice the backtracking matcher has is
  forced: a digit run must end at its separator, a name at the end or at white space, and white
  space handed back to the detail could only add to it.
\<close>

definition TRACE_EVENT_TYPES :: "(string \<times> string) list" where
  "TRACE_EVENT_TYPES = [
    (''i2c_event'', ''peripheral.i2c.event''),
    (''i2c_send'', ''peripheral.i2c.send''),
    (''i2c_send_async'', ''peripheral.i2c.send''),
    (''i2c_recv'', ''peripheral.i2c.receive''),
    (''i2c_ack'', ''peripheral.i2c.ack''),
    (''esp32s3_gpspi_transaction'', ''peripheral.spi.transaction''),
    (''st7789_command'', ''peripheral.display.command''),
    (''st7789_window'', ''peripheral.display.window''),
    (''esp32_gpio_input'', ''peripheral.gpio.input''),
    (''esp32_gpio_output'', ''peripheral.gpio.output''),
    (''tca8418_key_event'', ''peripheral.keyboard.event''),
    (''sticks3_button'', ''peripheral.button''),
    (''bmi270_sample'', ''peripheral.imu.sample''),
    (''m5pm1_power_state'', ''peripheral.power.state''),
    (''esp32s3_saradc_conversion'', ''peripheral.adc.conversion'')]"

definition TRACE_EVENT_NAMES :: "string list" where
  "TRACE_EVENT_NAMES = map fst TRACE_EVENT_TYPES"

definition TRACE_EVENT_LIMITS :: "(string \<times> nat) list" where
  "TRACE_EVENT_LIMITS = [
    (''i2c_event'', 64), (''i2c_send'', 64), (''i2c_send_async'', 64), (''i2c_recv'', 64),
    (''i2c_ack'', 64), (''esp32s3_gpspi_transaction'', 128), (''st7789_command'', 128),
    (''st7789_window'', 64), (''esp32_gpio_input'', 128), (''esp32_gpio_output'', 128),
    (''tca8418_key_event'', 256), (''sticks3_button'', 256), (''bmi270_sample'', 256),
    (''m5pm1_power_state'', 256), (''esp32s3_saradc_conversion'', 64)]"

definition MAX_TRACE_LINE_BYTES :: nat where "MAX_TRACE_LINE_BYTES = 2048"
definition MAX_TRACE_DETAIL_CHARACTERS :: nat where "MAX_TRACE_DETAIL_CHARACTERS = 512"

definition decode_ascii_replace :: "bytes \<Rightarrow> utext" where
  "decode_ascii_replace bs = map (\<lambda>b. if unat b < 128 then unat b else 65533) bs"

definition cp_space :: "nat \<Rightarrow> bool" where
  "cp_space c = ((9 \<le> c \<and> c \<le> 13) \<or> (28 \<le> c \<and> c \<le> 32))"

definition cp_digit :: "nat \<Rightarrow> bool" where
  "cp_digit c = (48 \<le> c \<and> c \<le> 57)"

definition cp_name :: "nat \<Rightarrow> bool" where
  "cp_name c = ((97 \<le> c \<and> c \<le> 122) \<or> cp_digit c \<or> c = 95)"

definition digits_then :: "nat \<Rightarrow> utext \<Rightarrow> utext option" where
  "digits_then sep t =
     (case span cp_digit t of (ds, r) \<Rightarrow>
        if ds \<noteq> [] \<and> r \<noteq> [] \<and> hd r = sep then Some (tl r) else None)"

definition match_prefix :: "utext \<Rightarrow> utext option" where
  "match_prefix t =
     (case digits_then 64 t of None \<Rightarrow> None
      | Some t1 \<Rightarrow> (case digits_then 46 t1 of None \<Rightarrow> None
                    | Some t2 \<Rightarrow> digits_then 58 t2))"

definition match_body :: "utext \<Rightarrow> (utext \<times> utext option) option" where
  "match_body t =
     (case span cp_name t of (name, rest) \<Rightarrow>
        if name = [] then None
        else if rest = [] then Some (name, None)
        else (case span cp_space rest of (ws, detail) \<Rightarrow>
                if ws = [] \<or> 10 \<in> set detail then None else Some (name, Some detail)))"

definition match_trace_line :: "utext \<Rightarrow> (utext \<times> utext option) option" where
  "match_trace_line t =
     (case match_prefix t of
        Some rest \<Rightarrow> (case match_body rest of Some m \<Rightarrow> Some m | None \<Rightarrow> match_body t)
      | None \<Rightarrow> match_body t)"

record trace_data =
  trace_event :: string
  detail :: utext

definition parse_worker_trace_line :: "bytes \<Rightarrow> (string \<times> trace_data) option" where
  "parse_worker_trace_line payload =
     (if payload = [] \<or> MAX_TRACE_LINE_BYTES < length payload then None
      else case match_trace_line (strip_by cp_space (decode_ascii_replace payload)) of
             None \<Rightarrow> None
           | Some (name, d) \<Rightarrow>
               let n = map char_of name in
               (case map_of TRACE_EVENT_TYPES n of
                  None \<Rightarrow> None
                | Some event_type \<Rightarrow>
                    Some (event_type,
                          \<lparr>trace_event = n,
                           detail = take MAX_TRACE_DETAIL_CHARACTERS (case d of Some x \<Rightarrow> x | None \<Rightarrow> [])\<rparr>)))"

subsection \<open>Facts\<close>

lemma trace_limits_dom: "fst ` set TRACE_EVENT_LIMITS = fst ` set TRACE_EVENT_TYPES"
  by (simp add: TRACE_EVENT_LIMITS_def TRACE_EVENT_TYPES_def)

lemma trace_limit_defined:
  assumes "map_of TRACE_EVENT_TYPES n = Some ty"
  obtains k where "map_of TRACE_EVENT_LIMITS n = Some k" and "0 < k" and "k \<le> 256"
proof -
  from assms have "n \<in> fst ` set TRACE_EVENT_LIMITS"
    by (metis image_eqI fst_conv map_of_SomeD trace_limits_dom)
  then have "map_of TRACE_EVENT_LIMITS n \<noteq> None"
    by (simp add: map_of_eq_None_iff)
  then obtain k where k: "map_of TRACE_EVENT_LIMITS n = Some k" by auto
  have "\<forall>(m, k) \<in> set TRACE_EVENT_LIMITS. 0 < k \<and> k \<le> 256"
    by (simp add: TRACE_EVENT_LIMITS_def)
  with map_of_SomeD [OF k] have "0 < k" "k \<le> 256" by auto
  with k that show thesis by blast
qed

lemma parse_trace_Some:
  assumes "parse_worker_trace_line payload = Some (ty, d)"
  shows "map_of TRACE_EVENT_TYPES (trace_event d) = Some ty"
    and "length (detail d) \<le> 512"
    and "0 < length payload" and "length payload \<le> 2048"
  using assms
  by (auto simp: parse_worker_trace_line_def Let_def MAX_TRACE_DETAIL_CHARACTERS_def
        MAX_TRACE_LINE_BYTES_def split: if_splits option.splits prod.splits)

lemma span_stop:
  "list_all p xs \<Longrightarrow> ys = [] \<or> \<not> p (hd ys) \<Longrightarrow> span p (xs @ ys) = (xs, ys)"
  by (cases ys) (auto simp: span_def takeWhile_append dropWhile_append list_all_iff
      takeWhile_eq_all_conv dropWhile_eq_Nil_conv)

lemma cp_disjoint: "cp_name c \<Longrightarrow> \<not> cp_space c" "cp_digit c \<Longrightarrow> cp_name c"
  by (auto simp: cp_name_def cp_space_def cp_digit_def)

lemma digits_then_render [simp]:
  "list_all cp_digit ds \<Longrightarrow> ds \<noteq> [] \<Longrightarrow> \<not> cp_digit sep \<Longrightarrow> digits_then sep (ds @ sep # r) = Some r"
  by (simp add: digits_then_def span_stop [of cp_digit ds "sep # r"])

lemma match_prefix_name:
  assumes "list_all cp_name nm" "nm \<noteq> []" "r = [] \<or> cp_space (hd r)"
  shows "match_prefix (nm @ r) = None"
proof -
  have "digits_then 64 (nm @ r) = None"
  proof (rule ccontr)
    assume "digits_then 64 (nm @ r) \<noteq> None"
    then have d: "dropWhile cp_digit (nm @ r) \<noteq> []" "hd (dropWhile cp_digit (nm @ r)) = 64"
      by (auto simp: digits_then_def span_def split: if_splits)
    have "hd (dropWhile cp_digit (nm @ r)) \<in> set nm \<or>
        (r \<noteq> [] \<and> hd (dropWhile cp_digit (nm @ r)) = hd r)"
    proof (cases "\<forall>x\<in>set nm. cp_digit x")
      case True
      with assms(3) d(1) have "dropWhile cp_digit (nm @ r) = dropWhile cp_digit r"
        by (simp add: dropWhile_append)
      moreover have "r \<noteq> []" using d(1) calculation by auto
      then have "\<not> cp_digit (hd r)" using assms(3) cp_disjoint by blast
      then have "dropWhile cp_digit r = r" using \<open>r \<noteq> []\<close> by (simp add: dropWhile_eq_self_iff)
      ultimately show ?thesis using \<open>r \<noteq> []\<close> by simp
    next
      case False
      then have "dropWhile cp_digit (nm @ r) = dropWhile cp_digit nm @ r"
        by (auto simp: dropWhile_append)
      moreover have "dropWhile cp_digit nm \<noteq> []" using False by (auto simp: dropWhile_eq_Nil_conv)
      ultimately show ?thesis using set_dropWhileD by (metis hd_append2 hd_in_set)
    qed
    moreover have "\<not> cp_name 64" "\<not> cp_space 64" by (simp_all add: cp_name_def cp_digit_def cp_space_def)
    ultimately show False using assms d by (auto simp: list_all_iff)
  qed
  then show ?thesis by (simp add: match_prefix_def)
qed

lemma match_body_name:
  assumes "list_all cp_name nm" "nm \<noteq> []"
    and "d = [] \<or> (\<not> cp_space (hd d) \<and> 10 \<notin> set d)"
  shows "match_body (nm @ (if d = [] then [] else 32 # d)) =
           Some (nm, if d = [] then None else Some d)"
proof (cases "d = []")
  case True
  with assms span_stop [of cp_name nm "[]"] show ?thesis by (simp add: match_body_def)
next
  case False
  have "\<not> cp_name 32" by (simp add: cp_name_def cp_digit_def)
  then have n: "span cp_name (nm @ 32 # d) = (nm, 32 # d)"
    using assms(1) span_stop [of cp_name nm "32 # d"] by simp
  have "span cp_space ([32] @ d) = ([32], d)"
    using assms(3) False by (intro span_stop) (auto simp: cp_space_def)
  then have w: "span cp_space (32 # d) = ([32], d)" by simp
  show ?thesis using False assms(2,3) by (simp add: match_body_def n w)
qed

text \<open>What the emulator's log backend writes: an optional \<open>pid@sec.usec:\<close> stamp, the event
  name, and a detail after white space.\<close>

definition is_digits :: "string \<Rightarrow> bool" where
  "is_digits s = (s \<noteq> [] \<and> list_all cp_digit (lit s))"

definition render_trace :: "(string \<times> string \<times> string) option \<Rightarrow> string \<Rightarrow> string \<Rightarrow> string" where
  "render_trace stamp name d =
     (case stamp of None \<Rightarrow> [] | Some (pid, s, us) \<Rightarrow> pid @ ''@'' @ s @ ''.'' @ us @ '':'')
     @ name @ (if d = [] then [] else CHR '' '' # d)"

definition plain_detail :: "string \<Rightarrow> bool" where
  "plain_detail d =
     (list_all (\<lambda>c. of_char c < (128::nat)) d \<and> 10 \<notin> set (lit d)
      \<and> (d = [] \<or> (\<not> cp_space (hd (lit d)) \<and> \<not> cp_space (last (lit d)))))"

definition digit_stamp :: "(string \<times> string \<times> string) option \<Rightarrow> bool" where
  "digit_stamp stamp =
     (case stamp of None \<Rightarrow> True | Some (p, s, u) \<Rightarrow> is_digits p \<and> is_digits s \<and> is_digits u)"

lemma decode_ascii_replace_ascii:
  "list_all (\<lambda>c. of_char c < (128::nat)) s \<Longrightarrow> decode_ascii_replace (ascii s) = lit s"
  by (induction s) (auto simp: decode_ascii_replace_def)

lemma digits_then_lit:
  assumes "is_digits p"
  shows "digits_then 64 (lit p @ 64 # r) = Some r"
    and "digits_then 46 (lit p @ 46 # r) = Some r"
    and "digits_then 58 (lit p @ 58 # r) = Some r"
proof -
  have "lit p \<noteq> []" using assms by (cases p) (auto simp: is_digits_def)
  moreover have "\<not> cp_digit 64" "\<not> cp_digit 46" "\<not> cp_digit 58" by (simp_all add: cp_digit_def)
  ultimately show "digits_then 64 (lit p @ 64 # r) = Some r"
    and "digits_then 46 (lit p @ 46 # r) = Some r"
    and "digits_then 58 (lit p @ 58 # r) = Some r"
    using assms by (simp_all add: is_digits_def)
qed

lemma match_trace_line_render:
  assumes "list_all cp_name (lit name)" "name \<noteq> []" "plain_detail d" "digit_stamp stamp"
  shows "match_trace_line (lit (render_trace stamp name d)) =
           Some (lit name, if d = [] then None else Some (lit d))"
proof -
  let ?body = "lit name @ (if lit d = [] then [] else 32 # lit d)"
  have ne: "lit name \<noteq> []" using assms(2) by (cases name) auto
  have d: "lit d = [] \<longleftrightarrow> d = []" by (cases d) auto
  have b: "match_body ?body = Some (lit name, if lit d = [] then None else Some (lit d))"
    using assms(1,3) ne by (intro match_body_name) (auto simp: plain_detail_def)
  show ?thesis
  proof (cases stamp)
    case None
    have "match_prefix ?body = None"
      using assms(1) ne by (intro match_prefix_name) (auto simp: cp_space_def)
    with None b show ?thesis
      by (cases "d = []") (simp_all add: render_trace_def match_trace_line_def d)
  next
    case (Some t)
    obtain p s u where t: "t = (p, s, u)" by (cases t)
    have dg: "is_digits p" "is_digits s" "is_digits u"
      using assms(4) Some t by (simp_all add: digit_stamp_def)
    have "match_prefix (lit p @ 64 # lit s @ 46 # lit u @ 58 # ?body) = Some ?body"
      using dg by (simp add: match_prefix_def digits_then_lit)
    with Some t b show ?thesis
      by (cases "d = []") (simp_all add: render_trace_def match_trace_line_def d)
  qed
qed

lemma trace_names_plain:
  assumes "map_of TRACE_EVENT_TYPES n = Some ty"
  shows "n \<noteq> []" and "list_all cp_name (lit n)"
    and "list_all (\<lambda>c. of_char c < (128::nat)) n" and "length n \<le> 25"
proof -
  have "\<forall>(m, ty) \<in> set TRACE_EVENT_TYPES. m \<noteq> [] \<and> list_all cp_name (lit m)
      \<and> list_all (\<lambda>c. of_char c < (128::nat)) m \<and> length m \<le> 25"
    by (simp add: TRACE_EVENT_TYPES_def cp_name_def cp_digit_def)
  with map_of_SomeD [OF assms] show "n \<noteq> []" and "list_all cp_name (lit n)"
    and "list_all (\<lambda>c. of_char c < (128::nat)) n" and "length n \<le> 25" by auto
qed

lemma digits_plain: "is_digits s \<Longrightarrow> list_all (\<lambda>c. of_char c < (128::nat)) s"
  by (auto simp: is_digits_def lit_def list_all_iff cp_digit_def)

lemma strip_line:
  assumes "t \<noteq> []" "\<not> cp_space (hd t)" "\<not> cp_space (last t)"
  shows "strip_by cp_space (t @ [10]) = t"
  using assms by (cases t) (auto simp: strip_by_def cp_space_def [of 10] dropWhile_eq_self_iff
      hd_rev dropWhile_append split: if_splits)

lemma lit_ends:
  assumes "list_all cp_name (lit s)" "s \<noteq> []"
  shows "cp_name (hd (lit s @ r))" and "\<not> cp_space (last (lit s))"
proof -
  have "lit s \<noteq> []" using assms(2) by (cases s) auto
  with assms(1) have "cp_name (hd (lit s))" "cp_name (last (lit s))"
    by (simp_all add: list_all_iff)
  with \<open>lit s \<noteq> []\<close> show "cp_name (hd (lit s @ r))" and "\<not> cp_space (last (lit s))"
    by (auto dest: cp_disjoint)
qed

lemma render_ends:
  assumes "name \<noteq> []" "list_all cp_name (lit name)" "digit_stamp stamp" "plain_detail d"
  shows "lit (render_trace stamp name d) \<noteq> []
    \<and> \<not> cp_space (hd (lit (render_trace stamp name d)))
    \<and> \<not> cp_space (last (lit (render_trace stamp name d)))"
proof -
  let ?r = "render_trace stamp name d"
  have ne: "lit name \<noteq> []" using assms(1) by (cases name) auto
  have "\<not> cp_space (last (lit ?r))"
  proof (cases "d = []")
    case True
    then show ?thesis using lit_ends(2) [OF assms(2,1)] ne
      by (auto simp: render_trace_def split: option.splits)
  next
    case False
    then have "lit d \<noteq> []" by (cases d) auto
    then show ?thesis using False assms(4)
      by (auto simp: render_trace_def plain_detail_def split: option.splits)
  qed
  moreover have "cp_name (hd (lit ?r))"
  proof (cases stamp)
    case None
    then show ?thesis using lit_ends(1) [OF assms(2,1)] by (simp add: render_trace_def)
  next
    case (Some t)
    obtain p q u where t: "t = (p, q, u)" by (cases t)
    with assms(3) Some have "p \<noteq> []" "list_all cp_name (lit p)"
      by (auto simp: digit_stamp_def is_digits_def list_all_iff dest: cp_disjoint)
    from lit_ends(1) [OF this(2,1)] t Some show ?thesis by (simp add: render_trace_def)
  qed
  moreover have "lit ?r \<noteq> []" using ne by (auto simp: render_trace_def)
  ultimately show ?thesis using cp_disjoint by blast
qed

text \<open>
  Reading back what the emulator's log backend writes: a line with an optional numeric
  stamp, a traced event's name and an ASCII detail without newline and without white space at
  its ends parses to the event's type, its name and the first 512 characters of the detail.
\<close>

theorem trace_line_roundtrip:
  assumes "map_of TRACE_EVENT_TYPES name = Some ty" "digit_stamp stamp" "plain_detail d"
    and "length (render_trace stamp name d) < 2048"
  shows "parse_worker_trace_line (ascii (render_trace stamp name d @ ''\<newline>'')) =
           Some (ty, \<lparr>trace_event = name, detail = take 512 (lit d)\<rparr>)"
proof -
  note nm = trace_names_plain [OF assms(1)]
  let ?r = "render_trace stamp name d"
  have plain: "list_all (\<lambda>c. of_char c < (128::nat)) (?r @ ''\<newline>'')"
    using nm assms(2,3)
    by (auto simp: render_trace_def plain_detail_def digit_stamp_def digits_plain split: option.splits)
  have ends: "lit ?r \<noteq> []" "\<not> cp_space (hd (lit ?r))" "\<not> cp_space (last (lit ?r))"
    using render_ends [OF nm(1,2) assms(2,3)] by auto
  have m: "match_trace_line (lit ?r) = Some (lit name, if d = [] then None else Some (lit d))"
    using nm assms by (intro match_trace_line_render) auto
  have "strip_by cp_space (decode_ascii_replace (ascii (?r @ ''\<newline>''))) = lit ?r"
    using decode_ascii_replace_ascii [OF plain] strip_line [OF ends] by simp
  moreover have "map char_of (lit name) = name" by (simp add: lit_def)
  ultimately show ?thesis
    using m assms(1,4) by (simp add: parse_worker_trace_line_def MAX_TRACE_LINE_BYTES_def
        MAX_TRACE_DETAIL_CHARACTERS_def Let_def)
qed

theorem trace_line_roundtrip_witness:
  "parse_worker_trace_line (ascii (render_trace (Some (''7'', ''12'', ''5'')) ''i2c_send'' ''addr 52'' @ ''\<newline>'')) =
     Some (''peripheral.i2c.send'', \<lparr>trace_event = ''i2c_send'', detail = take 512 (lit ''addr 52'')\<rparr>)"
  by (rule trace_line_roundtrip)
     (simp_all add: TRACE_EVENT_TYPES_def digit_stamp_def is_digits_def plain_detail_def cp_digit_def
        cp_space_def render_trace_def)

end
