(* ===== verification/File_System.thy ===== *)
theory File_System
  imports Py_Values
begin

section \<open>Paths and the file system\<close>

text \<open>
  The part of \<open>pathlib\<close>, \<open>os\<close> and \<open>stat\<close> the program uses.  A path is absolute or relative, with
  its components; the file system maps absolute component lists to nodes with owner, group and
  permission bits.  \<open>lstat\<close> never follows a link, \<open>stat\<close> and \<open>resolve\<close> do (one final link, which is
  all the policy code distinguishes).
\<close>

datatype path = Abs "string list" | Rel "string list"

fun parts :: "path \<Rightarrow> string list" where
  "parts (Abs cs) = cs"
| "parts (Rel cs) = cs"

fun is_absolute :: "path \<Rightarrow> bool" where
  "is_absolute (Abs cs) = True"
| "is_absolute (Rel cs) = False"

fun str_path :: "path \<Rightarrow> string" where
  "str_path (Abs cs) = (if cs = [] then ''/'' else concat (map (\<lambda>c. CHR ''/'' # c) cs))"
| "str_path (Rel cs) = (if cs = [] then ''.'' else join ''/'' cs)"

fun child :: "path \<Rightarrow> string \<Rightarrow> path" where
  "child (Abs cs) c = Abs (cs @ [c])"
| "child (Rel cs) c = Rel (cs @ [c])"

fun parent :: "path \<Rightarrow> path" where
  "parent (Abs cs) = Abs (butlast cs)"
| "parent (Rel cs) = Rel (butlast cs)"

lemma parent_child [simp]: "parent (child p c) = p"
  by (cases p) auto

lemma child_inj [simp]: "child p c = child p d \<longleftrightarrow> c = d"
  by (cases p) auto

fun absolute :: "string list \<Rightarrow> path \<Rightarrow> path" where
  "absolute cwd (Abs cs) = Abs cs"
| "absolute cwd (Rel cs) = Abs (cwd @ cs)"

fun list_prefix :: "'a list \<Rightarrow> 'a list \<Rightarrow> bool" where
  "list_prefix [] ys = True"
| "list_prefix (x # xs) [] = False"
| "list_prefix (x # xs) (y # ys) = (x = y \<and> list_prefix xs ys)"

lemma list_prefix_iff: "list_prefix xs ys \<longleftrightarrow> (\<exists>zs. ys = xs @ zs)"
  by (induction xs ys rule: list_prefix.induct) auto

fun is_relative_to :: "path \<Rightarrow> path \<Rightarrow> bool" where
  "is_relative_to (Abs cs) (Abs ds) = list_prefix ds cs"
| "is_relative_to (Rel cs) (Rel ds) = list_prefix ds cs"
| "is_relative_to _ _ = False"

lemma is_relative_to_refl [simp]: "is_relative_to p p"
  by (cases p) (auto simp: list_prefix_iff)

lemma is_relative_to_trans:
  "is_relative_to p q \<Longrightarrow> is_relative_to q r \<Longrightarrow> is_relative_to p r"
  by (cases p; cases q; cases r) (auto simp: list_prefix_iff)

lemma is_relative_to_child [simp]: "is_relative_to (child p c) p"
  by (cases p) (auto simp: list_prefix_iff)

subsection \<open>Nodes\<close>

text \<open>A permission literal by its octal digits: \<open>octal [6, 6, 0]\<close> is \<open>0o660\<close>.\<close>

definition octal :: "nat list \<Rightarrow> nat" where
  "octal ds = foldl (\<lambda>a d. 8 * a + d) 0 ds"

lemma octal_simps [simp]:
  "octal [a, b, c] = 64 * a + 8 * b + c"
  "octal [a, b, c, d] = 512 * a + 64 * b + 8 * c + d"
  by (simp_all add: octal_def)

datatype file_kind = Regular bytes | Directory | Symlink path | Socket

record node =
  kind :: file_kind
  mode :: nat \<comment> \<open>the permission bits, \<open>S_IMODE\<close>\<close>
  uid :: int
  gid :: int

type_synonym filesys = "path \<Rightarrow> node option"

fun is_dir :: "file_kind \<Rightarrow> bool" where
  "is_dir Directory = True" | "is_dir _ = False"

fun is_reg :: "file_kind \<Rightarrow> bool" where
  "is_reg (Regular bs) = True" | "is_reg _ = False"

fun is_lnk :: "file_kind \<Rightarrow> bool" where
  "is_lnk (Symlink p) = True" | "is_lnk _ = False"

fun is_sock :: "file_kind \<Rightarrow> bool" where
  "is_sock Socket = True" | "is_sock _ = False"

fun file_size :: "file_kind \<Rightarrow> nat" where
  "file_size (Regular bs) = length bs" | "file_size _ = 0"

definition lstat :: "filesys \<Rightarrow> path \<Rightarrow> exn + node" where
  "lstat fs p = (case fs p of None \<Rightarrow> Inl (FileNotFoundError (str_path p)) | Some n \<Rightarrow> Inr n)"

definition follow :: "filesys \<Rightarrow> path \<Rightarrow> path" where
  "follow fs p = (case fs p of
       Some n \<Rightarrow> (case kind n of Symlink q \<Rightarrow> q | _ \<Rightarrow> p)
     | None \<Rightarrow> p)"

definition stat_path :: "filesys \<Rightarrow> path \<Rightarrow> exn + node" where
  "stat_path fs p = lstat fs (follow fs p)"

definition exists_path :: "filesys \<Rightarrow> path \<Rightarrow> bool" where
  "exists_path fs p = (fs (follow fs p) \<noteq> None)"

definition is_file :: "filesys \<Rightarrow> path \<Rightarrow> bool" where
  "is_file fs p = (case fs (follow fs p) of None \<Rightarrow> False | Some n \<Rightarrow> is_reg (kind n))"

definition is_directory :: "filesys \<Rightarrow> path \<Rightarrow> bool" where
  "is_directory fs p = (case fs (follow fs p) of None \<Rightarrow> False | Some n \<Rightarrow> is_dir (kind n))"

text \<open>
  \<open>os.access(path, os.X_OK)\<close> for a process that owns nothing special: one of the execute bits.
\<close>

definition access_x :: "filesys \<Rightarrow> path \<Rightarrow> bool" where
  "access_x fs p = (case fs (follow fs p) of None \<Rightarrow> False | Some n \<Rightarrow> mode n AND octal [1, 1, 1] \<noteq> 0)"

text \<open>
  Removal can fail.  \<open>rmtree(ignore_errors=True)\<close> removes what it can of a directory: \<open>stays\<close> are the
  paths the operating system does not remove, for whatever reason, and the directories above them.
\<close>

definition rmtree :: "(path \<Rightarrow> bool) \<Rightarrow> path \<Rightarrow> filesys \<Rightarrow> filesys" where
  "rmtree stays d fs = (\<lambda>p. if is_relative_to p d \<and> \<not> stays p then None else fs p)"

text \<open>\<open>Path.unlink(missing_ok=True)\<close>: a directory is refused, and so is a path that cannot be removed.\<close>

definition unlink_refused :: "(path \<Rightarrow> bool) \<Rightarrow> path \<Rightarrow> filesys \<Rightarrow> bool" where
  "unlink_refused stays p fs = (case fs p of None \<Rightarrow> False | Some n \<Rightarrow> is_dir (kind n) \<or> stays p)"

definition unlink_missing_ok :: "(path \<Rightarrow> bool) \<Rightarrow> path \<Rightarrow> filesys \<Rightarrow> exn + filesys" where
  "unlink_missing_ok stays p fs = (if unlink_refused stays p fs then Inl (OSError (str_path p)) else Inr (fs(p := None)))"

text \<open>\<open>Path.unlink\<close> of a node the caller has just looked at and may remove.\<close>

definition unlink :: "path \<Rightarrow> filesys \<Rightarrow> filesys" where
  "unlink p fs = fs(p := None)"

definition chmod :: "path \<Rightarrow> nat \<Rightarrow> filesys \<Rightarrow> filesys" where
  "chmod p m fs = (case fs p of None \<Rightarrow> fs | Some n \<Rightarrow> fs(p \<mapsto> n\<lparr>mode := m\<rparr>))"

definition chgrp :: "path \<Rightarrow> int \<Rightarrow> filesys \<Rightarrow> filesys" where
  "chgrp p g fs = (case fs p of None \<Rightarrow> fs | Some n \<Rightarrow> fs(p \<mapsto> n\<lparr>gid := g\<rparr>))"

text \<open>
  \<open>write_bytes\<close> truncates an existing file, keeping its attributes, or creates one with the
  process's identity and umask.
\<close>

record identity =
  my_uid :: int
  my_gid :: int
  umask :: nat

definition write_bytes :: "identity \<Rightarrow> path \<Rightarrow> bytes \<Rightarrow> filesys \<Rightarrow> filesys" where
  "write_bytes me p bs fs = (case fs p of
       Some n \<Rightarrow> fs(p \<mapsto> n\<lparr>kind := Regular bs\<rparr>)
     | None \<Rightarrow> fs(p \<mapsto> \<lparr>kind = Regular bs, mode = octal [6, 6, 6] - (octal [6, 6, 6] AND umask me), uid = my_uid me, gid = my_gid me\<rparr>))"

text \<open>The directory of a new session, one level below an existing runtime root.\<close>

definition make_dir :: "identity \<Rightarrow> nat \<Rightarrow> path \<Rightarrow> filesys \<Rightarrow> filesys" where
  "make_dir me m p fs = fs(p \<mapsto> \<lparr>kind = Directory, mode = m, uid = my_uid me, gid = my_gid me\<rparr>)"

lemma rmtree_below [simp]: "is_relative_to p d \<Longrightarrow> rmtree stays d fs p = (if stays p then fs p else None)"
  by (simp add: rmtree_def)

lemma rmtree_other [simp]: "\<not> is_relative_to p d \<Longrightarrow> rmtree stays d fs p = fs p"
  by (simp add: rmtree_def)

end
