(* ===== verification/Qemu.thy ===== *)
theory Qemu
  imports Boards Tracing File_System
begin

section \<open>Worker configuration and command lines (qemu.py)\<close>

datatype worker_sandbox_mode = DIRECT | BUBBLEWRAP | OCI_BROKER

fun sandbox_mode_value :: "worker_sandbox_mode \<Rightarrow> string" where
  "sandbox_mode_value DIRECT = ''direct''"
| "sandbox_mode_value BUBBLEWRAP = ''bubblewrap''"
| "sandbox_mode_value OCI_BROKER = ''oci-broker''"

definition DEFAULT_SANDBOX_READONLY_PATHS :: "path list" where
  "DEFAULT_SANDBOX_READONLY_PATHS = [Abs [''usr''], Abs [''lib''], Abs [''lib64'']]"

record qemu_worker_config =
  executable :: path
  rom_directory :: path
  sandbox_mode :: worker_sandbox_mode
  sandbox_executable :: path
  sandbox_readonly_paths :: "path list"
  broker_socket_path :: path

definition validate_worker_config :: "filesys \<Rightarrow> qemu_worker_config \<Rightarrow> exn + unit" where
  "validate_worker_config fs cfg =
     (if sandbox_mode cfg = OCI_BROKER then
        (case stat_path fs (broker_socket_path cfg) of
           Inl e \<Rightarrow> Inl (FileNotFoundError (''Worker broker socket not found: '' @ str_path (broker_socket_path cfg)))
         | Inr n \<Rightarrow>
             if \<not> is_sock (kind n)
             then Inl (FileNotFoundError (''Worker broker path is not a Unix socket: '' @ str_path (broker_socket_path cfg)))
             else Inr ())
      else if \<not> is_file fs (executable cfg) \<or> \<not> access_x fs (executable cfg) then
        Inl (FileNotFoundError (''QEMU executable not found: '' @ str_path (executable cfg)))
      else if \<not> is_directory fs (rom_directory cfg) then
        Inl (FileNotFoundError (''QEMU ROM directory not found: '' @ str_path (rom_directory cfg)))
      else if sandbox_mode cfg = BUBBLEWRAP then
        (if \<not> is_file fs (sandbox_executable cfg) \<or> \<not> access_x fs (sandbox_executable cfg) then
           Inl (FileNotFoundError (''Bubblewrap executable not found: '' @ str_path (sandbox_executable cfg)))
         else let missing = filter (\<lambda>p. \<not> exists_path fs p) (sandbox_readonly_paths cfg) in
           if missing \<noteq> [] then
             Inl (FileNotFoundError (''Bubblewrap read-only path not found: '' @ join '', '' (map str_path missing)))
           else Inr ())
      else Inr ())"

definition build_qemu_process_command ::
    "qemu_worker_config \<Rightarrow> board_profile \<Rightarrow> path \<Rightarrow> path option \<Rightarrow> path option \<Rightarrow> bool \<Rightarrow> bool \<Rightarrow> string list" where
  "build_qemu_process_command cfg board flash_path qmp gdb trace_enabled seccomp =
     [str_path (executable cfg), ''-L'', str_path (rom_directory cfg),
      ''-M'', ''esp32s3,board-profile='' @ board_id board, ''-no-user-config'', ''-nographic'',
      ''-nic'', ''none'', ''-monitor'', ''none'', ''-serial'', ''stdio'']
     @ (if seccomp then [''-sandbox'',
          ''on,obsolete=deny,elevateprivileges=deny,spawn=deny,resourcecontrol=deny''] else [])
     @ (case qmp of None \<Rightarrow> []
        | Some p \<Rightarrow> [''-qmp'', ''unix:'' @ str_path p @ '',server=on,wait=off''])
     @ (case gdb of None \<Rightarrow> []
        | Some p \<Rightarrow> [''-chardev'', ''socket,path='' @ str_path p @ '',server=on,wait=off,id=gdb0'',
            ''-gdb'', ''chardev:gdb0''])
     @ (if trace_enabled then concat (map (\<lambda>n. [''-trace'', ''enable='' @ n]) TRACE_EVENT_NAMES) else [])
     @ (if psram_size_mib board \<noteq> 0 then [''-m'', str_nat (psram_size_mib board) @ ''M''] else [])
     @ [''-drive'', ''file='' @ str_path flash_path @ '',if=mtd,format=raw'']"

definition session_directory_of :: "path \<Rightarrow> path option \<Rightarrow> path option \<Rightarrow> exn + path" where
  "session_directory_of flash_path qmp gdb =
     (let directory = parent flash_path;
          private_paths = (case qmp of None \<Rightarrow> [] | Some p \<Rightarrow> [p]) @ (case gdb of None \<Rightarrow> [] | Some p \<Rightarrow> [p]) in
      if list_ex (\<lambda>p. parent p \<noteq> directory) private_paths
      then Inl (ValueError ''worker flash and control sockets must share one session directory'')
      else Inr directory)"

text \<open>
  The read-only mounts: a path below one already mounted is skipped.  \<open>cwd\<close> is the directory
  \<open>Path.absolute\<close> resolves relative paths against.
\<close>

fun ro_mounts :: "string list \<Rightarrow> path list \<Rightarrow> path list \<Rightarrow> path list" where
  "ro_mounts cwd mounted [] = []"
| "ro_mounts cwd mounted (p # ps) =
     (let destination = absolute cwd p in
      if list_ex (is_relative_to destination) mounted then ro_mounts cwd mounted ps
      else destination # ro_mounts cwd (mounted @ [destination]) ps)"

definition readonly_requests :: "qemu_worker_config \<Rightarrow> path list" where
  "readonly_requests cfg = sandbox_readonly_paths cfg @ [parent (executable cfg), rom_directory cfg]"

definition wrap_worker_command :: "string list \<Rightarrow> qemu_worker_config \<Rightarrow> string list \<Rightarrow> path \<Rightarrow> string list" where
  "wrap_worker_command cwd cfg worker_command session_directory =
     [str_path (sandbox_executable cfg), ''--die-with-parent'', ''--new-session'', ''--unshare-all'',
      ''--unshare-user'', ''--disable-userns'', ''--hostname'', ''esp32-s3-worker'', ''--cap-drop'', ''ALL'',
      ''--clearenv'', ''--setenv'', ''LANG'', ''C.UTF-8'', ''--setenv'', ''PATH'', ''/usr/bin:/bin'',
      ''--proc'', ''/proc'', ''--dev'', ''/dev'', ''--size'', str_nat (16 * 1024 * 1024), ''--tmpfs'', ''/tmp'']
     @ concat (map (\<lambda>d. [''--ro-bind'', str_path d, str_path d]) (ro_mounts cwd [] (readonly_requests cfg)))
     @ [''--bind'', str_path session_directory, str_path session_directory,
        ''--chdir'', str_path session_directory, ''--''] @ worker_command"

definition build_qemu_command ::
    "string list \<Rightarrow> qemu_worker_config \<Rightarrow> board_profile \<Rightarrow> path \<Rightarrow> path option \<Rightarrow> path option \<Rightarrow> bool \<Rightarrow>
     exn + string list" where
  "build_qemu_command cwd cfg board flash_path qmp gdb trace_enabled =
     (if sandbox_mode cfg = OCI_BROKER then
        Inl (ValueError ''OCI broker workers are launched through the broker protocol'')
      else let qemu_command = build_qemu_process_command cfg board flash_path qmp gdb trace_enabled False in
        if sandbox_mode cfg = DIRECT then Inr qemu_command
        else sum_bind (session_directory_of flash_path qmp gdb)
          (\<lambda>d. Inr (wrap_worker_command cwd cfg qemu_command d)))"

subsection \<open>What the sandbox can reach\<close>

lemma ro_mounts_covers:
  "p \<in> set ps \<Longrightarrow>
     \<exists>m \<in> set mounted \<union> set (ro_mounts cwd mounted ps). is_relative_to (absolute cwd p) m"
proof (induction cwd mounted ps rule: ro_mounts.induct)
  case (1 cwd mounted)
  then show ?case by simp
next
  case (2 cwd mounted q ps)
  then show ?case
    by (auto simp: Let_def list_ex_iff)
qed

lemma ro_mounts_requested: "m \<in> set (ro_mounts cwd mounted ps) \<Longrightarrow> \<exists>p\<in>set ps. m = absolute cwd p"
  by (induction cwd mounted ps rule: ro_mounts.induct) (auto simp: Let_def split: if_splits)

lemma ro_mounts_free:
  "m \<in> set (ro_mounts cwd mounted ps) \<Longrightarrow> \<not> list_ex (is_relative_to m) mounted"
  by (induction cwd mounted ps rule: ro_mounts.induct) (auto simp: Let_def split: if_splits)

lemma ro_mounts_minimal:
  "i < j \<Longrightarrow> j < length (ro_mounts cwd mounted ps) \<Longrightarrow>
     \<not> is_relative_to (ro_mounts cwd mounted ps ! j) (ro_mounts cwd mounted ps ! i)"
proof (induction cwd mounted ps arbitrary: i j rule: ro_mounts.induct)
  case (1 cwd mounted)
  then show ?case by simp
next
  case (2 cwd mounted p ps)
  show ?case
  proof (cases "list_ex (is_relative_to (absolute cwd p)) mounted")
    case True
    with 2 show ?thesis by (simp add: Let_def)
  next
    case False
    let ?r = "ro_mounts cwd (mounted @ [absolute cwd p]) ps"
    obtain k where j: "j = Suc k" using "2.prems"(1) by (cases j) auto
    have k: "k < length ?r" using "2.prems"(2) j False by (simp add: Let_def)
    show ?thesis
    proof (cases i)
      case 0
      have "?r ! k \<in> set ?r" using k by simp
      from ro_mounts_free [OF this] show ?thesis using False j 0 by (simp add: Let_def)
    next
      case (Suc h)
      then show ?thesis using "2.IH"(2) [OF refl False, of h k] "2.prems"(1) k j False by (simp add: Let_def)
    qed
  qed
qed

text \<open>
  The sandbox of a Bubblewrap worker mounts read-only exactly what is asked for: every
  configured path, the executable's directory and the ROM directory lie under a mount, every
  mount is one of them made absolute, and no mount repeats or lies below an earlier one; the
  session directory, the parent of the flash image, is the only writable bind, and the command
  after the separator is QEMU's.
\<close>

theorem sandbox_mounts:
  assumes "sandbox_mode cfg = BUBBLEWRAP"
    and "build_qemu_command cwd cfg board flash qmp gdb tr = Inr argv"
  shows "\<exists>opts mounts. argv = opts
           @ concat (map (\<lambda>d. [''--ro-bind'', str_path d, str_path d]) mounts)
           @ [''--bind'', str_path (parent flash), str_path (parent flash),
              ''--chdir'', str_path (parent flash), ''--'']
           @ build_qemu_process_command cfg board flash qmp gdb tr False
         \<and> ''--bind'' \<notin> set (tl opts) \<and> ''--ro-bind'' \<notin> set (tl opts) \<and> ''--unshare-all'' \<in> set opts
         \<and> (\<forall>p\<in>set (readonly_requests cfg). \<exists>m\<in>set mounts. is_relative_to (absolute cwd p) m)
         \<and> set mounts \<subseteq> absolute cwd ` set (readonly_requests cfg)
         \<and> (\<forall>i j. i < j \<and> j < length mounts \<longrightarrow> \<not> is_relative_to (mounts ! j) (mounts ! i))"
proof -
  let ?m = "ro_mounts cwd [] (readonly_requests cfg)"
  have dir: "session_directory_of flash qmp gdb = Inr (parent flash)"
    using assms by (auto simp: build_qemu_command_def session_directory_of_def Let_def split: if_splits)
  have argv: "argv = wrap_worker_command cwd cfg (build_qemu_process_command cfg board flash qmp gdb tr False) (parent flash)"
    using assms dir by (auto simp: build_qemu_command_def Let_def)
  have "map digit_char [1, 6, 7, 7, 7, 2, 1, 6] = ''16777216''" by code_simp
  moreover have "str_nat (16 * 1024 * 1024) = map digit_char [1, 6, 7, 7, 7, 2, 1, 6]"
    by (simp add: str_nat_def base_digits.simps)
  ultimately have digits: "str_nat (16 * 1024 * 1024) = ''16777216''" by simp
  have "\<forall>p\<in>set (readonly_requests cfg). \<exists>m\<in>set ?m. is_relative_to (absolute cwd p) m"
    using ro_mounts_covers [of _ "readonly_requests cfg" "[]" cwd] by auto
  moreover have "set ?m \<subseteq> absolute cwd ` set (readonly_requests cfg)"
    using ro_mounts_requested by blast
  moreover have "\<forall>i j. i < j \<and> j < length ?m \<longrightarrow> \<not> is_relative_to (?m ! j) (?m ! i)"
    using ro_mounts_minimal by blast
  ultimately show ?thesis
    unfolding argv wrap_worker_command_def digits
    by (intro exI [of _ "[str_path (sandbox_executable cfg), ''--die-with-parent'', ''--new-session'', ''--unshare-all'',
      ''--unshare-user'', ''--disable-userns'', ''--hostname'', ''esp32-s3-worker'', ''--cap-drop'', ''ALL'',
      ''--clearenv'', ''--setenv'', ''LANG'', ''C.UTF-8'', ''--setenv'', ''PATH'', ''/usr/bin:/bin'',
      ''--proc'', ''/proc'', ''--dev'', ''/dev'', ''--size'', ''16777216'', ''--tmpfs'', ''/tmp'']"] exI [of _ ?m]) simp
qed

definition sample_config :: qemu_worker_config where
  "sample_config = \<lparr>executable = Abs [''opt'', ''qemu''], rom_directory = Abs [''opt'', ''rom''],
     sandbox_mode = BUBBLEWRAP, sandbox_executable = Abs [''usr'', ''bin'', ''bwrap''],
     sandbox_readonly_paths = DEFAULT_SANDBOX_READONLY_PATHS, broker_socket_path = Abs [''run'', ''b.sock'']\<rparr>"

theorem sandbox_mounts_witness:
  "\<exists>argv opts mounts. build_qemu_command [] sample_config STICKS3 (Abs [''r'', ''s'', ''flash.bin'']) None None True = Inr argv
     \<and> argv = opts @ concat (map (\<lambda>d. [''--ro-bind'', str_path d, str_path d]) mounts)
           @ [''--bind'', ''/r/s'', ''/r/s'', ''--chdir'', ''/r/s'', ''--'']
           @ build_qemu_process_command sample_config STICKS3 (Abs [''r'', ''s'', ''flash.bin'']) None None True False"
proof -
  let ?f = "Abs [''r'', ''s'', ''flash.bin'']"
  have ok: "build_qemu_command [] sample_config STICKS3 ?f None None True
     = Inr (wrap_worker_command [] sample_config (build_qemu_process_command sample_config STICKS3 ?f None None True False) (parent ?f))"
    by (simp add: build_qemu_command_def session_directory_of_def sample_config_def)
  have m: "sandbox_mode sample_config = BUBBLEWRAP" by (simp add: sample_config_def)
  have d: "str_path (parent ?f) = ''/r/s''" by simp
  from sandbox_mounts [OF m ok] show ?thesis unfolding d ok by blast
qed

text \<open>
  No worker has a network device and none gets a control socket outside its session's
  directory: in the OCI mode no local command exists at all, in the Bubblewrap mode sockets
  beside another directory are refused, and otherwise the command disables the NIC and opens
  exactly the sockets it was given.
\<close>

theorem worker_command_confined:
  "(case build_qemu_command cwd cfg board flash qmp gdb tr of
      Inr argv \<Rightarrow> sandbox_mode cfg \<noteq> OCI_BROKER
        \<and> (\<exists>pre post. argv = pre @ [''-nic'', ''none''] @ post)
        \<and> (sandbox_mode cfg = DIRECT
             \<or> {p. qmp = Some p \<or> gdb = Some p} \<subseteq> {p. parent p = parent flash})
        \<and> (\<exists>pre. argv = pre @ [''-drive'', ''file='' @ str_path flash @ '',if=mtd,format=raw''])
    | Inl e \<Rightarrow> (\<exists>m. e = ValueError m)
        \<and> (sandbox_mode cfg = OCI_BROKER
           \<or> (\<exists>p. (qmp = Some p \<or> gdb = Some p) \<and> parent p \<noteq> parent flash)))"
proof -
  have nic: "\<exists>pre post. build_qemu_process_command cfg board flash qmp gdb tr False = pre @ [''-nic'', ''none''] @ post"
    unfolding build_qemu_process_command_def
    by (rule exI [of _ "[str_path (executable cfg), ''-L'', str_path (rom_directory cfg),
      ''-M'', ''esp32s3,board-profile='' @ board_id board, ''-no-user-config'', ''-nographic'']"]) simp
  have drive: "\<exists>pre. build_qemu_process_command cfg board flash qmp gdb tr False
      = pre @ [''-drive'', ''file='' @ str_path flash @ '',if=mtd,format=raw'']"
    unfolding build_qemu_process_command_def append_assoc [symmetric] by (rule exI, rule refl)
  have wrap: "\<exists>pre. wrap_worker_command cwd cfg c d = pre @ c" for c d
    unfolding wrap_worker_command_def append_assoc [symmetric] by (rule exI, rule refl)
  have sub: "session_directory_of flash qmp gdb =
      (if {p. qmp = Some p \<or> gdb = Some p} \<subseteq> {p. parent p = parent flash} then Inr (parent flash)
       else Inl (ValueError ''worker flash and control sockets must share one session directory''))"
    by (auto simp: session_directory_of_def Let_def split: option.splits)
  show ?thesis
  proof (cases "sandbox_mode cfg")
    case DIRECT
    then show ?thesis using nic drive by (simp add: build_qemu_command_def Let_def)
  next
    case OCI_BROKER
    then show ?thesis by (simp add: build_qemu_command_def)
  next
    case BUBBLEWRAP
    obtain pre where w: "wrap_worker_command cwd cfg (build_qemu_process_command cfg board flash qmp gdb tr False) (parent flash)
        = pre @ build_qemu_process_command cfg board flash qmp gdb tr False"
      using wrap by blast
    from nic drive obtain a b c where
      "build_qemu_process_command cfg board flash qmp gdb tr False = a @ [''-nic'', ''none''] @ b"
      and d: "build_qemu_process_command cfg board flash qmp gdb tr False = c @ [''-drive'', ''file='' @ str_path flash @ '',if=mtd,format=raw'']"
      by blast
    then have "\<exists>x y. pre @ build_qemu_process_command cfg board flash qmp gdb tr False = x @ [''-nic'', ''none''] @ y"
      by (metis append_assoc)
    moreover have "\<exists>x. pre @ build_qemu_process_command cfg board flash qmp gdb tr False
        = x @ [''-drive'', ''file='' @ str_path flash @ '',if=mtd,format=raw'']"
      using d by (metis append_assoc)
    ultimately show ?thesis using BUBBLEWRAP by (auto simp: build_qemu_command_def Let_def sub w)
  qed
qed

end
