(* ===== verification/Settings.thy ===== *)
theory Settings
  imports Qemu
begin

section \<open>Service settings (settings.py)\<close>

text \<open>
  The frozen settings record with its defaults.  The startup timeout, a float of seconds in the
  source, is kept as integer nanoseconds.
\<close>

record settings =
  runtime_root :: path
  qemu_executable :: path
  settings_rom_directory :: path
  native_workers_enabled :: bool
  worker_qmp_enabled :: bool
  worker_debug_enabled :: bool
  worker_sandbox_mode :: worker_sandbox_mode
  worker_sandbox_executable :: path
  worker_sandbox_readonly_paths :: "path list"
  worker_broker_socket :: path
  worker_shared_group_gid :: "int option"
  max_concurrent_sessions :: int
  session_ttl_seconds :: int
  worker_memory_limit_mib :: int
  worker_cpu_limit_seconds :: int
  worker_startup_timeout_ns :: int
  framebuffer_interval_ms :: int
  max_recording_events :: int
  max_event_page_size :: int
  max_replay_duration_seconds :: int
  worker_trace_enabled :: bool
  max_trace_events_per_generation :: int

definition default_settings :: "path \<Rightarrow> path \<Rightarrow> path \<Rightarrow> settings" where
  "default_settings root qemu rom =
     \<lparr>runtime_root = root, qemu_executable = qemu, settings_rom_directory = rom,
      native_workers_enabled = False, worker_qmp_enabled = True, worker_debug_enabled = True,
      worker_sandbox_mode = DIRECT, worker_sandbox_executable = Abs [''usr'', ''bin'', ''bwrap''],
      worker_sandbox_readonly_paths = DEFAULT_SANDBOX_READONLY_PATHS,
      worker_broker_socket = Abs [''run'', ''esp32-simulator'', ''worker-broker.sock''],
      worker_shared_group_gid = None, max_concurrent_sessions = 2, session_ttl_seconds = 120,
      worker_memory_limit_mib = 1536, worker_cpu_limit_seconds = 90,
      worker_startup_timeout_ns = 10000000000, framebuffer_interval_ms = 100,
      max_recording_events = 4096, max_event_page_size = 500, max_replay_duration_seconds = 120,
      worker_trace_enabled = True, max_trace_events_per_generation = 2048\<rparr>"

end
