(* ===== verification/Py_Hashlib.thy ===== *)
theory Py_Hashlib
  imports Py_Values
begin

section \<open>SHA-256\<close>

text \<open>
  \<open>hashlib.sha256(payload).hexdigest()\<close>, the one hash the program takes (of the uploaded
  firmware, of the padded flash image and of serial payloads).
\<close>

type_synonym w32 = "32 word"

definition sha_k :: "w32 list" where
  "sha_k = [
    1116352408, 1899447441, 3049323471, 3921009573, 961987163, 1508970993, 2453635748, 2870763221,
    3624381080, 310598401, 607225278, 1426881987, 1925078388, 2162078206, 2614888103, 3248222580,
    3835390401, 4022224774, 264347078, 604807628, 770255983, 1249150122, 1555081692, 1996064986,
    2554220882, 2821834349, 2952996808, 3210313671, 3336571891, 3584528711, 113926993, 338241895,
    666307205, 773529912, 1294757372, 1396182291, 1695183700, 1986661051, 2177026350, 2456956037,
    2730485921, 2820302411, 3259730800, 3345764771, 3516065817, 3600352804, 4094571909, 275423344,
    430227734, 506948616, 659060556, 883997877, 958139571, 1322822218, 1537002063, 1747873779,
    1955562222, 2024104815, 2227730452, 2361852424, 2428436474, 2756734187, 3204031479, 3329325298]"

type_synonym sha_state = "w32 \<times> w32 \<times> w32 \<times> w32 \<times> w32 \<times> w32 \<times> w32 \<times> w32"

definition sha_init :: sha_state where
  "sha_init = (1779033703, 3144134277, 1013904242, 2773480762,
               1359893119, 2600822924, 528734635, 1541459225)"

definition ror32 :: "nat \<Rightarrow> w32 \<Rightarrow> w32" where
  "ror32 n x = (drop_bit n x) OR (push_bit (32 - n) x)"

definition sha_pad :: "bytes \<Rightarrow> bytes" where
  "sha_pad m = m @ [0x80] @ replicate ((119 - length m mod 64) mod 64) 0
                 @ be_encode 8 ((8 * length m) mod 2 ^ 64)"

fun sha_extend :: "nat \<Rightarrow> w32 list \<Rightarrow> w32 list" where
  "sha_extend 0 ws = ws"
| "sha_extend (Suc k) ws =
     (let t = length ws; a = ws ! (t - 15); b = ws ! (t - 2);
          s0 = ror32 7 a XOR ror32 18 a XOR drop_bit 3 a;
          s1 = ror32 17 b XOR ror32 19 b XOR drop_bit 10 b
      in sha_extend k (ws @ [ws ! (t - 16) + s0 + ws ! (t - 7) + s1]))"

fun sha_round :: "sha_state \<Rightarrow> w32 \<times> w32 \<Rightarrow> sha_state" where
  "sha_round (a, b, c, d, e, f, g, h) (k, w) =
     (let s1 = ror32 6 e XOR ror32 11 e XOR ror32 25 e;
          ch = (e AND f) XOR (NOT e AND g);
          t1 = h + s1 + ch + k + w;
          s0 = ror32 2 a XOR ror32 13 a XOR ror32 22 a;
          maj = (a AND b) XOR (a AND c) XOR (b AND c);
          t2 = s0 + maj
      in (t1 + t2, a, b, c, d + t1, e, f, g))"

fun sha_add :: "sha_state \<Rightarrow> sha_state \<Rightarrow> sha_state" where
  "sha_add (a, b, c, d, e, f, g, h) (a', b', c', d', e', f', g', h') =
     (a + a', b + b', c + c', d + d', e + e', f + f', g + g', h + h')"

definition sha_block :: "sha_state \<Rightarrow> bytes \<Rightarrow> sha_state" where
  "sha_block st block =
     (let ws = sha_extend 48 (map (\<lambda>q. of_nat (be_decode q)) (chunks 4 block))
      in sha_add st (foldl sha_round st (zip sha_k ws)))"

fun sha_words :: "sha_state \<Rightarrow> w32 list" where
  "sha_words (a, b, c, d, e, f, g, h) = [a, b, c, d, e, f, g, h]"

definition sha256 :: "bytes \<Rightarrow> bytes" where
  "sha256 m = concat (map (\<lambda>w. be_encode 4 (unat w))
                 (sha_words (foldl sha_block sha_init (chunks 64 (sha_pad m)))))"

definition sha256_hexdigest :: "bytes \<Rightarrow> string" where
  "sha256_hexdigest m = hex_bytes (sha256 m)"

lemma length_sha256 [wire]: "length (sha256 m) = 32"
proof -
  have "length (concat (map (\<lambda>w. be_encode 4 (unat w)) (sha_words st))) = 32" for st
    by (cases st rule: sha_words.cases) simp
  then show ?thesis by (simp add: sha256_def)
qed

lemma length_sha256_hexdigest [wire]: "length (sha256_hexdigest m) = 64"
  by (simp add: sha256_hexdigest_def length_hex_bytes length_sha256)

lemma length_sha_pad: "length (sha_pad m) mod 64 = 0"
proof -
  define q where "q = length m div 64"
  define r where "r = length m mod 64"
  have len: "length m = 64 * q + r" and r: "r < 64" by (simp_all add: q_def r_def)
  have "length (sha_pad m) = 64 * q + r + 9 + (119 - r) mod 64"
    by (simp add: sha_pad_def flip: len r_def)
  also have "\<dots> = 64 * (if r \<le> 55 then q + 1 else q + 2)"
  proof (cases "r \<le> 55")
    case True
    then have "(119 - r) mod 64 = 55 - r" by (simp add: mod_if)
    with True show ?thesis by simp
  next
    case False
    with r show ?thesis by (simp add: mod_if)
  qed
  finally show ?thesis by simp
qed

end
