(* ===== verification/Recording.thy ===== *)
theory Recording
  imports Py_Hashlib
begin

section \<open>Recorded events and replay actions (recording.py)\<close>

text \<open>
  The two records of a session's recording and the description of serial data that may leave
  the process.  A replay action's payload depends on its type; \<open>action_type\<close> gives the source's
  literal, and \<open>payload\<close> of the source is the constructor's arguments.
\<close>

datatype event_category = Lifecycle | Control | Input | Debug | Replay | Peripheral
datatype event_source = Service | User | FromReplay | FromWorker

fun category_value :: "event_category \<Rightarrow> string" where
  "category_value Lifecycle = ''lifecycle''"
| "category_value Control = ''control''"
| "category_value Input = ''input''"
| "category_value Debug = ''debug''"
| "category_value Replay = ''replay''"
| "category_value Peripheral = ''peripheral''"

fun source_value :: "event_source \<Rightarrow> string" where
  "source_value Service = ''service''"
| "source_value User = ''user''"
| "source_value FromReplay = ''replay''"
| "source_value FromWorker = ''worker''"

record session_event =
  ev_sequence :: nat
  ev_generation :: nat
  ev_offset_ms :: int
  ev_category :: event_category
  ev_type :: string
  ev_source :: event_source
  ev_data :: json

definition event_public_dict :: "session_event \<Rightarrow> json" where
  "event_public_dict e = jobj [
     (''sequence'', JInt (int (ev_sequence e))), (''generation'', JInt (int (ev_generation e))),
     (''offset_ms'', JInt (ev_offset_ms e)), (''category'', jstr (category_value (ev_category e))),
     (''type'', jstr (ev_type e)), (''source'', jstr (source_value (ev_source e))),
     (''data'', ev_data e)]"

type_synonym vec3 = "pyfloat \<times> pyfloat \<times> pyfloat"

datatype action =
    KeyAction string bool
  | ButtonAction string bool
  | ImuAction vec3 vec3
  | PowerAction int int bool
  | SerialAction bytes
  | ResetAction
  | PowerOffAction
  | PowerOnAction

fun action_type :: "action \<Rightarrow> string" where
  "action_type (KeyAction k p) = ''key''"
| "action_type (ButtonAction b p) = ''button''"
| "action_type (ImuAction a w) = ''imu''"
| "action_type (PowerAction b v c) = ''power''"
| "action_type (SerialAction p) = ''serial''"
| "action_type ResetAction = ''reset''"
| "action_type PowerOffAction = ''power_off''"
| "action_type PowerOnAction = ''power_on''"

record replay_action =
  ra_offset_ms :: int
  ra_action :: action

definition serial_metadata :: "bytes \<Rightarrow> json" where
  "serial_metadata payload = jobj [
     (''byte_count'', JInt (int (length payload))),
     (''sha256'', jstr (sha256_hexdigest payload)),
     (''content_included'', JBool False)]"

end
