(* ===== verification/Firmware.thy ===== *)
theory Firmware
  imports Boards Py_Hashlib File_System
begin

section \<open>Firmware validation (firmware.py)\<close>

text \<open>
  The checks an upload passes before it becomes a session's flash image, in the source's order,
  and the writing of that image into a new private session directory.
\<close>

definition ESP_IMAGE_MAGIC :: byte where "ESP_IMAGE_MAGIC = 0xE9"
definition ELF_MAGIC :: bytes where "ELF_MAGIC = [0x7f, 0x45, 0x4c, 0x46]"
definition MINIMUM_IMAGE_SIZE :: nat where "MINIMUM_IMAGE_SIZE = 4 * 1024"
definition MAXIMUM_SEGMENTS :: nat where "MAXIMUM_SEGMENTS = 16"

record validated_firmware =
  source_size_bytes :: nat
  flash_image_size :: nat
  source_sha256 :: string
  flash_sha256 :: string
  segment_count :: nat
  flash_mode :: nat

definition ljust :: "bytes \<Rightarrow> nat \<Rightarrow> byte \<Rightarrow> bytes" where
  "ljust p n b = p @ replicate (n - length p) b"

definition validate_and_pad_firmware ::
    "bytes \<Rightarrow> board_profile \<Rightarrow> exn + bytes \<times> validated_firmware" where
  "validate_and_pad_firmware payload board =
     (if take (length ELF_MAGIC) payload = ELF_MAGIC then
        Inl (FirmwareValidationError
          ''ELF uploads are not bootable yet; upload a merged flash image starting at offset 0'')
      else if length payload < MINIMUM_IMAGE_SIZE then
        Inl (FirmwareValidationError ''firmware image is too small to be a merged ESP32-S3 image'')
      else if flash_size_bytes board < length payload then
        Inl (FirmwareValidationError (''firmware image exceeds the ''
          @ str_nat (flash_size_bytes board) @ ''-byte board flash capacity''))
      else if payload ! 0 \<noteq> ESP_IMAGE_MAGIC then
        Inl (FirmwareValidationError ''merged ESP32-S3 image must begin with image magic 0xE9'')
      else let segs = unat (payload ! 1) in
        if \<not> (1 \<le> segs \<and> segs \<le> MAXIMUM_SEGMENTS) then
          Inl (FirmwareValidationError ''ESP image header contains an invalid segment count'')
        else let fmode = unat (payload ! 2) in
          if 3 < fmode then
            Inl (FirmwareValidationError ''ESP image header contains an invalid flash mode'')
          else let normalized = ljust payload (flash_size_bytes board) 0xff in
            Inr (normalized,
              \<lparr>source_size_bytes = length payload, flash_image_size = length normalized,
               source_sha256 = sha256_hexdigest payload, flash_sha256 = sha256_hexdigest normalized,
               segment_count = segs, flash_mode = fmode\<rparr>))"

text \<open>
  \<open>path.parent.mkdir(..., exist_ok=False)\<close>: an existing directory raises.  The runtime root
  above it exists since the manager's start.
\<close>

definition write_private_flash_image ::
    "identity \<Rightarrow> path \<Rightarrow> bytes \<Rightarrow> nat \<Rightarrow> nat \<Rightarrow> int option \<Rightarrow> filesys \<Rightarrow> exn + filesys" where
  "write_private_flash_image me p payload directory_mode file_mode group_gid fs =
     (if fs (parent p) \<noteq> None then Inl (FileExistsError (str_path (parent p)))
      else let
        fs1 = chmod (parent p) directory_mode (make_dir me directory_mode (parent p) fs);
        fs2 = (case group_gid of None \<Rightarrow> fs1 | Some g \<Rightarrow> chgrp (parent p) g fs1);
        fs3 = chmod p file_mode (write_bytes me p payload fs2)
      in Inr (case group_gid of None \<Rightarrow> fs3 | Some g \<Rightarrow> chgrp p g fs3))"

subsection \<open>What the validation accepts\<close>

definition acceptable_image :: "bytes \<Rightarrow> board_profile \<Rightarrow> bool" where
  "acceptable_image p b =
     (4096 \<le> length p \<and> length p \<le> flash_size_bytes b \<and> p ! 0 = 0xE9
      \<and> 1 \<le> unat (p ! 1) \<and> unat (p ! 1) \<le> 16 \<and> unat (p ! 2) \<le> 3)"

lemma magic_not_elf: "4 \<le> length p \<Longrightarrow> p ! 0 = 0xE9 \<Longrightarrow> take 4 p \<noteq> ELF_MAGIC"
  by (cases p) (auto simp: ELF_MAGIC_def)

lemma length_ELF_MAGIC [simp]: "length ELF_MAGIC = 4"
  by (simp add: ELF_MAGIC_def)

lemmas firmware_defs = validate_and_pad_firmware_def MINIMUM_IMAGE_SIZE_def MAXIMUM_SEGMENTS_def
  ESP_IMAGE_MAGIC_def Let_def

lemma validate_acceptable:
  assumes "acceptable_image p b"
  shows "validate_and_pad_firmware p b =
    Inr (ljust p (flash_size_bytes b) 0xff,
      \<lparr>source_size_bytes = length p, flash_image_size = flash_size_bytes b,
       source_sha256 = sha256_hexdigest p,
       flash_sha256 = sha256_hexdigest (ljust p (flash_size_bytes b) 0xff),
       segment_count = unat (p ! 1), flash_mode = unat (p ! 2)\<rparr>)"
  using assms magic_not_elf [of p] by (auto simp: firmware_defs acceptable_image_def ljust_def)

lemma validate_Inr_acceptable:
  "validate_and_pad_firmware p b = Inr r \<Longrightarrow> acceptable_image p b"
  by (auto simp: firmware_defs acceptable_image_def split: if_splits)

lemma validate_Inl: "validate_and_pad_firmware p b = Inl e \<Longrightarrow> \<exists>m. e = FirmwareValidationError m"
  by (auto simp: firmware_defs split: if_splits)

lemma length_ljust: "length p \<le> n \<Longrightarrow> length (ljust p n b) = n"
  by (simp add: ljust_def)

lemma acceptable_padded:
  assumes "acceptable_image p b"
  shows "acceptable_image (ljust p (flash_size_bytes b) x) b"
  using assms by (auto simp: acceptable_image_def ljust_def nth_append)

text \<open>
  C36. An upload is accepted exactly when it is 4096 bytes up to the board's flash size, begins
  with the image magic and has 1 to 16 segments and a flash mode up to 3; the image is then the
  upload followed by 0xFF bytes up to the flash size, and every rejection is a
  \<open>FirmwareValidationError\<close>.
\<close>

theorem validate_firmware_iff:
  "(case validate_and_pad_firmware p b of
      Inr (img, m) \<Rightarrow> acceptable_image p b \<and> length img = flash_size_bytes b
        \<and> take (length p) img = p \<and> set (drop (length p) img) \<subseteq> {0xff}
        \<and> source_size_bytes m = length p \<and> flash_image_size m = flash_size_bytes b
        \<and> source_sha256 m = sha256_hexdigest p \<and> flash_sha256 m = sha256_hexdigest img
        \<and> segment_count m = unat (p ! 1) \<and> flash_mode m = unat (p ! 2)
    | Inl e \<Rightarrow> \<not> acceptable_image p b \<and> (\<exists>msg. e = FirmwareValidationError msg))"
proof (cases "acceptable_image p b")
  case True
  then have "length p \<le> flash_size_bytes b" by (simp add: acceptable_image_def)
  with True show ?thesis by (auto simp: validate_acceptable length_ljust) (auto simp: ljust_def)
next
  case False
  then show ?thesis
    using validate_Inr_acceptable [of p b] validate_Inl [of p b]
    by (cases "validate_and_pad_firmware p b") auto
qed

text \<open>
  Validation is idempotent on its own output: the padded image is accepted again for the
  same board and comes back unchanged, with the flash digest it had.
\<close>

theorem validate_firmware_idempotent:
  assumes "validate_and_pad_firmware p b = Inr (img, m)"
  shows "\<exists>m'. validate_and_pad_firmware img b = Inr (img, m')
           \<and> flash_sha256 m' = flash_sha256 m \<and> source_sha256 m' = flash_sha256 m
           \<and> segment_count m' = segment_count m \<and> flash_mode m' = flash_mode m"
proof -
  have ok: "acceptable_image p b" by (rule validate_Inr_acceptable [OF assms])
  then have len: "4096 \<le> length p" "length p \<le> flash_size_bytes b"
    by (simp_all add: acceptable_image_def)
  from assms validate_acceptable [OF ok]
  have im: "img = ljust p (flash_size_bytes b) 0xff" by simp
  have "ljust img (flash_size_bytes b) 0xff = img"
    using len by (simp add: im ljust_def)
  moreover have "img ! 1 = p ! 1" "img ! 2 = p ! 2"
    using len by (simp_all add: im ljust_def nth_append)
  ultimately show ?thesis
    using validate_acceptable [OF ok] validate_acceptable [OF acceptable_padded [OF ok, of "0xff"]] assms
    by (auto simp: im [symmetric])
qed

definition tiny_board :: board_profile where
  "tiny_board = STICKS3\<lparr>flash_size_bytes := 4100\<rparr>"

definition sample_image :: bytes where
  "sample_image = [0xE9, 1, 2] @ replicate 4093 0"

lemma sample_acceptable: "acceptable_image sample_image tiny_board"
  by (simp add: acceptable_image_def sample_image_def tiny_board_def)

theorem validate_firmware_idempotent_witness:
  "\<exists>m'. validate_and_pad_firmware (ljust sample_image 4100 0xff) tiny_board =
          Inr (ljust sample_image 4100 0xff, m')
        \<and> flash_sha256 m' = sha256_hexdigest (ljust sample_image 4100 0xff)"
proof -
  have "flash_size_bytes tiny_board = 4100" by (simp add: tiny_board_def)
  with validate_firmware_idempotent [OF validate_acceptable [OF sample_acceptable]]
  show ?thesis by auto
qed

subsection \<open>The private flash image\<close>

lemma write_private_flash_image_modes:
  assumes "fs (parent p) = None" "fs p = None" "p \<noteq> parent p"
  shows "\<exists>fs'. write_private_flash_image me p bs dm fm g fs = Inr fs'
     \<and> fs' p = Some \<lparr>kind = Regular bs, mode = fm, uid = my_uid me,
                      gid = (case g of None \<Rightarrow> my_gid me | Some i \<Rightarrow> i)\<rparr>
     \<and> fs' (parent p) = Some \<lparr>kind = Directory, mode = dm, uid = my_uid me,
                      gid = (case g of None \<Rightarrow> my_gid me | Some i \<Rightarrow> i)\<rparr>
     \<and> (\<forall>q. q \<noteq> p \<longrightarrow> q \<noteq> parent p \<longrightarrow> fs' q = fs q)"
  using assms
  by (cases g) (auto simp: write_private_flash_image_def make_dir_def chmod_def chgrp_def
      write_bytes_def Let_def)

end
