(* ===== verification/Inputs.thy ===== *)
theory Inputs
  imports Boards Recording
begin

section \<open>Board inputs as QMP arguments (inputs.py)\<close>

text \<open>
  The translation of typed browser input into the arguments of QMP commands, per board: key
  events, buttons, IMU samples (floats scaled by 1000 and rounded half to even) and power states.
\<close>

definition same_keys :: "string \<Rightarrow> (string \<times> string) list" where
  "same_keys cs = map (\<lambda>c. ([c], [c])) cs"

definition CARDPUTER_KEY_TO_QCODE :: "(string \<times> string) list" where
  "CARDPUTER_KEY_TO_QCODE =
    [(''grave'', ''grave_accent'')] @ same_keys ''0123456789'' @
    [(''minus'', ''minus''), (''equals'', ''equal''), (''backspace'', ''backspace''), (''tab'', ''tab'')] @
    same_keys ''qwertyuiop'' @
    [(''bracket-left'', ''bracket_left''), (''bracket-right'', ''bracket_right''),
     (''backslash'', ''backslash''), (''fn'', ''meta_l''), (''shift'', ''shift'')] @
    same_keys ''asdfghjkl'' @
    [(''semicolon'', ''semicolon''), (''apostrophe'', ''apostrophe''), (''enter'', ''ret''),
     (''ctrl'', ''ctrl''), (''opt'', ''meta_r''), (''alt'', ''alt'')] @
    same_keys ''zxcvbnm'' @
    [(''comma'', ''comma''), (''period'', ''dot''), (''slash'', ''slash''), (''space'', ''spc'')]"

definition STICKS3_BUTTONS :: "string list" where "STICKS3_BUTTONS = [''a'', ''b'']"
definition STICKS3_BUTTONS_PATH :: string where
  "STICKS3_BUTTONS_PATH = ''/machine/peripheral/sticks3-buttons''"
definition STICKS3_IMU_PATH :: string where
  "STICKS3_IMU_PATH = ''/machine/peripheral/sticks3-imu''"
definition STICKS3_PMIC_PATH :: string where
  "STICKS3_PMIC_PATH = ''/machine/peripheral/sticks3-pmic''"
definition CARDPUTER_ADV_IMU_PATH :: string where
  "CARDPUTER_ADV_IMU_PATH = ''/machine/peripheral/cardputer-adv-imu''"
definition CARDPUTER_ADV_ADC_PATH :: string where
  "CARDPUTER_ADV_ADC_PATH = ''/machine/soc/saradc''"

definition qmp_key_event :: "board_profile \<Rightarrow> string \<Rightarrow> bool \<Rightarrow> exn + json" where
  "qmp_key_event board key pressed =
     (if board_id board \<noteq> ''cardputer-adv'' then
        Inl (BoardInputError (''keyboard input is unavailable for board profile: '' @ board_id board))
      else case map_of CARDPUTER_KEY_TO_QCODE key of
        None \<Rightarrow> Inl (BoardInputError (''unknown Cardputer ADV key: '' @ key))
      | Some qcode \<Rightarrow> Inr (jobj [(''events'', JArr [jobj [
            (''type'', jstr ''key''),
            (''data'', jobj [
               (''down'', JBool pressed),
               (''key'', jobj [(''type'', jstr ''qcode''), (''data'', jstr qcode)])])]])]))"

definition qmp_button_event :: "board_profile \<Rightarrow> string \<Rightarrow> bool \<Rightarrow> exn + json" where
  "qmp_button_event board button pressed =
     (if board_id board \<noteq> ''sticks3'' then
        Inl (BoardInputError (''button input is unavailable for board profile: '' @ board_id board))
      else if button \<notin> set STICKS3_BUTTONS then
        Inl (BoardInputError (''unknown StickS3 button: '' @ button))
      else Inr (jobj [(''path'', jstr STICKS3_BUTTONS_PATH),
                      (''property'', jstr (''button-'' @ button)),
                      (''value'', JBool pressed)]))"

fun vec_values :: "vec3 \<Rightarrow> pyfloat list" where
  "vec_values (x, y, z) = [x, y, z]"

definition imu_paths :: "(string \<times> string) list" where
  "imu_paths = [(''cardputer-adv'', CARDPUTER_ADV_IMU_PATH), (''sticks3'', STICKS3_IMU_PATH)]"

text \<open>\<open>round(value * 1000)\<close>; \<open>None\<close> where Python's \<open>round\<close> raises (never on finite values).\<close>

definition scale1000 :: "pyfloat \<Rightarrow> int option" where
  "scale1000 v = py_round (fmul_int v 1000)"

definition qmp_imu_sample :: "board_profile \<Rightarrow> vec3 \<Rightarrow> vec3 \<Rightarrow> exn + json" where
  "qmp_imu_sample board acceleration_g angular_velocity_dps =
     (case map_of imu_paths (board_id board) of
        None \<Rightarrow> Inl (BoardInputError (''IMU input is unavailable for board profile: '' @ board_id board))
      | Some imu_path \<Rightarrow>
          let values = vec_values acceleration_g @ vec_values angular_velocity_dps in
          if \<not> list_all isfinite values then
            Inl (BoardInputError ''BMI270 IMU values must be finite'')
          else if list_ex (\<lambda>v. fabs_gt v 16) (vec_values acceleration_g) then
            Inl (BoardInputError ''BMI270 acceleration exceeds the 16 g model range'')
          else if list_ex (\<lambda>v. fabs_gt v 2000) (vec_values angular_velocity_dps) then
            Inl (BoardInputError ''BMI270 angular velocity exceeds the 2000 dps model range'')
          else (case those (map scale1000 values) of
              None \<Rightarrow> Inl (OverflowError ''cannot convert float infinity to integer'')
            | Some scaled_values \<Rightarrow> Inr (jobj [
                (''path'', jstr imu_path), (''property'', jstr ''sample''),
                (''value'', jstr (join '','' (map str_int scaled_values)))])))"

definition half_millivolts :: "int \<Rightarrow> int option" where
  "half_millivolts battery_mv = py_round (true_div battery_mv 2)"

definition qmp_power_state :: "board_profile \<Rightarrow> int \<Rightarrow> int \<Rightarrow> bool \<Rightarrow> exn + json" where
  "qmp_power_state board battery_mv vin_mv charging =
     (if \<not> (0 \<le> battery_mv \<and> battery_mv \<le> 6000) \<or> \<not> (0 \<le> vin_mv \<and> vin_mv \<le> 6000) then
        Inl (BoardInputError ''board voltage must be between 0 and 6000 mV'')
      else if board_id board = ''cardputer-adv'' then
        (if vin_mv \<noteq> 0 \<or> charging then
           Inl (BoardInputError (''Cardputer ADV exposes battery voltage only; VIN and charging ''
             @ ''telemetry are unavailable in hardware''))
         else (case half_millivolts battery_mv of
             None \<Rightarrow> Inl (OverflowError ''cannot convert float infinity to integer'')
           | Some v \<Rightarrow> Inr (jobj [
               (''path'', jstr CARDPUTER_ADV_ADC_PATH),
               (''property'', jstr ''adc1-ch9-millivolts''), (''value'', JInt v)])))
      else if board_id board \<noteq> ''sticks3'' then
        Inl (BoardInputError (''power input is unavailable for board profile: '' @ board_id board))
      else Inr (jobj [
        (''path'', jstr STICKS3_PMIC_PATH), (''property'', jstr ''power-state''),
        (''value'', jstr (str_int battery_mv @ '','' @ str_int vin_mv @ '','' @
            (if charging then ''1'' else ''0'')))]))"

subsection \<open>Bounds of the scaled values\<close>

text \<open>\<open>|m * 2 ^ e| \<le> n\<close>.\<close>

definition vle :: "int \<Rightarrow> int \<Rightarrow> int \<Rightarrow> bool" where
  "vle m e n = (if 0 \<le> e then \<bar>m\<bar> * 2 ^ nat e \<le> n else \<bar>m\<bar> \<le> n * 2 ^ nat (- e))"

lemma fabs_gt_vle: "fabs_gt (Fin m e) n \<longleftrightarrow> \<not> vle m e n"
  by (auto simp: vle_def)

lemma py_round_vle:
  assumes "vle m e n"
  shows "\<exists>r. py_round (Fin m e) = Some r \<and> \<bar>r\<bar> \<le> n"
proof (cases "0 \<le> e")
  case True
  then show ?thesis using assms by (simp add: vle_def abs_mult)
next
  case False
  let ?d = "2 ^ nat (- e) :: int"
  have "\<bar>m\<bar> \<le> n * ?d" using assms False by (simp add: vle_def)
  then have "m \<le> n * ?d" "(- n) * ?d \<le> m" by linarith+
  then have "rhe m ?d \<le> n" "- n \<le> rhe m ?d"
    by (auto intro: rhe_mono_le rhe_mono_ge)
  with False show ?thesis by auto
qed

lemma vle_scale: "0 \<le> k \<Longrightarrow> vle m e n \<Longrightarrow> vle (m * k) e (n * k)"
  using mult_right_mono [of "\<bar>m\<bar> * 2 ^ nat e" n k] mult_right_mono [of "\<bar>m\<bar>" "n * 2 ^ nat (- e)" k]
  by (auto simp: vle_def abs_mult mult_ac)

lemma rhe_nonneg: "0 < d \<Longrightarrow> 0 \<le> n \<Longrightarrow> 0 \<le> rhe n d"
  using rhe_mono_ge [of d 0 n] by simp

lemma round53_vle:
  assumes v: "vle m e n" and n: "0 \<le> n" "n < 2 ^ 53"
  shows "\<exists>m' e'. round53 m e = Fin m' e' \<and> vle m' e' n"
proof -
  define b where "b = bitlen (nat \<bar>m\<bar>)"
  show ?thesis
  proof (cases "b \<le> 53")
    case True
    then show ?thesis using v by (simp add: round53_def b_def Let_def)
  next
    case False
    define s where "s = b - 53"
    have b: "b = 53 + s" "0 < s" using False by (auto simp: s_def)
    have "m \<noteq> 0" using False by (auto simp: b_def bitlen.simps [of 0])
    then have "2 ^ (b - 1) \<le> nat \<bar>m\<bar>" using bitlen_bounds [of "nat \<bar>m\<bar>"] by (simp add: b_def)
    then have "int (2 ^ (b - 1)) \<le> int (nat \<bar>m\<bar>)" by (simp only: of_nat_le_iff)
    then have big: "(2::int) ^ (52 + s) \<le> \<bar>m\<bar>" using b by simp
    have "\<not> 0 \<le> e"
    proof
      assume "0 \<le> e"
      then have "\<bar>m\<bar> * 2 ^ nat e \<le> n" using v by (simp add: vle_def)
      moreover have "\<bar>m\<bar> * 1 \<le> \<bar>m\<bar> * 2 ^ nat e" by (intro mult_left_mono) simp_all
      ultimately have "(2::int) ^ (52 + s) < 2 ^ 53" using big n by linarith
      then have "52 + s < 53" by (simp only: power_strict_increasing_iff one_less_numeral_iff semiring_norm)
      with b show False by simp
    qed
    then have e: "e < 0" and mle: "\<bar>m\<bar> \<le> n * 2 ^ nat (- e)" using v by (auto simp: vle_def)
    have "n * 2 ^ nat (- e) < 2 ^ 53 * (2::int) ^ nat (- e)" using n by (intro mult_strict_right_mono) simp_all
    then have "\<bar>m\<bar> < 2 ^ (53 + nat (- e))" using mle by (simp only: power_add)
    then have "(2::int) ^ (52 + s) < 2 ^ (53 + nat (- e))" using big by (rule le_less_trans [rotated])
    then have "52 + s < 53 + nat (- e)"
      by (simp only: power_strict_increasing_iff one_less_numeral_iff semiring_norm)
    then have s: "s \<le> nat (- e)" by simp
    let ?r = "rhe \<bar>m\<bar> (2 ^ s)"
    have "nat (- e) = (nat (- e) - s) + s" using s by simp
    then have "n * 2 ^ nat (- e) = (n * 2 ^ (nat (- e) - s)) * 2 ^ s"
      by (metis mult.assoc power_add)
    with mle have "\<bar>m\<bar> \<le> (n * 2 ^ (nat (- e) - s)) * 2 ^ s" by (simp only:)
    then have r: "?r \<le> n * 2 ^ (nat (- e) - s)" by (intro rhe_mono_le) simp_all
    have abs: "\<bar>sgn m * ?r\<bar> = ?r"
      using \<open>m \<noteq> 0\<close> rhe_nonneg [of "2 ^ s" "\<bar>m\<bar>"] by (simp add: abs_mult)
    have nat: "nat (- (e + int s)) = nat (- e) - s" using e by linarith
    have "vle (sgn m * ?r) (e + int s) n"
    proof (cases "e + int s = 0")
      case True
      then have "nat (- e) - s = 0" using e by linarith
      with r True abs show ?thesis by (simp add: vle_def)
    next
      case False
      then have "\<not> 0 \<le> e + int s" using s e by linarith
      with r abs nat show ?thesis by (simp add: vle_def)
    qed
    moreover have "round53 m e = Fin (sgn m * ?r) (e + int s)"
      using False by (simp add: round53_def b_def [symmetric] s_def Let_def)
    ultimately show ?thesis by blast
  qed
qed

lemma scale1000_bound:
  assumes "isfinite v" "\<not> fabs_gt v k" "0 \<le> k" "k \<le> 2000"
  shows "\<exists>r. scale1000 v = Some r \<and> \<bar>r\<bar> \<le> 1000 * k"
proof -
  obtain m e where v: "v = Fin m e" using assms(1) by (cases v) auto
  then have "vle m e k" using assms(2) fabs_gt_vle by blast
  then have "vle (m * 1000) e (k * 1000)" by (intro vle_scale) simp_all
  moreover have "0 \<le> k * 1000" "k * 1000 < 2 ^ 53" using assms by simp_all
  ultimately obtain m' e' where r: "round53 (m * 1000) e = Fin m' e'" "vle m' e' (k * 1000)"
    using round53_vle by blast
  from py_round_vle [OF r(2)] show ?thesis by (simp add: scale1000_def v r(1) mult.commute)
qed

lemma scale1000_all:
  assumes "list_all isfinite vs" "\<not> list_ex (\<lambda>v. fabs_gt v k) vs" "0 \<le> k" "k \<le> 2000"
  shows "\<exists>ns. those (map scale1000 vs) = Some ns \<and> length ns = length vs \<and> (\<forall>n\<in>set ns. \<bar>n\<bar> \<le> 1000 * k)"
  using assms
proof (induction vs)
  case Nil
  then show ?case by simp
next
  case (Cons v vs)
  then obtain ns where "those (map scale1000 vs) = Some ns" "length ns = length vs"
    "\<forall>n\<in>set ns. \<bar>n\<bar> \<le> 1000 * k" by auto
  moreover obtain r where "scale1000 v = Some r" "\<bar>r\<bar> \<le> 1000 * k"
    using scale1000_bound [of v k] Cons.prems by auto
  ultimately show ?case by simp
qed

lemma those_append:
  "those xs = Some a \<Longrightarrow> those ys = Some b \<Longrightarrow> those (xs @ ys) = Some (a @ b)"
  by (induction xs arbitrary: a) (auto split: option.splits)

definition imu_accepted :: "vec3 \<Rightarrow> vec3 \<Rightarrow> bool" where
  "imu_accepted a w =
     (list_all isfinite (vec_values a @ vec_values w)
      \<and> \<not> list_ex (\<lambda>v. fabs_gt v 16) (vec_values a) \<and> \<not> list_ex (\<lambda>v. fabs_gt v 2000) (vec_values w))"

lemma length_vec_values [simp]: "length (vec_values v) = 3"
  by (cases v) simp

text \<open>
  An IMU sample is accepted exactly on the two boards and when all six values are finite
  with acceleration within 16 g and angular velocity within 2000 dps; the property string then
  joins six integers, the accelerations within 16000 and the rates within 2000000 in magnitude,
  so every number fits the emulated sensor's range.
\<close>

theorem qmp_imu_sample_accepts:
  "(case qmp_imu_sample b a w of
      Inr args \<Rightarrow> imu_accepted a w \<and> map_of imu_paths (board_id b) \<noteq> None \<and>
        (\<exists>as ws. jget args ''value'' = jstr (join '','' (map str_int (as @ ws)))
           \<and> length as = 3 \<and> length ws = 3
           \<and> (\<forall>n\<in>set as. \<bar>n\<bar> \<le> 16000) \<and> (\<forall>n\<in>set ws. \<bar>n\<bar> \<le> 2000000))
    | Inl e \<Rightarrow> (\<not> imu_accepted a w \<or> map_of imu_paths (board_id b) = None)
        \<and> (\<exists>m. e = BoardInputError m))"
proof (cases "imu_accepted a w")
  case True
  then obtain as ws where v: "those (map scale1000 (vec_values a)) = Some as" "length as = 3"
      "\<forall>n\<in>set as. \<bar>n\<bar> \<le> 1000 * 16"
      "those (map scale1000 (vec_values w)) = Some ws" "length ws = 3"
      "\<forall>n\<in>set ws. \<bar>n\<bar> \<le> 1000 * 2000"
    using scale1000_all [of "vec_values a" 16] scale1000_all [of "vec_values w" 2000]
    by (auto simp: imu_accepted_def)
  show ?thesis
  proof (cases "map_of imu_paths (board_id b)")
    case None
    then show ?thesis by (simp add: qmp_imu_sample_def)
  next
    case (Some p)
    have "qmp_imu_sample b a w = Inr (jobj [(''path'', jstr p), (''property'', jstr ''sample''),
        (''value'', jstr (join '','' (map str_int (as @ ws))))])"
      using Some True those_append [OF v(1,4)]
      by (simp add: qmp_imu_sample_def imu_accepted_def Let_def)
    moreover have "\<forall>n\<in>set as. \<bar>n\<bar> \<le> 16000" "\<forall>n\<in>set ws. \<bar>n\<bar> \<le> 2000000" using v by simp_all
    ultimately show ?thesis using True Some v(2,5) by auto
  qed
next
  case False
  then show ?thesis
    by (cases "map_of imu_paths (board_id b)")
      (auto simp: qmp_imu_sample_def imu_accepted_def Let_def)
qed

theorem qmp_imu_sample_accepts_witness:
  "\<exists>args. qmp_imu_sample CARDPUTER_ADV (Fin 1 0, Fin 0 0, Fin (- 16) 0) (Fin 2000 0, Fin 1 (- 3), Fin 0 0) = Inr args"
proof -
  let ?a = "(Fin 1 0, Fin 0 0, Fin (- 16) 0)" and ?w = "(Fin 2000 0, Fin 1 (- 3), Fin 0 0)"
  have "imu_accepted ?a ?w" by (simp add: imu_accepted_def)
  moreover have "map_of imu_paths (board_id CARDPUTER_ADV) \<noteq> None" by (simp add: imu_paths_def)
  ultimately show ?thesis using qmp_imu_sample_accepts [where b = CARDPUTER_ADV and a = ?a and w = ?w]
    by (cases "qmp_imu_sample CARDPUTER_ADV ?a ?w") simp_all
qed

subsection \<open>Battery voltage\<close>

lemma half_millivolts_rhe:
  assumes "0 \<le> b" "b \<le> 6000"
  shows "half_millivolts b = Some (rhe b 2)"
proof (cases "b = 0")
  case True
  then show ?thesis by (simp add: half_millivolts_def true_div_def rhe_def)
next
  case False
  let ?n = "nat b" and ?l = "bitlen (nat b)"
  have pos: "0 < ?n" using assms False by simp
  note bnd = bitlen_bounds [OF pos]
  have l: "?l \<le> 13" using assms by (intro bitlen_le) simp
  have l1: "1 \<le> ?l" using pos by (simp add: bitlen.simps [of ?n])
  have two: "bitlen 2 = 2" by (simp add: bitlen.simps)
  define k where "k = 53 - ?l"
  have k: "53 - ?l = k" "54 - ?l = Suc k" "55 - ?l = Suc (Suc k)" "?l - 1 + Suc k = 53"
    using l l1 by (simp_all add: k_def)
  have "int (2 ^ (?l - 1)) \<le> int ?n" using bnd by (simp only: of_nat_le_iff)
  then have "2 ^ (?l - 1) \<le> b" using assms by simp
  then have "2 ^ (?l - 1) * 2 ^ Suc k \<le> b * 2 ^ Suc k" by (intro mult_right_mono) simp_all
  then have big: "2 ^ 53 \<le> b * 2 ^ Suc k" by (simp only: k(4) flip: power_add)
  have nats: "nat (- (int ?l - 55)) = Suc (Suc k)" "nat (- (int ?l - 54)) = Suc k"
    "\<not> 0 \<le> int ?l - 55" "\<not> 0 \<le> int ?l - 54"
    using l unfolding k_def by linarith+
  have q: "(b * 2 ^ Suc (Suc k)) div 2 = b * 2 ^ Suc k" by simp
  have r: "rhe (b * 2 ^ Suc k) 2 = b * 2 ^ k" using rhe_exact [of 2 "b * 2 ^ k"] by (simp add: mult.commute mult.left_commute)
  have s1: "scaled b 2 (int ?l - 55) = (b * 2 ^ Suc (Suc k), 2)"
    by (simp only: scaled_def nats if_False)
  have s2: "scaled b 2 (int ?l - 54) = (b * 2 ^ Suc k, 2)"
    by (simp only: scaled_def nats if_False)
  have t: "true_div b 2 = (case scaled b 2 (int ?l - 55) of (n0, d0) \<Rightarrow>
      case scaled b 2 (if n0 div d0 < 2 ^ 53 then int ?l - 55 else int ?l - 54) of (n1, d1) \<Rightarrow>
        Fin (rhe n1 d1) (if n0 div d0 < 2 ^ 53 then int ?l - 55 else int ?l - 54))"
  proof -
    have args: "\<bar>b\<bar> = b" "\<bar>2::int\<bar> = 2" "sgn b * sgn (2::int) = 1" "(b = 0) = False"
      "bitlen (nat 2) = 2" "int ?l - int (2::nat) - 53 = int ?l - 55" "int ?l - 55 + 1 = int ?l - 54"
      using assms False two by simp_all
    show ?thesis unfolding true_div_def Let_def args by simp
  qed
  have "\<not> b * 2 ^ Suc k < 2 ^ 53" using big by (simp only: not_less)
  then have "true_div b 2 = Fin (b * 2 ^ k) (int ?l - 54)"
    by (simp only: t s1 s2 prod.case q r if_False)
  moreover have "rhe (b * 2 ^ k) (2 ^ Suc k) = rhe b 2"
    using rhe_scale [of 2 "2 ^ k" b] by (simp add: mult.commute)
  ultimately show ?thesis by (simp only: half_millivolts_def py_round.simps nats if_False)
qed

text \<open>
  A battery voltage on the Cardputer ADV becomes the divided ADC reading: half the
  millivolts, exactly when they are even and to the even neighbour when they are odd; VIN and
  charging are refused there, and out-of-range voltages and other boards are refused everywhere.
\<close>

theorem qmp_power_state_cardputer:
  assumes "board_id b = ''cardputer-adv''"
  shows "(case qmp_power_state b mv vin c of
      Inr args \<Rightarrow> 0 \<le> mv \<and> mv \<le> 6000 \<and> vin = 0 \<and> \<not> c
        \<and> (\<exists>v. jget args ''value'' = JInt v \<and> 0 \<le> v \<and> v \<le> 3000
             \<and> (if even mv then 2 * v = mv else even v \<and> \<bar>2 * v - mv\<bar> = 1))
    | Inl e \<Rightarrow> \<not> (0 \<le> mv \<and> mv \<le> 6000 \<and> vin = 0 \<and> \<not> c) \<and> (\<exists>m. e = BoardInputError m))"
proof (cases "0 \<le> mv \<and> mv \<le> 6000 \<and> vin = 0 \<and> \<not> c")
  case True
  have "0 \<le> rhe mv 2" "rhe mv 2 \<le> 3000" using True rhe_mono_le [of 2 mv 3000] rhe_nonneg [of 2 mv] by auto
  moreover have "if even mv then 2 * rhe mv 2 = mv else even (rhe mv 2) \<and> \<bar>2 * rhe mv 2 - mv\<bar> = 1"
    unfolding rhe_def Let_def by presburger
  ultimately show ?thesis using True assms by (simp add: qmp_power_state_def half_millivolts_rhe)
next
  case False
  then show ?thesis using assms by (auto simp: qmp_power_state_def half_millivolts_rhe)
qed

theorem qmp_power_state_cardputer_witness:
  "\<exists>args v. qmp_power_state CARDPUTER_ADV 4201 0 False = Inr args \<and> jget args ''value'' = JInt v
     \<and> even v \<and> \<bar>2 * v - 4201\<bar> = 1"
  using qmp_power_state_cardputer [of CARDPUTER_ADV 4201 0 False]
  by (auto split: sum.splits)

end
