(* ===== verification/Py_Json.thy ===== *)
theory Py_Json
  imports Py_Values
begin

section \<open>UTF-8 and JSON text\<close>

text \<open>
  \<open>bytes.decode\<close> for UTF-8 (strict, or with surrogates let through as \<open>json.loads\<close> does),
  \<open>json.dumps\<close> with the separators the program uses, and \<open>json.loads\<close> of a byte string.  Left
  out: the UTF-16/32 detection of \<open>json.loads\<close> (such input counts as undecodable) and the
  interpreter's limits on digits and nesting; \<open>dumps\<close> of a float is \<open>None\<close>, because the program
  never sends one.  The parser carries fuel; \<open>loads\<close> starts it with more than the input's length,
  and every recursive call consumes a character.
\<close>

subsection \<open>UTF-8\<close>

definition cont_byte :: "byte \<Rightarrow> bool" where
  "cont_byte b = (unat b div 64 = 2)"

fun utf8_decode :: "bool \<Rightarrow> bytes \<Rightarrow> utext option" where
  "utf8_decode surr [] = Some []"
| "utf8_decode surr (b # bs) =
     (let n = unat b in
      if n < 0x80 then map_option ((#) n) (utf8_decode surr bs)
      else if 0xC2 \<le> n \<and> n \<le> 0xDF then
        (case bs of
           c1 # r \<Rightarrow> if cont_byte c1
             then map_option ((#) ((n - 0xC0) * 64 + unat c1 mod 64)) (utf8_decode surr r) else None
         | _ \<Rightarrow> None)
      else if 0xE0 \<le> n \<and> n \<le> 0xEF then
        (case bs of
           c1 # c2 # r \<Rightarrow>
             let v = ((n - 0xE0) * 64 + unat c1 mod 64) * 64 + unat c2 mod 64 in
             if cont_byte c1 \<and> cont_byte c2 \<and> 0x800 \<le> v \<and> (surr \<or> \<not> (0xD800 \<le> v \<and> v \<le> 0xDFFF))
             then map_option ((#) v) (utf8_decode surr r) else None
         | _ \<Rightarrow> None)
      else if 0xF0 \<le> n \<and> n \<le> 0xF4 then
        (case bs of
           c1 # c2 # c3 # r \<Rightarrow>
             let v = (((n - 0xF0) * 64 + unat c1 mod 64) * 64 + unat c2 mod 64) * 64 + unat c3 mod 64 in
             if cont_byte c1 \<and> cont_byte c2 \<and> cont_byte c3 \<and> 0x10000 \<le> v \<and> v \<le> 0x10FFFF
             then map_option ((#) v) (utf8_decode surr r) else None
         | _ \<Rightarrow> None)
      else None)"

lemma utf8_decode_ascii:
  "list_all (\<lambda>c. of_char c < (128::nat)) s \<Longrightarrow> utf8_decode surr (ascii s) = Some (lit s)"
proof (induction s)
  case Nil
  then show ?case by simp
next
  case (Cons c s)
  have "unat (of_char c :: byte) = of_char c"
  proof -
    have "(of_char c :: byte) = of_nat (of_char c :: nat)" by (rule of_nat_of_char [symmetric])
    then show ?thesis by (simp only: unat_of_nat_byte) simp
  qed
  with Cons show ?case by simp
qed

subsection \<open>\<open>json.dumps\<close>\<close>

definition hex4 :: "nat \<Rightarrow> string" where
  "hex4 n = [digit_char (n div 4096 mod 16), digit_char (n div 256 mod 16),
             digit_char (n div 16 mod 16), digit_char (n mod 16)]"

definition bs_char :: char where "bs_char = CHR 0x5C" \<comment> \<open>the backslash\<close>

definition dump_char :: "nat \<Rightarrow> string" where
  "dump_char c =
     (if c = 34 then [bs_char, CHR 0x22]
      else if c = 92 then [bs_char, bs_char]
      else if c = 8 then [bs_char, CHR ''b'']
      else if c = 12 then [bs_char, CHR ''f'']
      else if c = 10 then [bs_char, CHR ''n'']
      else if c = 13 then [bs_char, CHR ''r'']
      else if c = 9 then [bs_char, CHR ''t'']
      else if 32 \<le> c \<and> c < 127 then [char_of c]
      else if c < 0x10000 then bs_char # CHR ''u'' # hex4 c
      else let v = c - 0x10000 in
        bs_char # CHR ''u'' # hex4 (0xD800 + v div 1024) @ bs_char # CHR ''u'' # hex4 (0xDC00 + v mod 1024))"

definition dump_str :: "utext \<Rightarrow> string" where
  "dump_str s = CHR 0x22 # concat (map dump_char s) @ [CHR 0x22]"

fun dumps :: "json \<Rightarrow> string option" where
  "dumps JNull = Some ''null''"
| "dumps (JBool b) = Some (if b then ''true'' else ''false'')"
| "dumps (JInt i) = Some (str_int i)"
| "dumps (JFloat f) = None"
| "dumps (JStr s) = Some (dump_str s)"
| "dumps (JArr xs) = map_option (\<lambda>ys. ''['' @ join '','' ys @ '']'') (those (map dumps xs))"
| "dumps (JObj kvs) =
     map_option (\<lambda>ys. ''{'' @ join '','' ys @ ''}'')
       (those (map (\<lambda>(k, v). map_option (\<lambda>d. dump_str k @ '':'' @ d) (dumps v)) kvs))"

subsection \<open>\<open>json.loads\<close>\<close>

definition j_space :: "nat \<Rightarrow> bool" where
  "j_space c = (c = 32 \<or> c = 9 \<or> c = 10 \<or> c = 13)"

definition skip_ws :: "utext \<Rightarrow> utext" where
  "skip_ws t = dropWhile j_space t"

definition hex_val :: "nat \<Rightarrow> nat option" where
  "hex_val c = (if 48 \<le> c \<and> c \<le> 57 then Some (c - 48)
     else if 97 \<le> c \<and> c \<le> 102 then Some (c - 87)
     else if 65 \<le> c \<and> c \<le> 70 then Some (c - 55) else None)"

definition hex4_val :: "utext \<Rightarrow> (nat \<times> utext) option" where
  "hex4_val t = (case t of
      a # b # c # d # r \<Rightarrow>
        (case (hex_val a, hex_val b, hex_val c, hex_val d) of
           (Some a', Some b', Some c', Some d') \<Rightarrow> Some (((a' * 16 + b') * 16 + c') * 16 + d', r)
         | _ \<Rightarrow> None)
    | _ \<Rightarrow> None)"

definition simple_escape :: "nat \<Rightarrow> nat option" where
  "simple_escape c = map_of [(34, 34), (92, 92), (47, 47), (98, 8), (102, 12), (110, 10), (114, 13), (116, 9)] c"

text \<open>The body of a string after its opening quote: its characters and the rest.\<close>

fun p_string :: "nat \<Rightarrow> utext \<Rightarrow> (utext \<times> utext) option" where
  "p_string 0 t = None"
| "p_string (Suc n) [] = None"
| "p_string (Suc n) (c # t) =
     (if c = 34 then Some ([], t)
      else if c = 92 then
        (case t of
           [] \<Rightarrow> None
         | e # r \<Rightarrow>
             if e = 117 then
               (case hex4_val r of None \<Rightarrow> None
                | Some (u, r1) \<Rightarrow>
                    if 0xD800 \<le> u \<and> u \<le> 0xDBFF \<and> take 2 r1 = [92, 117] then
                      (case hex4_val (drop 2 r1) of None \<Rightarrow> None
                       | Some (u2, r2) \<Rightarrow>
                           if 0xDC00 \<le> u2 \<and> u2 \<le> 0xDFFF then
                             map_option (\<lambda>(s, r'). ((0x10000 + (u - 0xD800) * 1024 + (u2 - 0xDC00)) # s, r'))
                               (p_string n r2)
                           else map_option (\<lambda>(s, r'). (u # s, r')) (p_string n r1))
                    else map_option (\<lambda>(s, r'). (u # s, r')) (p_string n r1))
             else (case simple_escape e of None \<Rightarrow> None
                   | Some v \<Rightarrow> map_option (\<lambda>(s, r'). (v # s, r')) (p_string n r)))
      else if c < 32 then None
      else map_option (\<lambda>(s, r'). (c # s, r')) (p_string n t))"

definition j_digit :: "nat \<Rightarrow> bool" where "j_digit c = (48 \<le> c \<and> c \<le> 57)"

definition digits_val :: "utext \<Rightarrow> nat" where
  "digits_val ds = foldl (\<lambda>a d. a * 10 + (d - 48)) 0 ds"

definition decimal_float :: "int \<Rightarrow> int \<Rightarrow> pyfloat" where
  "decimal_float m e = (if 0 \<le> e then round53 (m * 10 ^ nat e) 0 else true_div m (10 ^ nat (- e)))"

definition p_number :: "utext \<Rightarrow> (json \<times> utext) option" where
  "p_number t =
     (let neg = (take 1 t = [45]); t1 = (if neg then tl t else t);
          ds = takeWhile j_digit t1;
          ip = (if take 1 ds = [48] then [48] else ds);
          t2 = drop (length ip) t1;
          fr = (if take 1 t2 = [46] then takeWhile j_digit (tl t2) else []);
          t3 = (if fr = [] then t2 else drop (Suc (length fr)) t2);
          ex0 = (if t3 \<noteq> [] \<and> (hd t3 = 101 \<or> hd t3 = 69) then tl t3 else []);
          sgn_len = (if ex0 \<noteq> [] \<and> (hd ex0 = 45 \<or> hd ex0 = 43) then 1 else 0);
          exd = takeWhile j_digit (drop sgn_len ex0);
          t4 = (if exd = [] then t3 else drop (1 + sgn_len + length exd) t3);
          s = (if neg then -1 else 1 :: int)
      in if ip = [] then None
         else if fr = [] \<and> exd = [] then Some (JInt (s * int (digits_val ip)), t2)
         else let e = (if take 1 ex0 = [45] then -1 else 1) * int (digits_val exd)
              in Some (JFloat (decimal_float (s * int (digits_val (ip @ fr))) (e - int (length fr))), t4))"

definition starts :: "string \<Rightarrow> utext \<Rightarrow> bool" where
  "starts w t = (take (length w) t = lit w)"

text \<open>A dict literal keeps the last value of a repeated key, at its first position.\<close>

fun dict_put :: "utext \<Rightarrow> json \<Rightarrow> (utext \<times> json) list \<Rightarrow> (utext \<times> json) list" where
  "dict_put k v [] = [(k, v)]"
| "dict_put k v ((k', v') # kvs) = (if k = k' then (k, v) # kvs else (k', v') # dict_put k v kvs)"

fun p_value :: "nat \<Rightarrow> utext \<Rightarrow> (json \<times> utext) option"
and p_elems :: "nat \<Rightarrow> json list \<Rightarrow> utext \<Rightarrow> (json \<times> utext) option"
and p_members :: "nat \<Rightarrow> (utext \<times> json) list \<Rightarrow> utext \<Rightarrow> (json \<times> utext) option"
where
  "p_value 0 t = None"
| "p_value (Suc n) t =
     (case t of
        [] \<Rightarrow> None
      | c # r \<Rightarrow>
          if c = 34 then map_option (\<lambda>(s, r'). (JStr s, r')) (p_string (Suc (length r)) r)
          else if c = 123 then
            (let r1 = skip_ws r in
             if take 1 r1 = [125] then Some (JObj [], tl r1) else p_members n [] r1)
          else if c = 91 then
            (let r1 = skip_ws r in
             if take 1 r1 = [93] then Some (JArr [], tl r1) else p_elems n [] r1)
          else if starts ''null'' t then Some (JNull, drop 4 t)
          else if starts ''true'' t then Some (JBool True, drop 4 t)
          else if starts ''false'' t then Some (JBool False, drop 5 t)
          else if starts ''NaN'' t then Some (JFloat NaN, drop 3 t)
          else if starts ''Infinity'' t then Some (JFloat (Inf False), drop 8 t)
          else if starts ''-Infinity'' t then Some (JFloat (Inf True), drop 9 t)
          else p_number t)"
| "p_elems 0 acc t = None"
| "p_elems (Suc n) acc t =
     (case p_value n t of None \<Rightarrow> None
      | Some (v, r) \<Rightarrow>
          (case skip_ws r of
             c # r1 \<Rightarrow>
               if c = 93 then Some (JArr (acc @ [v]), r1)
               else if c = 44 then p_elems n (acc @ [v]) (skip_ws r1)
               else None
           | [] \<Rightarrow> None))"
| "p_members 0 acc t = None"
| "p_members (Suc n) acc t =
     (case t of
        c # r \<Rightarrow>
          if c \<noteq> 34 then None
          else (case p_string (Suc (length r)) r of None \<Rightarrow> None
            | Some (k, r1) \<Rightarrow>
                (case skip_ws r1 of
                   c1 # r2 \<Rightarrow>
                     if c1 \<noteq> 58 then None
                     else (case p_value n (skip_ws r2) of None \<Rightarrow> None
                       | Some (v, r3) \<Rightarrow>
                           (case skip_ws r3 of
                              c2 # r4 \<Rightarrow>
                                if c2 = 125 then Some (JObj (dict_put k v acc), r4)
                                else if c2 = 44 then p_members n (dict_put k v acc) (skip_ws r4)
                                else None
                            | [] \<Rightarrow> None))
                 | [] \<Rightarrow> None))
      | [] \<Rightarrow> None)"

definition loads_text :: "utext \<Rightarrow> exn + json" where
  "loads_text t =
     (let t1 = skip_ws t in
      case p_value (2 * length t1 + 2) t1 of
        Some (v, r) \<Rightarrow> if skip_ws r = [] then Inr v else Inl JSONDecodeError
      | None \<Rightarrow> Inl JSONDecodeError)"

definition loads :: "bytes \<Rightarrow> exn + json" where
  "loads bs = (case utf8_decode True
       (if take 3 bs = [0xEF, 0xBB, 0xBF] then drop 3 bs else bs) of None \<Rightarrow> Inl UnicodeDecodeError | Some t \<Rightarrow> loads_text t)"

subsection \<open>Reading back plain strings and integers\<close>

definition plain_char :: "char \<Rightarrow> bool" where
  "plain_char c = (32 \<le> (of_char c :: nat) \<and> (of_char c :: nat) < 127 \<and> (of_char c :: nat) \<noteq> 34 \<and> (of_char c :: nat) \<noteq> 92)"

lemma dump_char_plain: "plain_char c \<Longrightarrow> dump_char (of_char c) = [c]"
  by (auto simp: dump_char_def plain_char_def)

lemma dump_str_plain: "list_all plain_char s \<Longrightarrow> dump_str (lit s) = CHR 0x22 # s @ [CHR 0x22]"
proof -
  assume "list_all plain_char s"
  then have "concat (map dump_char (lit s)) = s"
    by (induction s) (simp_all add: dump_char_plain)
  then show ?thesis by (simp add: dump_str_def)
qed

lemma p_string_plain:
  "list_all plain_char s \<Longrightarrow> length s < n \<Longrightarrow> p_string n (lit s @ 34 # r) = Some (lit s, r)"
proof (induction s arbitrary: n)
  case Nil
  then show ?case by (cases n) auto
next
  case (Cons c s)
  then obtain m where n: "n = Suc m" by (cases n) auto
  with Cons have "p_string m (lit s @ 34 # r) = Some (lit s, r)" by simp
  with n Cons.prems show ?case by (auto simp: plain_char_def)
qed

lemma skip_ws_keep [simp]: "t \<noteq> [] \<Longrightarrow> \<not> j_space (hd t) \<Longrightarrow> skip_ws t = t"
  by (simp add: skip_ws_def dropWhile_eq_self_iff)

text \<open>JSON text for examples, with a backquote for each double quote.\<close>

definition quoted :: "string \<Rightarrow> string" where
  "quoted s = map (\<lambda>c. if c = CHR 0x60 then CHR 0x22 else c) s"

end
