(* ===== verification/Json_Text.thy ===== *)
theory Json_Text
  imports Py_Json "HOL-Library.List_Lexorder" "HOL-Library.Multiset"
begin

section \<open>JSON text read back\<close>

text \<open>
  The parser undoes the printer on every value without floats whose strings hold no surrogates and
  whose objects have distinct keys, nested to any depth and printed with or without blanks after the
  separators.  The control messages of the broker are flat objects: members are strings or integers.
\<close>

definition scalar :: "nat \<Rightarrow> bool" where
  "scalar c = (c < 0x110000 \<and> \<not> (0xD800 \<le> c \<and> c \<le> 0xDFFF))"

fun flat :: "json \<Rightarrow> bool" where
  "flat (JStr s) = list_all scalar s"
| "flat (JInt i) = True"
| "flat _ = False"

subsection \<open>Strings\<close>

lemma scalar_ascii: "list_all scalar (lit s)"
proof -
  have "x < 256 \<Longrightarrow> scalar x" for x by (simp add: scalar_def)
  moreover have "(of_char c :: nat) < 256" for c :: char by simp
  ultimately have "scalar (of_char c)" for c :: char by blast
  then show ?thesis by (simp add: list_all_iff lit_def)
qed

text \<open>Strict UTF-8 yields no surrogates.\<close>

lemma utf8_step:
  assumes "utf8_decode False (b # bs) = Some t"
  shows "\<exists>c t' bs'. t = c # t' \<and> scalar c \<and> utf8_decode False bs' = Some t' \<and> length bs' \<le> length bs"
proof -
  define n where "n = unat b"
  have mod: "(x :: nat) mod 64 < 64" for x by simp
  consider "n < 0x80" | "\<not> n < 0x80" "0xC2 \<le> n \<and> n \<le> 0xDF" | "0xE0 \<le> n \<and> n \<le> 0xEF" | "0xF0 \<le> n \<and> n \<le> 0xF4"
    | "\<not> n < 0x80" "\<not> (0xC2 \<le> n \<and> n \<le> 0xDF)" "\<not> (0xE0 \<le> n \<and> n \<le> 0xEF)" "\<not> (0xF0 \<le> n \<and> n \<le> 0xF4)" by blast
  then show ?thesis
  proof cases
    case 1
    then show ?thesis using assms by (auto simp: Let_def n_def scalar_def)
  next
    case 2
    then obtain c1 r where "bs = c1 # r" "cont_byte c1" "map_option ((#) ((n - 0xC0) * 64 + unat c1 mod 64)) (utf8_decode False r) = Some t"
      using assms by (auto simp: Let_def n_def split: list.splits if_splits)
    moreover have "(n - 0xC0) * 64 + unat c1 mod 64 < 0x800" using 2 mod [of "unat c1"] by auto
    ultimately show ?thesis by (auto simp: scalar_def intro!: exI [of _ r])
  next
    case 3
    then have "\<not> n < 0x80" "\<not> (0xC2 \<le> n \<and> n \<le> 0xDF)" by auto
    with 3 obtain c1 c2 r v where v: "bs = c1 # c2 # r" "v = ((n - 0xE0) * 64 + unat c1 mod 64) * 64 + unat c2 mod 64"
      "\<not> (0xD800 \<le> v \<and> v \<le> 0xDFFF)" "map_option ((#) v) (utf8_decode False r) = Some t"
      using assms by (auto simp: Let_def n_def split: list.splits if_splits)
    then have "v < 0x10000" using 3 mod [of "unat c1"] mod [of "unat c2"] by auto
    with v show ?thesis by (auto simp: scalar_def intro!: exI [of _ r])
  next
    case 4
    then have "\<not> n < 0x80" "\<not> (0xC2 \<le> n \<and> n \<le> 0xDF)" "\<not> (0xE0 \<le> n \<and> n \<le> 0xEF)" by auto
    with 4 obtain c1 c2 c3 r v where v: "bs = c1 # c2 # c3 # r" "0x10000 \<le> v \<and> v \<le> 0x10FFFF"
      "map_option ((#) v) (utf8_decode False r) = Some t"
      using assms by (auto simp: Let_def n_def split: list.splits if_splits)
    then show ?thesis by (auto simp: scalar_def intro!: exI [of _ r])
  next
    case 5
    then have False using assms
      by (simp only: utf8_decode.simps Let_def n_def [symmetric] if_False option.distinct)
    then show ?thesis ..
  qed
qed

lemma utf8_scalar: "utf8_decode False bs = Some t \<Longrightarrow> list_all scalar t"
proof (induction bs arbitrary: t rule: length_induct)
  case (1 bs)
  show ?case
  proof (cases bs)
    case (Cons b r)
    then obtain c t' bs' where t: "t = c # t'" "scalar c" and r: "utf8_decode False bs' = Some t'" "length bs' < length bs"
      using utf8_step [of b r t] 1(2) by (auto simp: less_Suc_eq_le)
    then have "list_all scalar t'" using 1(1) by blast
    with t show ?thesis by simp
  qed (use 1 in simp)
qed

lemma of_char_digit: "d < 16 \<Longrightarrow> of_char (digit_char d) = (if d < 10 then 48 + d else 87 + d :: nat)"
  by (simp add: digit_char_def)

lemma hex_val_char: "d < 16 \<Longrightarrow> hex_val (of_char (digit_char d)) = Some d"
  by (auto simp: of_char_digit hex_val_def)

lemma hex4_val_hex4: "n < 65536 \<Longrightarrow> hex4_val (lit (hex4 n) @ r) = Some (n, r)"
proof -
  assume n: "n < 65536"
  have s: "x = x div 16 * 16 + x mod 16" for x :: nat by simp
  have top: "n div 4096 < 16" using n by (simp add: less_mult_imp_div_less)
  then have m: "n div 4096 mod 16 = n div 4096" by simp
  have "((n div 4096 * 16 + n div 256 mod 16) * 16 + n div 16 mod 16) * 16 + n mod 16 = n"
    using s [of n] s [of "n div 16"] s [of "n div 256"] by (simp add: div_mult2_eq [symmetric])
  then show ?thesis using top by (simp add: hex4_def hex4_val_def hex_val_char m)
qed

lemma p_string_escaped:
  "u < 65536 \<Longrightarrow> \<not> (0xD800 \<le> u \<and> u \<le> 0xDBFF) \<Longrightarrow>
     p_string (Suc n) (lit (bs_char # CHR ''u'' # hex4 u) @ r) = map_option (\<lambda>(s, r'). (u # s, r')) (p_string n r)"
  by (auto simp: bs_char_def hex4_val_hex4)

lemma p_string_pair:
  assumes "v < 0x100000"
  shows "p_string (Suc n) (lit (bs_char # CHR ''u'' # hex4 (0xD800 + v div 1024)
      @ bs_char # CHR ''u'' # hex4 (0xDC00 + v mod 1024)) @ r)
    = map_option (\<lambda>(s, r'). ((0x10000 + v) # s, r')) (p_string n r)"
proof -
  have "v div 1024 < 1024" using assms by (simp add: less_mult_imp_div_less)
  moreover have "v mod 1024 \<le> 1023" by (simp add: less_Suc_eq_le [symmetric])
  moreover have "v div 1024 * 1024 + v mod 1024 = v" by simp
  ultimately show ?thesis by (simp add: bs_char_def hex4_val_hex4 add.commute)
qed

lemma p_string_char:
  "scalar c \<Longrightarrow> p_string (Suc n) (lit (dump_char c) @ r) = map_option (\<lambda>(s, r'). (c # s, r')) (p_string n r)"
proof -
  assume c: "scalar c"
  consider "c \<in> {34, 92, 8, 12, 10, 13, 9}" | "32 \<le> c" "c < 127" "c \<noteq> 34" "c \<noteq> 92"
    | "c < 32 \<or> 127 \<le> c" "c \<notin> {8, 12, 10, 13, 9}" "c < 0x10000" | "0x10000 \<le> c" by force
  then show ?thesis
  proof cases
    case 1
    then show ?thesis by (auto simp: dump_char_def bs_char_def simple_escape_def)
  next
    case 2
    then have "dump_char c = [char_of c]" by (auto simp: dump_char_def)
    with 2 show ?thesis by simp
  next
    case 3
    then have d: "dump_char c = bs_char # CHR ''u'' # hex4 c" by (auto simp: dump_char_def)
    show ?thesis unfolding d using 3 c by (intro p_string_escaped) (auto simp: scalar_def)
  next
    case 4
    define v where "v = c - 0x10000"
    have d: "dump_char c = bs_char # CHR ''u'' # hex4 (0xD800 + v div 1024) @ bs_char # CHR ''u'' # hex4 (0xDC00 + v mod 1024)"
      using 4 by (simp add: dump_char_def v_def Let_def)
    have "v < 0x100000" "c = 0x10000 + v" using 4 c by (auto simp: scalar_def v_def)
    then show ?thesis unfolding d by (simp only: p_string_pair)
  qed
qed

lemma dump_char_nonempty: "dump_char c \<noteq> []"
  by (simp add: dump_char_def Let_def)

lemma p_string_dump:
  "list_all scalar s \<Longrightarrow> length s < n \<Longrightarrow> p_string n (lit (concat (map dump_char s)) @ 34 # r) = Some (s, r)"
proof (induction s arbitrary: n)
  case Nil
  then show ?case by (cases n) auto
next
  case (Cons c s)
  then obtain m where n: "n = Suc m" by (cases n) auto
  with Cons have "p_string m (lit (concat (map dump_char s)) @ 34 # r) = Some (s, r)" by simp
  moreover have "scalar c" using Cons.prems by simp
  ultimately show ?case by (simp add: n p_string_char del: p_string.simps)
qed

lemma length_dumped: "length s \<le> length (concat (map dump_char s))"
proof (induction s)
  case (Cons c s)
  then show ?case using dump_char_nonempty [of c] by (cases "dump_char c") auto
qed simp

lemma p_string_body:
  assumes "list_all scalar s"
  shows "p_string (Suc (length (lit (concat (map dump_char s)) @ 34 # r)))
     (lit (concat (map dump_char s)) @ 34 # r) = Some (s, r)"
  using assms length_dumped [of s] by (intro p_string_dump) simp_all

subsection \<open>Integers\<close>

lemma digits_val_snoc [simp]: "digits_val (ds @ [d]) = digits_val ds * 10 + (d - 48)"
  by (simp add: digits_val_def)

lemma digit_48: "j_digit (48 + n mod 10)"
proof -
  have "n mod 10 < 10" by simp
  then show ?thesis by (simp add: j_digit_def)
qed

lemma decimal_digits:
  "list_all j_digit (lit (base_digits 10 n)) \<and> digits_val (lit (base_digits 10 n)) = n
   \<and> (hd (lit (base_digits 10 n)) = 48 \<longrightarrow> n = 0)"
proof (induction n rule: less_induct)
  case (less n)
  show ?case
  proof (cases "n < 10")
    case True
    then show ?thesis by (simp add: base_digits.simps [of 10 n] of_char_digit j_digit_def digits_val_def)
  next
    case False
    then have IH: "list_all j_digit (lit (base_digits 10 (n div 10)))" "digits_val (lit (base_digits 10 (n div 10))) = n div 10"
      "hd (lit (base_digits 10 (n div 10))) = 48 \<longrightarrow> n div 10 = 0" using less [of "n div 10"] by simp_all
    have "lit (base_digits 10 (n div 10)) \<noteq> []" by (simp add: lit_def)
    moreover have "n div 10 \<noteq> 0" using False by simp
    ultimately show ?thesis using IH False
      by (simp add: base_digits.simps [of 10 n] of_char_digit digit_48 hd_append)
  qed
qed

definition ends_number :: "utext \<Rightarrow> bool" where
  "ends_number r = (r = [] \<or> \<not> j_digit (hd r) \<and> hd r \<notin> {46, 101, 69})"

lemma takeWhile_digits:
  "list_all j_digit ds \<Longrightarrow> r = [] \<or> \<not> j_digit (hd r) \<Longrightarrow> takeWhile j_digit (ds @ r) = ds"
  by (cases r) (auto simp: takeWhile_append list_all_iff)

lemma p_number_int:
  assumes "ends_number r"
  shows "p_number (lit (str_int i) @ r) = Some (JInt i, r)"
proof -
  define n where "n = nat \<bar>i\<bar>"
  define ds where "ds = lit (str_nat n)"
  have d: "list_all j_digit ds" "digits_val ds = n" "hd ds = 48 \<longrightarrow> n = 0" "ds \<noteq> []"
    using decimal_digits [of n] by (simp_all add: ds_def str_nat_def lit_def)
  have tw: "takeWhile j_digit (ds @ r) = ds"
    using d(1) assms by (intro takeWhile_digits) (auto simp: ends_number_def)
  have hd: "j_digit (hd ds)" using d by (cases ds) auto
  have ip: "(if take 1 ds = [48] then [48] else ds) = ds"
  proof (cases "take 1 ds = [48]")
    case True
    then have "n = 0" using d(3,4) by (cases ds) auto
    then show ?thesis by (simp add: ds_def str_nat_def base_digits.simps [of 10 0] of_char_digit)
  qed simp
  have rest: "take 1 r \<noteq> [46]" "\<not> (r \<noteq> [] \<and> (hd r = 101 \<or> hd r = 69))"
    using assms by (cases r; auto simp: ends_number_def)+
  have dr: "drop (length ds) (ds @ r) = r" by simp
  have no_exponent: "(if r \<noteq> [] \<and> (hd r = 101 \<or> hd r = 69) then tl r else []) = []"
    using rest(2) by (simp only: if_False)
  have fr: "(if take 1 r = [46] then takeWhile j_digit (tl r) else []) = []"
    "(if [] = ([] :: nat list) then r else x) = r" for x
    using rest(1) by simp_all
  show ?thesis
  proof (cases "i < 0")
    case True
    then have t: "lit (str_int i) @ r = 45 # ds @ r" by (simp add: str_int_def ds_def n_def)
    have neg: "(take 1 (45 # ds @ r) = [45]) = True" by simp
    show ?thesis using True d(4)
      unfolding t p_number_def Let_def neg if_True list.sel tw ip dr fr no_exponent
      by (simp add: d(2) n_def)
  next
    case False
    have neg: "(take 1 (ds @ r) = [45]) = False" using hd d(4) by (cases ds) (auto simp: j_digit_def)
    have t: "lit (str_int i) @ r = ds @ r" using False by (simp add: str_int_def ds_def n_def)
    show ?thesis using False d(4)
      unfolding t p_number_def Let_def neg if_False tw ip dr fr no_exponent
      by (simp add: d(2) n_def)
  qed
qed

subsection \<open>Flat objects\<close>

fun flat_text :: "json \<Rightarrow> string" where
  "flat_text (JStr s) = dump_str s"
| "flat_text (JInt i) = str_int i"
| "flat_text _ = []"

lemma dumps_flat: "flat v \<Longrightarrow> dumps v = Some (flat_text v)"
  by (cases v) auto

lemma p_value_flat:
  assumes "flat v" "ends_number r"
  shows "p_value (Suc n) (lit (flat_text v) @ r) = Some (v, r)"
proof (cases v)
  case (JStr s)
  then show ?thesis using assms(1) p_string_body [of s r] by (simp add: dump_str_def del: p_string.simps)
next
  case (JInt i)
  obtain c t where t: "lit (str_int i) @ r = c # t" and c: "j_digit c \<or> c = 45" and m: "c = 45 \<longrightarrow> t \<noteq> [] \<and> j_digit (hd t)"
  proof -
    have d: "list_all j_digit (lit (str_nat k))" "lit (str_nat k) \<noteq> []" for k
      using decimal_digits [of k] by (simp_all add: str_nat_def lit_def)
    show ?thesis
    proof (cases "i < 0")
      case True
      then show ?thesis using d [of "nat (- i)"] that [of 45 "lit (str_nat (nat (- i))) @ r"]
        by (cases "lit (str_nat (nat (- i)))") (auto simp: str_int_def)
    next
      case False
      then show ?thesis using d [of "nat i"] that
        by (cases "lit (str_nat (nat i))") (auto simp: str_int_def j_digit_def)
    qed
  qed
  have "p_number (c # t) = Some (JInt i, r)" using p_number_int [OF assms(2), of i] by (simp add: t)
  moreover have "c \<notin> {34, 123, 91, 110, 116, 102, 78, 73}" using c by (auto simp: j_digit_def)
  moreover have "\<not> starts ''-Infinity'' (c # t)" using m by (cases t) (auto simp: starts_def j_digit_def)
  ultimately show ?thesis by (simp add: JInt t starts_def)
qed (use assms in auto)

subsection \<open>Any value without floats\<close>

lemma dict_put_fresh: "k \<notin> fst ` set acc \<Longrightarrow> dict_put k v acc = acc @ [(k, v)]"
  by (induction acc) auto

lemma join_more: "join s (x # map f xs) = x @ (if xs = [] then [] else s @ join s (map f xs))"
  by (cases xs) simp_all

fun printable :: "json \<Rightarrow> bool" where
  "printable (JFloat f) = False"
| "printable (JStr s) = list_all scalar s"
| "printable (JArr xs) = list_all printable xs"
| "printable (JObj kvs) = (distinct (map fst kvs) \<and> list_all (\<lambda>(k, v). list_all scalar k \<and> printable v) kvs)"
| "printable _ = True"

fun json_text :: "string \<Rightarrow> string \<Rightarrow> json \<Rightarrow> string" where
  "json_text is ks JNull = ''null''"
| "json_text is ks (JBool b) = (if b then ''true'' else ''false'')"
| "json_text is ks (JInt i) = str_int i"
| "json_text is ks (JFloat f) = []"
| "json_text is ks (JStr s) = dump_str s"
| "json_text is ks (JArr xs) = ''['' @ join is (map (json_text is ks) xs) @ '']''"
| "json_text is ks (JObj kvs) =
     ''{'' @ join is (map (\<lambda>(k, v). dump_str k @ ks @ json_text is ks v) kvs) @ ''}''"

definition separators :: "string \<Rightarrow> string \<Rightarrow> bool" where
  "separators is ks \<longleftrightarrow> take 1 (lit is) = [44] \<and> list_all j_space (tl (lit is))
     \<and> take 1 (lit ks) = [58] \<and> list_all j_space (tl (lit ks))"

lemma skip_ws_spaces: "list_all j_space a \<Longrightarrow> skip_ws (a @ t) = skip_ws t"
  unfolding skip_ws_def by (induction a) auto

lemma p_value_nonempty: "p_value n t = Some x \<Longrightarrow> t \<noteq> []"
  by (cases n) auto

text \<open>The first character of a printed value.\<close>

lemma json_text_first:
  "printable v \<Longrightarrow> \<exists>c t. lit (json_text is ks v) = c # t \<and> \<not> j_space c \<and> c \<notin> {44, 93, 125}"
proof (cases v)
  case (JInt i)
  have d: "list_all j_digit (lit (str_nat q)) \<and> lit (str_nat q) \<noteq> []" for q
    using decimal_digits [of q] by (simp add: str_nat_def lit_def)
  then show ?thesis using d [of "nat i"] unfolding JInt
    by (cases "lit (str_nat (nat i))") (auto simp: str_int_def j_space_def j_digit_def)
qed (auto simp: j_space_def dump_str_def)

lemma skip_ws_text: "printable v \<Longrightarrow> skip_ws (lit (json_text is ks v) @ r) = lit (json_text is ks v) @ r"
  using json_text_first [of v "is" ks] by auto

lemma p_elems_text:
  assumes "separators is ks" "\<And>x n r. x \<in> set xs \<Longrightarrow> ends_number r \<Longrightarrow> length (json_text is ks x) \<le> n \<Longrightarrow>
      p_value n (lit (json_text is ks x) @ r) = Some (x, r)"
    and "list_all printable xs" "xs \<noteq> []" "length (join is (map (json_text is ks) xs)) < n"
  shows "p_elems n acc (lit (join is (map (json_text is ks) xs)) @ 93 # r) = Some (JArr (acc @ xs), r)"
  using assms(2-)
proof (induction xs arbitrary: n acc)
  case (Cons x xs)
  obtain m where n: "n = Suc m" using Cons.prems(4) by (cases n) auto
  obtain sp where sep: "lit is = 44 # sp" "list_all j_space sp"
    using assms(1) by (cases "lit is") (auto simp: separators_def)
  have len: "length is = Suc (length sp)" using sep(1) by (metis length_Cons length_lit)
  show ?case
  proof (cases "xs = []")
    case True
    have "p_value m (lit (json_text is ks x) @ 93 # r) = Some (x, 93 # r)"
      using Cons.prems(4) True n by (intro Cons.prems(1)) (simp_all add: ends_number_def j_digit_def)
    then show ?thesis using True by (simp add: n j_space_def)
  next
    case False
    let ?rest = "lit (join is (map (json_text is ks) xs)) @ 93 # r"
    have m: "length (json_text is ks x) \<le> m" "length (join is (map (json_text is ks) xs)) < m"
      using Cons.prems(4) False by (simp_all add: n join_more len)
    have "p_value m (lit (json_text is ks x) @ 44 # sp @ ?rest) = Some (x, 44 # sp @ ?rest)"
      using m(1) by (intro Cons.prems(1)) (simp_all add: ends_number_def j_digit_def)
    moreover have "skip_ws (sp @ ?rest) = ?rest"
    proof -
      obtain y ys where ys: "xs = y # ys" using False by (cases xs) auto
      have "printable y" using Cons.prems(2) ys by simp
      from skip_ws_text [OF this] show ?thesis using sep(2) by (simp add: skip_ws_spaces ys join_more)
    qed
    moreover have "p_elems m (acc @ [x]) ?rest = Some (JArr ((acc @ [x]) @ xs), r)"
      using Cons.prems False m(2) by (intro Cons.IH) auto
    ultimately show ?thesis using False by (simp add: n join_more sep(1) j_space_def)
  qed
qed simp

lemma p_members_text:
  assumes "separators is ks" "\<And>x n r. x \<in> snd ` set kvs \<Longrightarrow> ends_number r \<Longrightarrow> length (json_text is ks x) \<le> n \<Longrightarrow>
      p_value n (lit (json_text is ks x) @ r) = Some (x, r)"
    and "list_all (\<lambda>(k, v). list_all scalar k \<and> printable v) kvs" "distinct (map fst (acc @ kvs))" "kvs \<noteq> []"
    and "length (join is (map (\<lambda>(k, v). dump_str k @ ks @ json_text is ks v) kvs)) < n"
  shows "p_members n acc (lit (join is (map (\<lambda>(k, v). dump_str k @ ks @ json_text is ks v) kvs)) @ 125 # r)
    = Some (JObj (acc @ kvs), r)"
  using assms(2-)
proof (induction kvs arbitrary: n acc)
  case (Cons kv kvs)
  obtain k x where kv: "kv = (k, x)" by (cases kv)
  obtain m where n: "n = Suc m" using Cons.prems(5) by (cases n) auto
  obtain sp where sep: "lit is = 44 # sp" "list_all j_space sp"
    using assms(1) by (cases "lit is") (auto simp: separators_def)
  obtain kp where key: "lit ks = 58 # kp" "list_all j_space kp"
    using assms(1) by (cases "lit ks") (auto simp: separators_def)
  have len: "length is = Suc (length sp)" using sep(1) by (metis length_Cons length_lit)
  have f: "list_all scalar k" "printable x" using Cons.prems(2) by (simp_all add: kv)
  have fresh: "dict_put k x acc = acc @ [(k, x)]" using Cons.prems(3) by (intro dict_put_fresh) (auto simp: kv)
  let ?join = "\<lambda>kvs. lit (join is (map (\<lambda>(k, v). dump_str k @ ks @ json_text is ks v) kvs)) @ 125 # r"
  define c where "c = (if kvs = [] then 125 else 44 :: nat)"
  define rest where "rest = (if kvs = [] then r else sp @ ?join kvs)"
  define tail where "tail = lit (json_text is ks x) @ c # rest"
  have shape: "?join (kv # kvs) = 34 # lit (concat (map dump_char k)) @ 34 # 58 # kp @ tail"
    by (cases "kvs = []") (simp_all add: join_more kv dump_str_def key(1) sep(1) tail_def c_def rest_def)
  have "p_value m tail = Some (x, c # rest)"
    unfolding tail_def using Cons.prems(5)
    by (intro Cons.prems(1)) (simp_all add: kv n join_more ends_number_def j_digit_def c_def)
  moreover have "skip_ws (kp @ tail) = tail"
    using skip_ws_text [OF f(2)] by (simp add: skip_ws_spaces key(2) tail_def)
  moreover note p_string_body [OF f(1), of "58 # kp @ tail"]
  ultimately have step: "p_members n acc (?join (kv # kvs)) =
      (if c = 125 then Some (JObj (acc @ [(k, x)]), rest) else p_members m (acc @ [(k, x)]) (skip_ws rest))"
    unfolding shape n by (simp add: fresh c_def j_space_def del: p_string.simps p_value.simps)
  show ?case
  proof (cases "kvs = []")
    case True
    then show ?thesis unfolding step by (simp add: c_def rest_def kv)
  next
    case False
    have "p_members m (acc @ [(k, x)]) (?join kvs) = Some (JObj ((acc @ [(k, x)]) @ kvs), r)"
      using Cons.prems False by (intro Cons.IH) (auto simp: kv n join_more len)
    moreover have "skip_ws rest = ?join kvs"
      using False sep(2) by (cases kvs) (auto simp: rest_def skip_ws_spaces join_more dump_str_def j_space_def)
    ultimately show ?thesis using False unfolding step by (simp add: c_def kv)
  qed
qed simp

lemma p_value_text:
  assumes "separators is ks"
  shows "printable v \<Longrightarrow> ends_number r \<Longrightarrow> length (json_text is ks v) \<le> n \<Longrightarrow>
    p_value n (lit (json_text is ks v) @ r) = Some (v, r)"
proof (induction v arbitrary: n r)
  case JNull
  then show ?case by (cases n) (simp_all add: starts_def)
next
  case (JBool b)
  then show ?case by (cases n; cases b) (simp_all add: starts_def)
next
  case (JInt i)
  then obtain m where n: "n = Suc m" using json_text_first [of "JInt i" "is" ks] by (cases n) auto
  show ?case using p_value_flat [of "JInt i" r m] JInt by (simp add: n)
next
  case (JStr s)
  then obtain m where n: "n = Suc m" by (cases n) (auto simp: dump_str_def)
  show ?case using p_value_flat [of "JStr s" r m] JStr by (simp add: n)
next
  case (JArr xs)
  then obtain m where n: "n = Suc m" by (cases n) auto
  show ?case
  proof (cases "xs = []")
    case True
    then show ?thesis by (simp add: n starts_def j_space_def)
  next
    case False
    then obtain y ys where ys: "xs = y # ys" by (cases xs) auto
    let ?t = "lit (join is (map (json_text is ks) xs)) @ 93 # r"
    have y: "printable y" using JArr.prems(1) ys by simp
    have "\<exists>c u. ?t = c # u \<and> \<not> j_space c \<and> c \<notin> {44, 93, 125}"
      using json_text_first [OF y, of "is" ks] by (auto simp: ys join_more)
    then obtain c u where t: "?t = c # u" "\<not> j_space c" "c \<noteq> 93" by blast
    have "p_elems m [] ?t = Some (JArr ([] @ xs), r)"
      using JArr False n by (intro p_elems_text [OF assms]) (auto simp: list_all_iff)
    then have "p_elems m [] (c # u) = Some (JArr xs, r)" unfolding t(1) by simp
    moreover have "lit (json_text is ks (JArr xs)) @ r = 91 # c # u" using t(1) by simp
    ultimately show ?thesis using t(2,3) by (simp add: n del: json_text.simps)
  qed
next
  case (JObj kvs)
  then obtain m where n: "n = Suc m" by (cases n) auto
  show ?case
  proof (cases "kvs = []")
    case True
    then show ?thesis by (simp add: n starts_def j_space_def)
  next
    case False
    let ?t = "lit (join is (map (\<lambda>(k, v). dump_str k @ ks @ json_text is ks v) kvs)) @ 125 # r"
    obtain u where t: "?t = 34 # u" using False by (cases kvs) (auto simp: join_more dump_str_def)
    have "p_members m [] ?t = Some (JObj ([] @ kvs), r)"
      using JObj False n by (intro p_members_text [OF assms]) (auto simp: list_all_iff)
    then have "p_members m [] (34 # u) = Some (JObj kvs, r)" unfolding t(1) by simp
    moreover have "lit (json_text is ks (JObj kvs)) @ r = 123 # 34 # u" using t(1) by simp
    ultimately show ?thesis by (simp add: n j_space_def del: json_text.simps p_members.simps)
  qed
qed simp

text \<open>Reading back any printable value, whichever blanks the separators have.\<close>

lemma loads_text_json:
  assumes "printable v" "separators is ks"
  shows "loads_text (lit (json_text is ks v)) = Inr v"
proof -
  have "p_value (2 * length (lit (json_text is ks v)) + 2) (lit (json_text is ks v) @ []) = Some (v, [])"
    using assms by (intro p_value_text) (simp_all add: ends_number_def)
  moreover have "skip_ws (lit (json_text is ks v)) = lit (json_text is ks v)"
    using skip_ws_text [OF assms(1), of "is" ks "[]"] by simp
  ultimately show ?thesis by (simp add: loads_text_def skip_ws_def del: p_value.simps)
qed

lemma those_Some: "those (map (\<lambda>x. Some (f x)) xs) = Some (map f xs)"
  by (induction xs) auto

lemma dumps_printable: "printable v \<Longrightarrow> dumps v = Some (json_text '','' '':'' v)"
proof (induction v)
  case (JArr xs)
  then have "map dumps xs = map (\<lambda>x. Some (json_text '','' '':'' x)) xs" by (auto simp: list_all_iff)
  then show ?case unfolding dumps.simps by (simp only: those_Some) simp
next
  case (JObj kvs)
  then have "map (\<lambda>(k, v). map_option (\<lambda>d. dump_str k @ '':'' @ d) (dumps v)) kvs
      = map (\<lambda>x. Some ((\<lambda>(k, v). dump_str k @ '':'' @ json_text '','' '':'' v) x)) kvs"
    by (auto simp: list_all_iff)
  then show ?case unfolding dumps.simps by (simp only: those_Some) simp
qed simp_all


text \<open>Sorted by key, an object holds the same members.\<close>

lemma distinct_sort_members: "distinct (map fst kvs) \<Longrightarrow> distinct (map fst (sort_key fst kvs))"
proof -
  have "mset (map fst (sort_key fst kvs)) = mset (map fst kvs)" by (simp only: mset_map mset_sort)
  then show "distinct (map fst kvs) \<Longrightarrow> ?thesis" using mset_eq_imp_distinct_iff by metis
qed

lemma map_of_sort: "distinct (map fst kvs) \<Longrightarrow> map_of (sort_key fst kvs) = map_of kvs"
  by (simp add: map_of_inject_set distinct_sort_members)

lemma printable_sorted:
  "distinct (map fst kvs) \<Longrightarrow> list_all (\<lambda>(k, v). list_all scalar k \<and> printable v) kvs \<Longrightarrow> printable (JObj (sort_key fst kvs))"
  by (simp add: distinct_sort_members list_all_iff)

subsection \<open>Printed values are plain text\<close>

definition plain_text :: "string \<Rightarrow> bool" where
  "plain_text s = list_all (\<lambda>c. 32 \<le> (of_char c :: nat) \<and> of_char c < (127 :: nat)) s"

lemma plain_text_simps [simp]:
  "plain_text []" "plain_text (c # s) \<longleftrightarrow> (32 \<le> (of_char c :: nat) \<and> of_char c < (127 :: nat)) \<and> plain_text s"
  "plain_text (s @ t) \<longleftrightarrow> plain_text s \<and> plain_text t"
  by (simp_all add: plain_text_def)

lemma plain_text_concat: "(\<And>s. s \<in> set ss \<Longrightarrow> plain_text s) \<Longrightarrow> plain_text (concat ss)"
  by (induction ss) simp_all

lemma plain_text_join: "plain_text sep \<Longrightarrow> (\<And>s. s \<in> set ss \<Longrightarrow> plain_text s) \<Longrightarrow> plain_text (join sep ss)"
  by (induction sep ss rule: join.induct) simp_all

lemma plain_digit: "d < 16 \<Longrightarrow> 32 \<le> (of_char (digit_char d) :: nat) \<and> of_char (digit_char d) < (127 :: nat)"
  by (simp add: of_char_digit)

lemma plain_text_hex4: "plain_text (hex4 n)"
  by (simp add: hex4_def plain_digit [of "_ mod 16"])

lemma plain_text_dump_char: "plain_text (dump_char c)"
proof -
  have "32 \<le> (of_char (char_of c) :: nat) \<and> of_char (char_of c) < (127 :: nat)" if "32 \<le> c" "c < 127" using that by simp
  then show ?thesis by (simp add: dump_char_def Let_def bs_char_def plain_text_hex4 del: of_char_of)
qed

lemma plain_text_dump_str: "plain_text (dump_str s)"
  by (auto simp: dump_str_def plain_text_dump_char intro!: plain_text_concat)

lemma plain_text_base_digits: "plain_text (base_digits 10 n)"
proof (induction n rule: less_induct)
  case (less n)
  have "n mod 10 < 16" using mod_less_divisor [of 10 n] by linarith
  from plain_digit [OF this] less show ?case by (subst base_digits.simps) (simp add: plain_digit)
qed

lemma plain_text_str_int: "plain_text (str_int i)"
  by (simp add: str_int_def str_nat_def plain_text_base_digits)

lemma plain_text_json: "plain_text is \<Longrightarrow> plain_text ks \<Longrightarrow> plain_text (json_text is ks v)"
proof (induction v)
  case (JArr xs)
  then show ?case by (auto intro!: plain_text_join)
next
  case (JObj kvs)
  then show ?case by (auto intro!: plain_text_join simp: plain_text_dump_str)
qed (simp_all add: plain_text_str_int plain_text_dump_str)

subsection \<open>Whole payloads\<close>

text \<open>What \<open>json.loads\<close> reads from the bytes of a printed value is that value.\<close>

lemma loads_json:
  assumes "printable v" "separators is ks" "plain_text is" "plain_text ks"
  shows "loads (ascii (json_text is ks v)) = Inr v"
proof -
  let ?d = "json_text is ks v"
  have p: "plain_text ?d" by (intro plain_text_json assms)
  then have "\<forall>c\<in>set ?d. of_char c < (128 :: nat)" by (auto simp: plain_text_def list_all_iff)
  then have "utf8_decode True (ascii ?d) = Some (lit ?d)" by (simp add: utf8_decode_ascii list_all_iff)
  moreover have "take 3 (ascii ?d) \<noteq> [0xEF, 0xBB, 0xBF]"
  proof (cases ?d)
    case (Cons c u)
    then have "(of_char c :: nat) \<noteq> 0xEF" using p by auto
    then have "(of_char c :: byte) \<noteq> 0xEF"
      using unat_of_char [of c] by (auto simp del: unat_of_char)
    then show ?thesis using Cons by simp
  qed simp
  ultimately show ?thesis using loads_text_json [OF assms(1,2)] by (simp add: loads_def)
qed

subsection \<open>Flat objects\<close>

definition member_text :: "utext \<times> json \<Rightarrow> string" where
  "member_text kv = dump_str (fst kv) @ '':'' @ flat_text (snd kv)"

definition flat_members :: "(utext \<times> json) list \<Rightarrow> bool" where
  "flat_members kvs \<longleftrightarrow> list_all (\<lambda>(k, v). list_all scalar k \<and> flat v) kvs"

lemma flat_printable: "flat v \<Longrightarrow> printable v \<and> json_text '','' '':'' v = flat_text v"
  by (cases v) auto

lemma flat_members_printable: "flat_members kvs \<Longrightarrow> distinct (map fst kvs) \<Longrightarrow> printable (JObj kvs)"
  by (auto simp: flat_members_def list_all_iff flat_printable)

lemma dumps_flat_object:
  "flat_members kvs \<Longrightarrow> dumps (JObj kvs) = Some (''{'' @ join '','' (map member_text kvs) @ ''}'')"
proof -
  assume "flat_members kvs"
  then have m: "map (\<lambda>(k, v). map_option (\<lambda>d. dump_str k @ '':'' @ d) (dumps v)) kvs = map (Some \<circ> member_text) kvs"
    by (auto simp: flat_members_def list_all_iff dumps_flat member_text_def)
  have "those (map (Some \<circ> f) xs) = Some (map f xs)" for f :: "utext \<times> json \<Rightarrow> string" and xs
    by (induction xs) auto
  then show ?thesis unfolding dumps.simps m by simp
qed

lemma loads_flat:
  assumes "flat_members kvs" "distinct (map fst kvs)" "dumps (JObj kvs) = Some d"
  shows "loads (ascii d) = Inr (JObj kvs)"
proof -
  note p = flat_members_printable [OF assms(1,2)]
  have "d = json_text '','' '':'' (JObj kvs)" using dumps_printable [OF p] assms(3) by (simp del: dumps.simps json_text.simps)
  then show ?thesis using loads_json [OF p, of "'',''" "'':''"] by (simp add: separators_def)
qed

end
