(* ===== verification/Py_Regex.thy ===== *)
theory Py_Regex
  imports Sim_Prelude
begin

section \<open>Regular expressions\<close>

text \<open>
  \<open>re.fullmatch\<close> for the patterns of the broker: character classes, sequence, alternatives and
  repetition, matched by derivatives, with the language each expression denotes.  A class is a
  list of ranges of code points.
\<close>

datatype rx =
    RNone
  | REps
  | RClass "(nat \<times> nat) list"
  | RSeq rx rx
  | RAlt rx rx
  | RStar rx

definition in_class :: "(nat \<times> nat) list \<Rightarrow> nat \<Rightarrow> bool" where
  "in_class rs c = list_ex (\<lambda>(a, b). a \<le> c \<and> c \<le> b) rs"

fun nullable :: "rx \<Rightarrow> bool" where
  "nullable RNone = False"
| "nullable REps = True"
| "nullable (RClass rs) = False"
| "nullable (RSeq r s) = (nullable r \<and> nullable s)"
| "nullable (RAlt r s) = (nullable r \<or> nullable s)"
| "nullable (RStar r) = True"

text \<open>Sequence and alternative without dead branches, so that derivatives stay small.\<close>

fun rseq :: "rx \<Rightarrow> rx \<Rightarrow> rx" where
  "rseq RNone s = RNone"
| "rseq REps s = s"
| "rseq r s = (if s = RNone then RNone else RSeq r s)"

fun ralt :: "rx \<Rightarrow> rx \<Rightarrow> rx" where
  "ralt RNone s = s"
| "ralt r s = (if s = RNone then r else RAlt r s)"

fun deriv :: "nat \<Rightarrow> rx \<Rightarrow> rx" where
  "deriv c RNone = RNone"
| "deriv c REps = RNone"
| "deriv c (RClass rs) = (if in_class rs c then REps else RNone)"
| "deriv c (RSeq r s) = (if nullable r then ralt (rseq (deriv c r) s) (deriv c s) else rseq (deriv c r) s)"
| "deriv c (RAlt r s) = ralt (deriv c r) (deriv c s)"
| "deriv c (RStar r) = rseq (deriv c r) (RStar r)"

fun fullmatch :: "rx \<Rightarrow> utext \<Rightarrow> bool" where
  "fullmatch r [] = nullable r"
| "fullmatch r (c # cs) = fullmatch (deriv c r) cs"

subsection \<open>The language of an expression\<close>

inductive_set star :: "utext set \<Rightarrow> utext set" for A where
  star_Nil: "[] \<in> star A"
| star_Cons: "u \<in> A \<Longrightarrow> u \<noteq> [] \<Longrightarrow> v \<in> star A \<Longrightarrow> u @ v \<in> star A"

fun lang :: "rx \<Rightarrow> utext set" where
  "lang RNone = {}"
| "lang REps = {[]}"
| "lang (RClass rs) = {[c] |c. in_class rs c}"
| "lang (RSeq r s) = {u @ v |u v. u \<in> lang r \<and> v \<in> lang s}"
| "lang (RAlt r s) = lang r \<union> lang s"
| "lang (RStar r) = star (lang r)"

lemma lang_seq: "t \<in> lang (RSeq r s) \<longleftrightarrow> (\<exists>u v. t = u @ v \<and> u \<in> lang r \<and> v \<in> lang s)"
  by auto

lemma lang_seq_class: "t \<in> lang (RSeq (RClass rs) s) \<longleftrightarrow> (\<exists>c v. t = c # v \<and> in_class rs c \<and> v \<in> lang s)"
  unfolding lang_seq by (auto intro: exI [of _ "[_]"])

lemma lang_smart [simp]:
  "lang (rseq r s) = lang (RSeq r s)" "lang (ralt r s) = lang (RAlt r s)"
  by (cases r; auto)+

lemma nullable_lang: "nullable r \<longleftrightarrow> [] \<in> lang r"
  by (induction r) (auto intro: star_Nil)

lemma star_hd: "c # v \<in> star A \<longleftrightarrow> (\<exists>u w. c # u \<in> A \<and> w \<in> star A \<and> v = u @ w)"
proof
  assume "c # v \<in> star A"
  then show "\<exists>u w. c # u \<in> A \<and> w \<in> star A \<and> v = u @ w"
    by cases (metis Cons_eq_append_conv)
next
  assume "\<exists>u w. c # u \<in> A \<and> w \<in> star A \<and> v = u @ w"
  then obtain u w where "c # u \<in> A" "w \<in> star A" "v = u @ w" by blast
  then show "c # v \<in> star A" using star_Cons [of "c # u" A w] by simp
qed

lemma deriv_lang: "v \<in> lang (deriv c r) \<longleftrightarrow> c # v \<in> lang r"
proof (induction r arbitrary: v)
  case (RSeq r s)
  show ?case
  proof
    assume "v \<in> lang (deriv c (RSeq r s))"
    then consider u w where "v = u @ w" "c # u \<in> lang r" "w \<in> lang s" | "[] \<in> lang r" "c # v \<in> lang s"
      by (auto simp: RSeq.IH nullable_lang split: if_splits)
    then show "c # v \<in> lang (RSeq r s)"
    proof cases
      case 1
      then have "c # v = (c # u) @ w" by simp
      with 1 show ?thesis by (simp only: lang_seq) blast
    next
      case 2
      then show ?thesis by (simp only: lang_seq) (metis append_Nil)
    qed
  next
    assume "c # v \<in> lang (RSeq r s)"
    then obtain a b where "c # v = a @ b" "a \<in> lang r" "b \<in> lang s" by auto
    then show "v \<in> lang (deriv c (RSeq r s))"
      by (cases a) (auto simp: RSeq.IH nullable_lang)
  qed
next
  case (RStar r)
  then show ?case by (auto simp: star_hd)
qed auto

lemma fullmatch_lang: "fullmatch r t \<longleftrightarrow> t \<in> lang r"
  by (induction t arbitrary: r) (simp_all add: nullable_lang deriv_lang)

subsection \<open>Repetition\<close>

fun rtimes :: "nat \<Rightarrow> rx \<Rightarrow> rx" where
  "rtimes 0 r = REps"
| "rtimes (Suc n) r = RSeq r (rtimes n r)"

fun rupto :: "nat \<Rightarrow> rx \<Rightarrow> rx" where
  "rupto 0 r = REps"
| "rupto (Suc n) r = RAlt REps (RSeq r (rupto n r))"

fun rlit :: "string \<Rightarrow> rx" where
  "rlit [] = REps"
| "rlit (c # s) = RSeq (RClass [(of_char c, of_char c)]) (rlit s)"

definition rchars :: "string \<Rightarrow> (nat \<times> nat) list" where
  "rchars s = map (\<lambda>c. (of_char c, of_char c)) s"

lemma lang_rtimes: "t \<in> lang (rtimes n (RClass rs)) \<longleftrightarrow> length t = n \<and> list_all (in_class rs) t"
proof (induction n arbitrary: t)
  case 0
  then show ?case by auto
next
  case (Suc n)
  then show ?case by (cases t) (simp_all only: rtimes.simps lang_seq_class, auto)
qed

lemma lang_rupto: "t \<in> lang (rupto n (RClass rs)) \<longleftrightarrow> length t \<le> n \<and> list_all (in_class rs) t"
proof (induction n arbitrary: t)
  case 0
  then show ?case by auto
next
  case (Suc n)
  then show ?case by (cases t) (simp_all only: rupto.simps lang.simps(5) Un_iff lang_seq_class, auto)
qed

lemma lang_rlit: "t \<in> lang (rlit s) \<longleftrightarrow> t = lit s"
proof (induction s arbitrary: t)
  case Nil
  then show ?case by auto
next
  case (Cons c s)
  show ?case by (simp only: rlit.simps lang_seq_class Cons.IH) (auto simp: in_class_def)
qed

lemma star_single:
  assumes "\<And>u. u \<in> A \<Longrightarrow> length u = 1"
  shows "c # t \<in> star A \<longleftrightarrow> [c] \<in> A \<and> t \<in> star A"
proof
  assume "c # t \<in> star A"
  then obtain u w where u: "c # u \<in> A" "w \<in> star A" "t = u @ w"
    using star_hd [THEN iffD1] by metis
  moreover have "u = []" using assms [OF u(1)] by simp
  ultimately show "[c] \<in> A \<and> t \<in> star A" by simp
next
  assume "[c] \<in> A \<and> t \<in> star A"
  then have "[c] @ t \<in> star A" by (intro star_Cons) simp_all
  then show "c # t \<in> star A" by simp
qed

lemma lang_star_class: "t \<in> lang (RStar (RClass rs)) \<longleftrightarrow> list_all (in_class rs) t"
proof (induction t)
  case Nil
  show ?case by (simp add: star_Nil)
next
  case (Cons c t)
  have "c # t \<in> lang (RStar (RClass rs)) \<longleftrightarrow> in_class rs c \<and> t \<in> lang (RStar (RClass rs))"
    unfolding lang.simps(6) by (subst star_single) auto
  then show ?case using Cons.IH by (simp del: lang.simps)
qed

end
