(* ===== verification/Sim_Monad.thy ===== *)
theory Sim_Monad
  imports Py_Values
begin

section \<open>State and exceptions\<close>

text \<open>
  Code that changes state and may raise is a function from a state to a result and the state it
  leaves: state changes made before an exception stay, as in Python.  \<open>catching\<close> is
  \<open>try/except\<close> (the handler re-raises what it does not catch), \<open>finalizing\<close> is \<open>try/finally\<close>.
  \<open>keeps I m\<close> says that \<open>m\<close> leads from states with \<open>I\<close> to states with \<open>I\<close>, on return and on
  every exception; its rules are collected in \<open>keeps_intro\<close>.
\<close>

type_synonym ('s, 'a) act = "'s \<Rightarrow> (exn + 'a) \<times> 's"

definition ok :: "'a \<Rightarrow> ('s, 'a) act" where
  "ok x s = (Inr x, s)"

definition throw :: "exn \<Rightarrow> ('s, 'a) act" where
  "throw e s = (Inl e, s)"

definition bind :: "('s, 'a) act \<Rightarrow> ('a \<Rightarrow> ('s, 'b) act) \<Rightarrow> ('s, 'b) act" where
  "bind m f s = (case m s of (Inl e, t) \<Rightarrow> (Inl e, t) | (Inr x, t) \<Rightarrow> f x t)"

definition andthen :: "('s, 'a) act \<Rightarrow> ('s, 'b) act \<Rightarrow> ('s, 'b) act" where
  "andthen m k = bind m (\<lambda>_. k)"

definition gets :: "('s \<Rightarrow> 'a) \<Rightarrow> ('s, 'a) act" where
  "gets f s = (Inr (f s), s)"

definition modify :: "('s \<Rightarrow> 's) \<Rightarrow> ('s, unit) act" where
  "modify f s = (Inr (), f s)"

definition lift_sum :: "exn + 'a \<Rightarrow> ('s, 'a) act" where
  "lift_sum r s = (r, s)"

definition unless_raise :: "bool \<Rightarrow> exn \<Rightarrow> ('s, unit) act" where
  "unless_raise b e = (if b then ok () else throw e)"

definition catching :: "('s, 'a) act \<Rightarrow> (exn \<Rightarrow> ('s, 'a) act) \<Rightarrow> ('s, 'a) act" where
  "catching m h s = (case m s of (Inl e, t) \<Rightarrow> h e t | (Inr x, t) \<Rightarrow> (Inr x, t))"

definition finalizing :: "('s, 'a) act \<Rightarrow> ('s, unit) act \<Rightarrow> ('s, 'a) act" where
  "finalizing m f s = (case m s of (r, t) \<Rightarrow>
     (case f t of (Inl e, u) \<Rightarrow> (Inl e, u) | (Inr _, u) \<Rightarrow> (r, u)))"

fun for_each :: "('a \<Rightarrow> ('s, unit) act) \<Rightarrow> 'a list \<Rightarrow> ('s, unit) act" where
  "for_each f [] = ok ()"
| "for_each f (x # xs) = andthen (f x) (for_each f xs)"

fun mapM :: "('a \<Rightarrow> ('s, 'b) act) \<Rightarrow> 'a list \<Rightarrow> ('s, 'b list) act" where
  "mapM f [] = ok []"
| "mapM f (x # xs) = bind (f x) (\<lambda>y. bind (mapM f xs) (\<lambda>ys. ok (y # ys)))"

lemmas act_defs = ok_def throw_def bind_def andthen_def gets_def modify_def lift_sum_def
  unless_raise_def catching_def finalizing_def

lemma ok_apply [simp]: "ok x s = (Inr x, s)" by (simp add: ok_def)
lemma throw_apply [simp]: "throw e s = (Inl e, s)" by (simp add: throw_def)
lemma gets_apply [simp]: "gets f s = (Inr (f s), s)" by (simp add: gets_def)
lemma modify_apply [simp]: "modify f s = (Inr (), f s)" by (simp add: modify_def)
lemma lift_sum_apply [simp]: "lift_sum r s = (r, s)" by (simp add: lift_sum_def)

lemma unless_raise_apply [simp]:
  "unless_raise b e s = (if b then Inr () else Inl e, s)"
  by (simp add: unless_raise_def)

lemma bind_apply: "bind m f s = (case m s of (Inl e, t) \<Rightarrow> (Inl e, t) | (Inr x, t) \<Rightarrow> f x t)"
  by (simp add: bind_def)

lemma bind_ok [simp]: "bind (ok x) f = f x"
  by (rule ext) (simp add: bind_def)

lemma bind_throw [simp]: "bind (throw e) f = throw e"
  by (rule ext) (simp add: bind_def)

lemma bind_assoc: "bind (bind m f) g = bind m (\<lambda>x. bind (f x) g)"
  by (rule ext) (simp add: bind_def split: prod.split sum.split)

lemma bind_run:
  "m s = (Inr x, t) \<Longrightarrow> bind m f s = f x t"
  "m s = (Inl e, t) \<Longrightarrow> bind m f s = (Inl e, t)"
  by (simp_all add: bind_def)

lemma andthen_run:
  "m s = (Inr x, t) \<Longrightarrow> andthen m k s = k t"
  "m s = (Inl e, t) \<Longrightarrow> andthen m k s = (Inl e, t)"
  by (simp_all add: andthen_def bind_def)

lemma bind_InrE:
  assumes "bind m f s = (Inr y, u)"
  obtains x t where "m s = (Inr x, t)" and "f x t = (Inr y, u)"
  using assms by (auto simp: bind_def split: prod.splits sum.splits)

lemma andthen_InrE:
  assumes "andthen m k s = (Inr y, u)"
  obtains x t where "m s = (Inr x, t)" and "k t = (Inr y, u)"
  using assms unfolding andthen_def by (rule bind_InrE)

subsection \<open>Invariants of actions\<close>

definition keeps :: "('s \<Rightarrow> bool) \<Rightarrow> ('s, 'a) act \<Rightarrow> bool" where
  "keeps I m \<longleftrightarrow> (\<forall>s. I s \<longrightarrow> I (snd (m s)))"

lemma keepsI: "(\<And>s. I s \<Longrightarrow> I (snd (m s))) \<Longrightarrow> keeps I m"
  by (simp add: keeps_def)

lemma keepsD: "keeps I m \<Longrightarrow> I s \<Longrightarrow> I (snd (m s))"
  by (simp add: keeps_def)

lemma keeps_ok [keeps_intro]: "keeps I (ok x)"
  by (simp add: keeps_def)

lemma keeps_throw [keeps_intro]: "keeps I (throw e)"
  by (simp add: keeps_def)

lemma keeps_gets [keeps_intro]: "keeps I (gets f)"
  by (simp add: keeps_def)

lemma keeps_lift_sum [keeps_intro]: "keeps I (lift_sum r)"
  by (simp add: keeps_def)

lemma keeps_unless_raise [keeps_intro]: "keeps I (unless_raise b e)"
  by (simp add: keeps_def)

lemma keeps_modify: "(\<And>s. I s \<Longrightarrow> I (f s)) \<Longrightarrow> keeps I (modify f)"
  by (simp add: keeps_def)

lemma keeps_bind [keeps_intro]:
  "keeps I m \<Longrightarrow> (\<And>x. keeps I (f x)) \<Longrightarrow> keeps I (bind m f)"
  unfolding keeps_def bind_def by (auto split: prod.split sum.split)

lemma keeps_andthen [keeps_intro]:
  "keeps I m \<Longrightarrow> keeps I k \<Longrightarrow> keeps I (andthen m k)"
  unfolding andthen_def by (intro keeps_bind)

lemma keeps_catching [keeps_intro]:
  "keeps I m \<Longrightarrow> (\<And>e. keeps I (h e)) \<Longrightarrow> keeps I (catching m h)"
  unfolding keeps_def catching_def by (auto split: prod.split sum.split)

lemma keeps_finally [keeps_intro]:
  "keeps I m \<Longrightarrow> keeps I f \<Longrightarrow> keeps I (finalizing m f)"
  unfolding keeps_def finalizing_def by (auto split: prod.split sum.split)

lemma keeps_if [keeps_intro]:
  "(b \<Longrightarrow> keeps I m) \<Longrightarrow> (\<not> b \<Longrightarrow> keeps I k) \<Longrightarrow> keeps I (if b then m else k)"
  by simp

lemma keeps_let [keeps_intro]: "keeps I (f x) \<Longrightarrow> keeps I (let y = x in f y)"
  by simp

lemma keeps_option [keeps_intro]:
  "keeps I m \<Longrightarrow> (\<And>x. keeps I (f x)) \<Longrightarrow> keeps I (case z of None \<Rightarrow> m | Some x \<Rightarrow> f x)"
  by (simp split: option.split)

lemma keeps_prod [keeps_intro]:
  "(\<And>x y. keeps I (f x y)) \<Longrightarrow> keeps I (case z of (x, y) \<Rightarrow> f x y)"
  by (simp split: prod.split)

lemma keeps_for_each [keeps_intro]: "(\<And>x. keeps I (f x)) \<Longrightarrow> keeps I (for_each f xs)"
  by (induction xs) (auto intro!: keeps_intro)

lemma keeps_mapM [keeps_intro]: "(\<And>x. keeps I (f x)) \<Longrightarrow> keeps I (mapM f xs)"
  by (induction xs) (auto intro!: keeps_intro)

end
