(* ===== verification/Qmp.thy ===== *)
theory Qmp
  imports Py_Json
begin

section \<open>One-shot QMP commands (qmp.py)\<close>

text \<open>
  \<open>execute_qmp\<close> opens the worker's socket, reads the greeting, negotiates capabilities, sends one
  command and reads until its reply.  What the peer does is an explicit input: how long each attempt
  to open its socket takes (in nanoseconds) and how it ends, the lines it sends, and whether the
  stream then ends or stays silent until the timeout.  The result says what was written, so that
  commands can be counted.  Left out: that writing a request or draining it fails, which raises the
  connection's error where the model reads on.
\<close>

datatype stream_end = Eof | Silent | Broken exn

record qmp_peer =
  peer_attempts :: "nat \<Rightarrow> nat \<times> exn option"
  peer_lines :: "bytes list"
  peer_end :: stream_end

definition blank :: "bytes \<Rightarrow> bool" where
  "blank raw = list_all (\<lambda>b. b = 32 \<or> (9 \<le> b \<and> b \<le> 13)) raw"

text \<open>
  \<open>_read_message\<close>: blank lines are skipped.  At the end of the lines, \<open>readline\<close> returns the empty
  string (\<open>Eof\<close>), waits until the timeout (\<open>Silent\<close>) or raises (\<open>Broken\<close>).
\<close>

fun read_message :: "stream_end \<Rightarrow> bytes list \<Rightarrow> exn + json \<times> bytes list" where
  "read_message fin [] =
     (case fin of
        Eof \<Rightarrow> Inl (QmpUnavailableError ''QEMU closed the QMP connection'')
      | Silent \<Rightarrow> Inl TimeoutError
      | Broken e \<Rightarrow> Inl e)"
| "read_message fin (raw # rest) =
     (if blank raw then read_message fin rest
      else (case loads raw of
          Inl e \<Rightarrow> Inl (if e = JSONDecodeError then QmpError ''QEMU returned invalid QMP JSON'' else e)
        | Inr message \<Rightarrow>
            if is_obj message then Inr (message, rest)
            else Inl (QmpError ''QEMU returned a non-object QMP message'')))"

lemma read_message_shorter:
  "read_message fin lines = Inr (m, rest) \<Longrightarrow> length rest < length lines"
  by (induction fin lines rule: read_message.induct)
    (auto split: stream_end.splits if_splits sum.splits)

definition error_description :: "json \<Rightarrow> exn" where
  "error_description err =
     QmpCommandError (if is_obj err
       then (if jhas err ''desc'' then jget err ''desc'' else jstr ''QMP command failed'')
       else err)"

text \<open>\<open>_read_response\<close>: messages with another id (events, stale replies) are skipped.\<close>

function read_response :: "stream_end \<Rightarrow> bytes list \<Rightarrow> string \<Rightarrow> exn + json \<times> bytes list" where
  "read_response fin lines request_id =
     (case read_message fin lines of
        Inl e \<Rightarrow> Inl e
      | Inr (message, rest) \<Rightarrow>
          if jget message ''id'' \<noteq> jstr request_id then read_response fin rest request_id
          else if truthy (jget message ''error'') then Inl (error_description (jget message ''error''))
          else Inr (jget message ''return'', rest))"
  by pat_completeness auto
termination
  by (relation "measure (\<lambda>(fin, lines, i). length lines)") (auto dest: read_message_shorter)

declare read_response.simps [simp del]

definition qmp_request :: "string \<Rightarrow> string \<Rightarrow> json option \<Rightarrow> json" where
  "qmp_request command request_id arguments =
     jobj ([(''execute'', jstr command), (''id'', jstr request_id)]
       @ (case arguments of None \<Rightarrow> [] | Some a \<Rightarrow> [(''arguments'', a)]))"

text \<open>
  \<open>_open_qmp\<close>: attempts number \<open>k\<close>, \<open>k + 1\<close>, ... while the loop's clock \<open>now\<close> is before the deadline, with a pause
  of 50 milliseconds after each \<open>OSError\<close>; the result is the number of the attempt that opened the socket.
\<close>

definition RETRY_PAUSE_NS :: nat where "RETRY_PAUSE_NS = 50000000"

function open_qmp :: "string \<Rightarrow> (nat \<Rightarrow> nat \<times> exn option) \<Rightarrow> nat \<Rightarrow> int \<Rightarrow> int \<Rightarrow> exn + nat" where
  "open_qmp socket_path attempts k now deadline =
     (if now < deadline then
        (case attempts k of
           (took, None) \<Rightarrow> Inr k
         | (took, Some e) \<Rightarrow>
             if is_os_error e
             then open_qmp socket_path attempts (Suc k) (now + int (took + RETRY_PAUSE_NS)) deadline
             else Inl e)
      else Inl (QmpUnavailableError (''QMP socket is unavailable: '' @ socket_path)))"
  by pat_completeness auto
termination
  by (relation "measure (\<lambda>(p, attempts, k, now, deadline). nat (deadline - now))") (auto simp: RETRY_PAUSE_NS_def)

declare open_qmp.simps [simp del]

lemma open_qmp_first [simp]: "now < deadline \<Longrightarrow> attempts k = (took, None) \<Longrightarrow> open_qmp sp attempts k now deadline = Inr k"
  by (simp add: open_qmp.simps [of sp attempts k])

text \<open>When the attempt number \<open>k\<close> starts, counted from the first.\<close>

definition attempt_starts :: "(nat \<Rightarrow> nat \<times> exn option) \<Rightarrow> nat \<Rightarrow> int" where
  "attempt_starts attempts k = int (\<Sum>i<k. fst (attempts i) + RETRY_PAUSE_NS)"

lemma attempt_starts_simps [simp]: "attempt_starts attempts 0 = 0"
  "attempt_starts attempts (Suc k) = attempt_starts attempts k + int (fst (attempts k) + RETRY_PAUSE_NS)"
  by (simp_all add: attempt_starts_def)

lemma attempt_starts_bound: "int (k * RETRY_PAUSE_NS) \<le> attempt_starts attempts k"
  by (induction k) (simp_all add: algebra_simps)

definition missed :: "(nat \<Rightarrow> nat \<times> exn option) \<Rightarrow> nat \<Rightarrow> bool" where
  "missed attempts j \<longleftrightarrow> (\<exists>e. snd (attempts j) = Some e \<and> is_os_error e)"

text \<open>How the loop ends when it is about to make the attempt number \<open>n\<close>.\<close>

definition open_ends :: "string \<Rightarrow> (nat \<Rightarrow> nat \<times> exn option) \<Rightarrow> int \<Rightarrow> nat \<Rightarrow> exn + nat \<Rightarrow> bool" where
  "open_ends sp attempts timeout n r \<longleftrightarrow>
     (if attempt_starts attempts n < timeout
      then \<not> missed attempts n \<and> r = (case snd (attempts n) of None \<Rightarrow> Inr n | Some e \<Rightarrow> Inl e)
      else r = Inl (QmpUnavailableError (''QMP socket is unavailable: '' @ sp)))"

lemma open_qmp_trace:
  "now = attempt_starts attempts k \<Longrightarrow> \<exists>n\<ge>k. (\<forall>j. k \<le> j \<and> j < n \<longrightarrow> attempt_starts attempts j < timeout \<and> missed attempts j)
     \<and> open_ends sp attempts timeout n (open_qmp sp attempts k now timeout)"
proof (induction sp attempts k now timeout rule: open_qmp.induct)
  case (1 sp attempts k now timeout)
  obtain took r where a: "attempts k = (took, r)" by fastforce
  show ?case
  proof (cases "now < timeout \<and> missed attempts k")
    case True
    then obtain e where r: "r = Some e" "is_os_error e" "now < timeout" using a by (auto simp: missed_def)
    have next_start: "now + int (took + RETRY_PAUSE_NS) = attempt_starts attempts (Suc k)" using a 1(2) by simp
    have step: "open_qmp sp attempts k now timeout
        = open_qmp sp attempts (Suc k) (now + int (took + RETRY_PAUSE_NS)) timeout"
      using a r by (simp add: open_qmp.simps [of sp attempts k])
    from "1.IH" [OF r(3) a [symmetric] r(1,2) next_start] obtain n where n: "Suc k \<le> n"
      "\<forall>j. Suc k \<le> j \<and> j < n \<longrightarrow> attempt_starts attempts j < timeout \<and> missed attempts j"
      "open_ends sp attempts timeout n (open_qmp sp attempts (Suc k) (now + int (took + RETRY_PAUSE_NS)) timeout)" by blast
    have "attempt_starts attempts j < timeout \<and> missed attempts j" if "k \<le> j" "j < n" for j
      using that n(2) True 1(2) by (cases "j = k") auto
    with n(1,3) step show ?thesis by (intro exI [of _ n]) simp
  next
    case False
    then show ?thesis
      using a by (intro exI [of _ k])
        (auto simp: open_qmp.simps [of sp attempts k] open_ends_def missed_def 1(2) split: option.split)
  qed
qed

lemma open_qmp_error:
  assumes "open_qmp sp attempts 0 0 timeout = Inl e"
  shows "e = QmpUnavailableError (''QMP socket is unavailable: '' @ sp) \<or> (\<exists>j. snd (attempts j) = Some e \<and> \<not> is_os_error e)"
  using open_qmp_trace [of 0 attempts 0 timeout sp] assms
  by (auto simp: open_ends_def missed_def split: if_splits option.splits)

text \<open>
  C33. Waiting for a worker's socket ends: with a timeout of \<open>m\<close> pauses there are at most \<open>m\<close> failed attempts, each
  started before the deadline and failed with an \<open>OSError\<close>; then either the deadline has passed and the
  result is the QMP error, or the next attempt, started in time, decides: it opened the socket, or its
  exception is passed on.
\<close>

theorem qmp_socket_wait:
  assumes "timeout \<le> int (m * RETRY_PAUSE_NS)"
  shows "\<exists>n\<le>m. (\<forall>j<n. attempt_starts attempts j < timeout \<and> missed attempts j)
    \<and> open_ends sp attempts timeout n (open_qmp sp attempts 0 0 timeout)"
proof -
  obtain n where n: "\<forall>j<n. attempt_starts attempts j < timeout \<and> missed attempts j"
    "open_ends sp attempts timeout n (open_qmp sp attempts 0 0 timeout)"
    using open_qmp_trace [of 0 attempts 0 timeout sp] by auto
  have "n \<le> m"
  proof (cases n)
    case (Suc j)
    then have "attempt_starts attempts j < int (m * RETRY_PAUSE_NS)" using n(1) assms by fastforce
    with attempt_starts_bound [of j attempts] have "int (j * RETRY_PAUSE_NS) < int (m * RETRY_PAUSE_NS)" by linarith
    then have "j < m" by (simp only: of_nat_less_iff mult_less_cancel2)
    with Suc show ?thesis by simp
  qed simp
  with n show ?thesis by blast
qed

theorem qmp_socket_wait_witness:
  "open_qmp ''qmp.sock'' (\<lambda>k. (1, if k < 3 then Some (OSError []) else None)) 0 0 200000000 = Inr 3"
proof -
  let ?a = "\<lambda>k::nat. (1::nat, if k < 3 then Some (OSError []) else None)"
  have m: "missed ?a j \<longleftrightarrow> j < 3" for j by (auto simp: missed_def)
  have "200000000 \<le> int (4 * RETRY_PAUSE_NS)" by (simp add: RETRY_PAUSE_NS_def)
  from qmp_socket_wait [OF this, of ?a "''qmp.sock''"] obtain n where n: "n \<le> 4" "\<forall>j<n. j < 3"
    "open_ends ''qmp.sock'' ?a 200000000 n (open_qmp ''qmp.sock'' ?a 0 0 200000000)"
    unfolding m by blast
  have n3: "n \<le> 3" using n(2) by (cases n) auto
  then have "attempt_starts ?a n < 200000000" by (simp add: attempt_starts_def RETRY_PAUSE_NS_def)
  moreover from this n(3) m have "\<not> n < 3" by (simp add: open_ends_def)
  ultimately show ?thesis using n(3) n3 by (auto simp: open_ends_def split: if_splits)
qed

text \<open>
  \<open>execute_qmp\<close>: the result and the requests written, in order.  A timeout anywhere inside becomes
  \<open>QmpUnavailableError\<close>; other exceptions pass through.
\<close>

definition map_timeout :: "string \<Rightarrow> exn \<Rightarrow> exn" where
  "map_timeout command e =
     (if e = TimeoutError then QmpUnavailableError (''QMP command timed out: '' @ command) else e)"

definition execute_qmp_within ::
    "int \<Rightarrow> qmp_peer \<Rightarrow> string \<Rightarrow> string \<Rightarrow> json option \<Rightarrow> (exn + json) \<times> json list" where
  "execute_qmp_within timeout peer socket_path command arguments =
     (case open_qmp socket_path (peer_attempts peer) 0 0 timeout of
        Inl e \<Rightarrow> (Inl e, [])
      | Inr opened \<Rightarrow> (case read_message (peer_end peer) (peer_lines peer) of
        Inl e \<Rightarrow> (Inl (map_timeout command e), [])
      | Inr (greeting, l1) \<Rightarrow>
          if \<not> jhas greeting ''QMP'' then (Inl (QmpError ''QEMU did not send a QMP greeting''), [])
          else let hello = qmp_request ''qmp_capabilities'' ''capabilities'' None in
            (case read_response (peer_end peer) l1 ''capabilities'' of
               Inl e \<Rightarrow> (Inl (map_timeout command e), [hello])
             | Inr (_, l2) \<Rightarrow>
                 let request = qmp_request command ''command'' arguments in
                 (case read_response (peer_end peer) l2 ''command'' of
                    Inl e \<Rightarrow> (Inl (map_timeout command e), [hello, request])
                  | Inr (v, _) \<Rightarrow> (Inr v, [hello, request])))))"

text \<open>The default timeout is two seconds.\<close>

definition execute_qmp :: "qmp_peer \<Rightarrow> string \<Rightarrow> string \<Rightarrow> json option \<Rightarrow> (exn + json) \<times> json list" where
  "execute_qmp = execute_qmp_within 2000000000"

lemma execute_qmp_ok_written:
  "execute_qmp_within timeout peer sp c a = (Inr v, w) \<Longrightarrow>
     w = [qmp_request ''qmp_capabilities'' ''capabilities'' None, qmp_request c ''command'' a]"
  by (auto simp: execute_qmp_within_def Let_def split: if_splits sum.splits prod.splits)

subsection \<open>Which message answers a command\<close>

definition delivers :: "bytes list \<Rightarrow> json list \<Rightarrow> bool" where
  "delivers lines msgs = list_all2 (\<lambda>l m. \<not> blank l \<and> loads l = Inr m \<and> is_obj m) lines msgs"

lemma delivers_simps [simp]:
  "delivers [] msgs \<longleftrightarrow> msgs = []"
  "delivers lines [] \<longleftrightarrow> lines = []"
  "delivers lines (m # msgs) \<longleftrightarrow>
     (\<exists>l ls. lines = l # ls \<and> \<not> blank l \<and> loads l = Inr m \<and> is_obj m \<and> delivers ls msgs)"
  by (auto simp: delivers_def list_all2_Cons2)

lemma delivers_append:
  "delivers lines (ms @ ns) \<Longrightarrow> \<exists>l1 l2. lines = l1 @ l2 \<and> delivers l1 ms \<and> delivers l2 ns"
  unfolding delivers_def list_all2_append2 by blast

lemma read_response_skips:
  assumes "delivers lines events" "\<forall>m\<in>set events. jget m ''id'' \<noteq> jstr i"
  shows "read_response fin (lines @ rest) i = read_response fin rest i"
  using assms
  by (induction events arbitrary: lines) (auto simp: read_response.simps [of fin "_ # _"])

lemma read_response_answer:
  assumes "\<not> blank l" "loads l = Inr m" "is_obj m" "jget m ''id'' = jstr i"
  shows "read_response fin (l # rest) i =
     (if truthy (jget m ''error'') then Inl (error_description (jget m ''error''))
      else Inr (jget m ''return'', rest))"
  using assms by (simp add: read_response.simps [of fin "l # rest"])

text \<open>
  C32. The reply to a command is the first message with its id: whatever events or stale replies
  QEMU sends before the capabilities answer and before the command's answer, \<open>execute_qmp\<close>
  returns that answer's value, or raises its error, and has written exactly the negotiation and
  the one command.
\<close>

theorem qmp_reply_matching:
  assumes "open_qmp sp (peer_attempts peer) 0 0 timeout = Inr n"
    and "delivers (peer_lines peer) ([greeting] @ events1 @ [caps] @ events2 @ [reply] @ later)"
    and "jhas greeting ''QMP''"
    and "\<forall>m\<in>set events1. jget m ''id'' \<noteq> jstr ''capabilities''"
    and "jget caps ''id'' = jstr ''capabilities''" "\<not> truthy (jget caps ''error'')"
    and "\<forall>m\<in>set events2. jget m ''id'' \<noteq> jstr ''command''"
    and "jget reply ''id'' = jstr ''command''"
  shows "execute_qmp_within timeout peer sp command arguments =
    (if truthy (jget reply ''error'') then Inl (map_timeout command (error_description (jget reply ''error'')))
     else Inr (jget reply ''return''),
     [qmp_request ''qmp_capabilities'' ''capabilities'' None, qmp_request command ''command'' arguments])"
proof -
  from assms(2) obtain l0 ls where l0: "peer_lines peer = l0 # ls" "\<not> blank l0" "loads l0 = Inr greeting"
      "is_obj greeting" and "delivers ls (events1 @ [caps] @ events2 @ [reply] @ later)"
    by auto
  then obtain a1 b1 where ls: "ls = a1 @ b1" "delivers a1 events1"
      and "delivers b1 (caps # events2 @ [reply] @ later)"
    by (auto dest: delivers_append)
  then obtain lc b2 where b1: "b1 = lc # b2" "\<not> blank lc" "loads lc = Inr caps" "is_obj caps"
      and "delivers b2 (events2 @ [reply] @ later)" by auto
  then obtain a2 b3 where b2: "b2 = a2 @ b3" "delivers a2 events2" and "delivers b3 (reply # later)"
    by (auto dest: delivers_append)
  then obtain lr b4 where b3: "b3 = lr # b4" "\<not> blank lr" "loads lr = Inr reply" "is_obj reply" by auto
  show ?thesis
    using assms(1,3,6) l0
    by (simp add: execute_qmp_within_def Let_def ls(1) b1(1) b2(1) b3(1)
        read_response_skips [OF ls(2) assms(4)] read_response_answer [OF b1(2-4) assms(5)]
        read_response_skips [OF b2(2) assms(7)] read_response_answer [OF b3(2-4) assms(8)])
qed

definition sample_peer :: qmp_peer where
  "sample_peer = \<lparr>peer_attempts = (\<lambda>k. (0, None)), peer_lines = map (ascii \<circ> quoted)
     [''{`QMP`:{}}'', ''{`id`:`capabilities`,`return`:{}}'', ''{`event`:`RESET`}'',
      ''{`id`:`command`,`return`:7}''], peer_end = Eof\<rparr>"

lemma sample_peer_delivers:
  "delivers (peer_lines sample_peer)
     ([jobj [(''QMP'', jobj [])]] @ [] @ [jobj [(''id'', jstr ''capabilities''), (''return'', jobj [])]]
      @ [jobj [(''event'', jstr ''RESET'')]] @ [jobj [(''id'', jstr ''command''), (''return'', JInt 7)]] @ [])"
proof -
  have l: "loads (ascii (quoted ''{`QMP`:{}}'')) = Inr (jobj [(''QMP'', jobj [])])"
    "loads (ascii (quoted ''{`id`:`capabilities`,`return`:{}}''))
       = Inr (jobj [(''id'', jstr ''capabilities''), (''return'', jobj [])])"
    "loads (ascii (quoted ''{`event`:`RESET`}'')) = Inr (jobj [(''event'', jstr ''RESET'')])"
    "loads (ascii (quoted ''{`id`:`command`,`return`:7}'')) = Inr (jobj [(''id'', jstr ''command''), (''return'', JInt 7)])"
    by code_simp+
  have b: "\<not> blank (ascii (quoted (CHR ''{'' # s)))" for s
    by (simp add: blank_def quoted_def)
  show ?thesis
    unfolding delivers_def sample_peer_def by (simp del: ascii_Cons add: l b)
qed

theorem qmp_reply_matching_witness:
  "fst (execute_qmp sample_peer ''qmp.sock'' ''query-version'' None) = Inr (JInt 7)"
proof -
  have "open_qmp ''qmp.sock'' (peer_attempts sample_peer) 0 0 2000000000 = Inr 0" by (simp add: sample_peer_def)
  from qmp_reply_matching [OF this sample_peer_delivers, of "''query-version''" None]
  show ?thesis by (simp add: jstr_def jobj_def execute_qmp_def)
qed

subsection \<open>The exceptions of a command\<close>

lemma read_message_errors:
  assumes "read_message fin lines = Inl e"
    and "\<forall>l\<in>set lines. \<not> blank l \<longrightarrow> loads l \<noteq> Inl UnicodeDecodeError"
    and "\<forall>x. fin \<noteq> Broken x"
  shows "is_qmp_error e \<or> e = TimeoutError"
proof -
  have only: "loads l = Inl x \<Longrightarrow> x = UnicodeDecodeError \<or> x = JSONDecodeError" for l x
    by (auto simp: loads_def loads_text_def Let_def split: option.splits if_splits)
  show ?thesis
    using assms
    by (induction fin lines rule: read_message.induct)
      (fastforce dest: only split: stream_end.splits if_splits sum.splits)+
qed

lemma read_message_rest:
  "read_message fin lines = Inr (m, rest) \<Longrightarrow> set rest \<subseteq> set lines"
  by (induction fin lines rule: read_message.induct)
    (auto split: stream_end.splits if_splits sum.splits)

lemma read_response_errors:
  assumes "read_response fin lines i = Inl e"
    and "\<forall>l\<in>set lines. \<not> blank l \<longrightarrow> loads l \<noteq> Inl UnicodeDecodeError"
    and "\<forall>x. fin \<noteq> Broken x"
  shows "is_qmp_error e \<or> e = TimeoutError"
  using assms
proof (induction fin lines i rule: read_response.induct)
  case (1 fin lines i)
  show ?case
  proof (cases "read_message fin lines")
    case (Inl x)
    then show ?thesis
      using 1 read_message_errors [OF Inl] by (simp add: read_response.simps [of fin lines i])
  next
    case (Inr mr)
    obtain m rest where mr: "mr = (m, rest)" by (cases mr)
    have sub: "\<forall>l\<in>set rest. \<not> blank l \<longrightarrow> loads l \<noteq> Inl UnicodeDecodeError"
      using "1.prems"(2) read_message_rest [OF Inr [unfolded mr]] by blast
    show ?thesis
    proof (cases "jget m ''id'' = jstr i")
      case True
      with "1.prems"(1) Inr mr show ?thesis
        by (auto simp: read_response.simps [of fin lines i] error_description_def split: if_splits)
    next
      case False
      with "1.prems"(1) Inr mr have "read_response fin rest i = Inl e"
        by (simp add: read_response.simps [of fin lines i])
      from "1.IH" [OF Inr mr [symmetric] False this sub "1.prems"(3)] mr show ?thesis by simp
    qed
  qed
qed

lemma read_response_rest:
  "read_response fin lines i = Inr (v, rest) \<Longrightarrow> set rest \<subseteq> set lines"
proof (induction fin lines i rule: read_response.induct)
  case (1 fin lines i)
  then show ?case
    by (subst (asm) (2) read_response.simps)
      (fastforce dest: read_message_rest split: sum.splits prod.splits if_splits)
qed

text \<open>
  Every failure of a command is a QMP error that the callers handle, provided the lines are
  UTF-8 and the stream does not break with an error of its own: a closed or silent socket, a
  timeout, invalid JSON, a non-object message, a missing greeting and a refused command alike.
\<close>

theorem qmp_errors_are_qmp:
  assumes "fst (execute_qmp_within timeout peer sp command arguments) = Inl e"
    and "\<forall>l\<in>set (peer_lines peer). \<not> blank l \<longrightarrow> loads l \<noteq> Inl UnicodeDecodeError"
    and "\<forall>x. peer_end peer \<noteq> Broken x" "\<forall>k x. snd (peer_attempts peer k) = Some x \<longrightarrow> is_os_error x"
  shows "is_qmp_error e"
proof -
  have timeout: "is_qmp_error (map_timeout command x)" if "is_qmp_error x \<or> x = TimeoutError" for x
    using that by (auto simp: map_timeout_def)
  show ?thesis
  proof (cases "open_qmp sp (peer_attempts peer) 0 0 timeout")
    case (Inl x)
    with assms(1) have "x = e" by (simp add: execute_qmp_within_def)
    with open_qmp_error [OF Inl] assms(4) show ?thesis by auto
  next
    case o: (Inr opened)
    show ?thesis
    proof (cases "read_message (peer_end peer) (peer_lines peer)")
      case (Inl x)
      with o assms read_message_errors [OF Inl assms(2,3)] timeout show ?thesis
        by (auto simp: execute_qmp_within_def)
    next
      case (Inr gl)
      obtain g l1 where gl: "gl = (g, l1)" by (cases gl)
      have s1: "\<forall>l\<in>set l1. \<not> blank l \<longrightarrow> loads l \<noteq> Inl UnicodeDecodeError"
        using assms(2) read_message_rest [OF Inr [unfolded gl]] by blast
      show ?thesis
      proof (cases "read_response (peer_end peer) l1 ''capabilities''")
        case (Inl x)
        with o assms Inr gl read_response_errors [OF Inl s1 assms(3)] timeout show ?thesis
          by (auto simp: execute_qmp_within_def Let_def split: if_splits)
      next
        case r: (Inr vl)
        obtain v l2 where vl: "vl = (v, l2)" by (cases vl)
        have s2: "\<forall>l\<in>set l2. \<not> blank l \<longrightarrow> loads l \<noteq> Inl UnicodeDecodeError"
          using s1 read_response_rest [OF r [unfolded vl]] by blast
        from o assms Inr gl r vl timeout show ?thesis
          by (auto simp: execute_qmp_within_def Let_def split: if_splits sum.splits
              dest!: read_response_errors [OF _ s2 assms(3)])
      qed
    qed
  qed
qed

theorem qmp_errors_are_qmp_witness:
  "is_qmp_error (QmpUnavailableError (''QMP command timed out: '' @ ''stop''))"
  by (rule qmp_errors_are_qmp [of 1 "\<lparr>peer_attempts = (\<lambda>k. (0, None)), peer_lines = [], peer_end = Silent\<rparr>" "[]" "''stop''" None])
    (simp_all add: execute_qmp_within_def map_timeout_def)

text \<open>
  One line that is not UTF-8 makes the command fail with \<open>UnicodeDecodeError\<close>, which no
  handler for QMP errors catches (the broker's JSON reader catches it, this one does not).
\<close>

theorem qmp_bad_utf8_escapes:
  "\<exists>peer. fst (execute_qmp peer sp command arguments) = Inl UnicodeDecodeError
       \<and> \<not> is_qmp_error UnicodeDecodeError"
proof -
  have "fst (execute_qmp \<lparr>peer_attempts = (\<lambda>k. (0, None)), peer_lines = [[0x80]], peer_end = Silent\<rparr> sp command arguments)
      = Inl UnicodeDecodeError"
    by (simp add: execute_qmp_def execute_qmp_within_def blank_def loads_def map_timeout_def)
  then show ?thesis by auto
qed

end
