(* ===== verification/Framebuffer.thy ===== *)
theory Framebuffer
  imports Py_Values
begin

section \<open>Framebuffer capture and packets (framebuffer.py)\<close>

text \<open>
  The parser of QEMU's P6 screendump, with rows packed or padded to a multiple of four bytes, and
  the binary packet of the framebuffer stream (the struct \<open>>4sBBHHI\<close>, then the pixels).
\<close>

subsection \<open>Python's \<open>bytes.split\<close> and \<open>int\<close>\<close>

definition b_space :: "byte \<Rightarrow> bool" where
  "b_space b = (b = 32 \<or> (9 \<le> b \<and> b \<le> 13))"

definition b_digit :: "byte \<Rightarrow> bool" where
  "b_digit b = (48 \<le> b \<and> b \<le> 57)"

text \<open>\<open>payload.split(sep, n)\<close>: at most \<open>n\<close> cuts.\<close>

fun split_on :: "byte \<Rightarrow> nat \<Rightarrow> bytes \<Rightarrow> bytes list" where
  "split_on sep 0 bs = [bs]"
| "split_on sep (Suc n) bs =
     (case dropWhile (\<lambda>b. b \<noteq> sep) bs of
        [] \<Rightarrow> [bs]
      | _ # rest \<Rightarrow> takeWhile (\<lambda>b. b \<noteq> sep) bs # split_on sep n rest)"

text \<open>\<open>payload.split()\<close>: the runs of bytes that are not white space.\<close>

function words_of :: "bytes \<Rightarrow> bytes list" where
  "words_of bs =
     (let t = dropWhile b_space bs in
      if t = [] then []
      else takeWhile (\<lambda>b. \<not> b_space b) t # words_of (dropWhile (\<lambda>b. \<not> b_space b) t))"
  by pat_completeness auto
termination
proof (relation "measure length")
  fix bs t
  assume t: "t = dropWhile b_space bs" and ne: "t \<noteq> []"
  then have "\<not> b_space (hd t)" by (metis hd_dropWhile)
  with ne have "length (dropWhile (\<lambda>b. \<not> b_space b) t) < length t"
    by (cases t) (auto simp: le_imp_less_Suc length_dropWhile_le)
  also have "length t \<le> length bs" by (simp add: t length_dropWhile_le)
  finally show "(dropWhile (\<lambda>b. \<not> b_space b) t, bs) \<in> measure length" by simp
qed simp

declare words_of.simps [simp del]

text \<open>
  \<open>int(bs)\<close> for a byte string: surrounding white space, a sign, decimal digits with single
  underscores between them, at most 4300 digits (the interpreter's default limit).  \<open>None\<close> is
  the \<open>ValueError\<close>.
\<close>

fun int_digits :: "bool \<Rightarrow> nat \<Rightarrow> nat \<Rightarrow> bytes \<Rightarrow> nat option" where
  "int_digits prev acc n [] = (if prev \<and> n \<le> 4300 then Some acc else None)"
| "int_digits prev acc n (b # bs) =
     (if b_digit b then int_digits True (acc * 10 + (unat b - 48)) (Suc n) bs
      else if b = 95 \<and> prev then int_digits False acc n bs
      else None)"

definition py_int :: "bytes \<Rightarrow> int option" where
  "py_int bs =
     (case strip_by b_space bs of
        b # rest \<Rightarrow>
          if b = 45 then map_option (\<lambda>n. - int n) (int_digits False 0 0 rest)
          else if b = 43 then map_option int (int_digits False 0 0 rest)
          else map_option int (int_digits False 0 0 (b # rest))
      | [] \<Rightarrow> None)"

subsection \<open>Frames\<close>

record rgb_frame =
  frame_width :: int
  frame_height :: int
  pixels :: bytes

definition RGBFrame :: "int \<Rightarrow> int \<Rightarrow> bytes \<Rightarrow> exn + rgb_frame" where
  "RGBFrame w h px =
     (if \<not> (1 \<le> w \<and> w \<le> 0xFFFF) \<or> \<not> (1 \<le> h \<and> h \<le> 0xFFFF) then
        Inl (FramebufferError ''framebuffer dimensions are outside uint16 range'')
      else if int (length px) \<noteq> w * h * 3 then
        Inl (FramebufferError ''framebuffer pixel length does not match its dimensions'')
      else Inr \<lparr>frame_width = w, frame_height = h, pixels = px\<rparr>)"

definition valid_frame :: "rgb_frame \<Rightarrow> bool" where
  "valid_frame f = (1 \<le> frame_width f \<and> frame_width f \<le> 0xFFFF \<and> 1 \<le> frame_height f
     \<and> frame_height f \<le> 0xFFFF \<and> int (length (pixels f)) = frame_width f * frame_height f * 3)"

lemma RGBFrame_valid: "RGBFrame w h px = Inr f \<Longrightarrow> valid_frame f"
  by (auto simp: RGBFrame_def valid_frame_def split: if_splits)

lemma RGBFrame_of_valid: "valid_frame f \<Longrightarrow> RGBFrame (frame_width f) (frame_height f) (pixels f) = Inr f"
  by (auto simp: RGBFrame_def valid_frame_def)

definition frame_pixel :: "rgb_frame \<Rightarrow> int \<Rightarrow> int \<Rightarrow> exn + bytes" where
  "frame_pixel f x y =
     (if \<not> (0 \<le> x \<and> x < frame_width f) \<or> \<not> (0 \<le> y \<and> y < frame_height f) then
        Inl (IndexError (''pixel ('' @ str_int x @ '', '' @ str_int y @ '') is outside ''
          @ str_int (frame_width f) @ ''x'' @ str_int (frame_height f)))
      else let offset = nat ((y * frame_width f + x) * 3)
           in Inr (take 3 (drop offset (pixels f))))"

subsection \<open>The screendump parser\<close>

definition row_stride :: "int \<Rightarrow> int" where
  "row_stride packed = (packed + 3) AND NOT 3"

definition unpad_rows :: "nat \<Rightarrow> nat \<Rightarrow> nat \<Rightarrow> bytes \<Rightarrow> bytes" where
  "unpad_rows stride packed h px = concat (map (\<lambda>row. take packed (drop (row * stride) px)) [0..<h])"

definition parse_qemu_ppm :: "bytes \<Rightarrow> exn + rgb_frame" where
  "parse_qemu_ppm payload =
     (case split_on 10 3 payload of
        [magic, dimensions, maximum, px] \<Rightarrow>
          (case words_of dimensions of
             [width_text, height_text] \<Rightarrow>
               (case (py_int width_text, py_int height_text, py_int maximum) of
                  (Some w, Some h, Some maxv) \<Rightarrow>
                    if magic \<noteq> ascii ''P6'' \<or> maxv \<noteq> 255 \<or> w \<le> 0 \<or> h \<le> 0 then
                      Inl (FramebufferError ''unsupported QEMU PPM format'')
                    else let expected = w * h * 3 in
                      if int (length px) \<noteq> expected then
                        let packed = w * 3; stride = row_stride packed in
                          if int (length px) = stride * h then
                            RGBFrame w h (unpad_rows (nat stride) (nat packed) (nat h) px)
                          else Inl (FramebufferError (''framebuffer payload has ''
                            @ str_nat (length px) @ '' bytes; expected '' @ str_int expected))
                      else RGBFrame w h px
                | _ \<Rightarrow> Inl (FramebufferError ''invalid QEMU PPM header''))
           | _ \<Rightarrow> Inl (FramebufferError ''invalid QEMU PPM header''))
      | _ \<Rightarrow> Inl (FramebufferError ''invalid QEMU PPM header''))"

subsection \<open>Packets\<close>

definition FRAMEBUFFER_MAGIC :: bytes where "FRAMEBUFFER_MAGIC = ascii ''ESPF''"
definition FRAMEBUFFER_PROTOCOL_VERSION :: nat where "FRAMEBUFFER_PROTOCOL_VERSION = 1"
definition FRAMEBUFFER_PIXEL_FORMAT_RGB24 :: nat where "FRAMEBUFFER_PIXEL_FORMAT_RGB24 = 1"
definition FRAMEBUFFER_HEADER_size :: nat where "FRAMEBUFFER_HEADER_size = 14"

definition encode_framebuffer_packet :: "rgb_frame \<Rightarrow> int \<Rightarrow> exn + bytes" where
  "encode_framebuffer_packet f sequence =
     (if \<not> (0 \<le> sequence \<and> sequence \<le> 0xFFFFFFFF) then
        Inl (FramebufferError ''framebuffer sequence is outside uint32 range'')
      else Inr (FRAMEBUFFER_MAGIC
        @ be_encode 1 FRAMEBUFFER_PROTOCOL_VERSION
        @ be_encode 1 FRAMEBUFFER_PIXEL_FORMAT_RGB24
        @ be_encode 2 (nat (frame_width f))
        @ be_encode 2 (nat (frame_height f))
        @ be_encode 4 (nat sequence)
        @ pixels f))"

definition parse_framebuffer_packet :: "bytes \<Rightarrow> exn + int \<times> rgb_frame" where
  "parse_framebuffer_packet payload =
     (if length payload < FRAMEBUFFER_HEADER_size then
        Inl (FramebufferError ''framebuffer packet is shorter than its header'')
      else let
        magic = take 4 payload;
        version = be_decode (take 1 (drop 4 payload));
        pixel_format = be_decode (take 1 (drop 5 payload));
        w = int (be_decode (take 2 (drop 6 payload)));
        h = int (be_decode (take 2 (drop 8 payload)));
        sequence = int (be_decode (take 4 (drop 10 payload)))
      in if magic \<noteq> FRAMEBUFFER_MAGIC \<or> version \<noteq> FRAMEBUFFER_PROTOCOL_VERSION then
           Inl (FramebufferError ''unsupported framebuffer packet version'')
         else if pixel_format \<noteq> FRAMEBUFFER_PIXEL_FORMAT_RGB24 then
           Inl (FramebufferError ''unsupported framebuffer pixel format'')
         else let px = drop FRAMEBUFFER_HEADER_size payload in
           if int (length px) \<noteq> w * h * 3 then
             Inl (FramebufferError ''framebuffer packet pixel length is invalid'')
           else (case RGBFrame w h px of Inl e \<Rightarrow> Inl e | Inr f \<Rightarrow> Inr (sequence, f)))"

subsection \<open>Decimal fields\<close>

definition dec_value :: "nat \<Rightarrow> bytes \<Rightarrow> nat" where
  "dec_value acc ds = foldl (\<lambda>a b. a * 10 + (unat b - 48)) acc ds"

lemma int_digits_run:
  "list_all b_digit ds \<Longrightarrow> ds \<noteq> [] \<Longrightarrow>
     int_digits prev acc n (ds @ r) = int_digits True (dec_value acc ds) (n + length ds) r"
proof (induction ds arbitrary: prev acc n)
  case Nil
  then show ?case by simp
next
  case (Cons d ds)
  then show ?case by (cases "ds = []") (simp_all add: dec_value_def)
qed

lemma digit_char_byte:
  assumes "d < 10"
  shows "(of_char (digit_char d) :: nat) = 48 + d" and "b_digit (of_char (digit_char d))"
proof -
  have "(of_char (digit_char d) :: nat) = 48 + d" using assms by (simp add: digit_char_def)
  then show "(of_char (digit_char d) :: nat) = 48 + d" .
  then show "b_digit (of_char (digit_char d))"
    using assms by (simp add: b_digit_def word_le_nat_alt)
qed

lemma str_nat_digits:
  "list_all b_digit (ascii (base_digits 10 n)) \<and> dec_value 0 (ascii (base_digits 10 n)) = n"
proof (induction "10::nat" n rule: base_digits.induct)
  case (1 n)
  show ?case
  proof (cases "n < 10")
    case True
    then show ?thesis by (subst (1 2) base_digits.simps) (simp add: dec_value_def digit_char_byte)
  next
    case False
    with 1 have IH: "list_all b_digit (ascii (base_digits 10 (n div 10)))"
      "dec_value 0 (ascii (base_digits 10 (n div 10))) = n div 10" by auto
    with False show ?thesis
      by (subst (1 2) base_digits.simps) (auto simp: dec_value_def digit_char_byte)
  qed
qed

lemma length_base_digits:
  "0 < k \<Longrightarrow> n < 10 ^ k \<Longrightarrow> length (base_digits 10 n) \<le> k"
proof (induction k arbitrary: n)
  case 0
  then show ?case by simp
next
  case (Suc k)
  show ?case
  proof (cases "n < 10")
    case True
    then show ?thesis by (subst base_digits.simps) simp
  next
    case False
    then have "0 < k" using Suc.prems by (cases k) auto
    moreover have "n div 10 < 10 ^ k" using Suc.prems by (simp add: less_mult_imp_div_less)
    ultimately have "length (base_digits 10 (n div 10)) \<le> k" by (rule Suc.IH)
    with False show ?thesis by (subst base_digits.simps) simp
  qed
qed

lemma b_digit_not_space: "b_digit b \<Longrightarrow> \<not> b_space b"
  by (auto simp: b_digit_def b_space_def word_le_nat_alt)

lemma b_digit_not_sign: "b_digit b \<Longrightarrow> b \<noteq> 45 \<and> b \<noteq> 43 \<and> b \<noteq> 10"
  by (auto simp: b_digit_def word_le_nat_alt)

lemma py_int_str_nat:
  assumes "n \<le> 65535"
  shows "py_int (ascii (str_nat n)) = Some (int n)"
proof -
  let ?ds = "ascii (str_nat n)"
  have d: "list_all b_digit ?ds" "dec_value 0 ?ds = n"
    using str_nat_digits [of n] by (simp_all add: str_nat_def)
  have "length (base_digits 10 n) \<le> 5" using assms by (intro length_base_digits) simp_all
  then have len: "length ?ds \<le> 5" by (simp add: str_nat_def)
  have ne: "?ds \<noteq> []" by (simp add: ascii_def str_nat_def)
  have "b_digit (hd ?ds)" "b_digit (last ?ds)" using d(1) ne by (simp_all add: list_all_iff)
  then have "strip_by b_space ?ds = ?ds" by (intro strip_by_id) (simp add: b_digit_not_space)
  moreover have "int_digits False 0 0 ?ds = Some n"
    using int_digits_run [OF d(1) ne, of False 0 0 "[]"] d(2) len by simp
  moreover obtain b bs where b: "?ds = b # bs" using ne by (cases ?ds) auto
  moreover have "b \<noteq> 45 \<and> b \<noteq> 43" using \<open>b_digit (hd ?ds)\<close> b b_digit_not_sign by simp
  ultimately show ?thesis by (simp add: py_int_def)
qed

subsection \<open>Rows of a screendump\<close>

lemma row_stride_eq: "row_stride p = (p + 3) div 4 * 4"
proof -
  have "x AND NOT 3 = push_bit 2 (drop_bit 2 x)" for x :: int
  proof -
    have m: "(3::int) = mask 2" by (simp add: mask_eq_exp_minus_1)
    have "2 \<le> n \<Longrightarrow> Suc (Suc (n - 2)) = n" for n :: nat by simp
    then show ?thesis unfolding m by (intro bit_eqI) (auto simp: bit_simps not_less)
  qed
  then show ?thesis by (simp add: row_stride_def push_bit_eq_mult drop_bit_eq_div)
qed

lemma split_on_sep:
  "sep \<notin> set xs \<Longrightarrow> split_on sep (Suc n) (xs @ sep # ys) = xs # split_on sep n ys"
  by (simp add: takeWhile_append dropWhile_append)

lemma words_of_pair:
  assumes "list_all (\<lambda>b. \<not> b_space b) xs" "xs \<noteq> []" "list_all (\<lambda>b. \<not> b_space b) ys" "ys \<noteq> []"
  shows "words_of (xs @ 32 # ys) = [xs, ys]"
proof -
  have sp: "b_space 32" by (simp add: b_space_def)
  have nil: "words_of [] = []" by (simp add: words_of.simps)
  have hd_keep: "zs \<noteq> [] \<Longrightarrow> list_all (\<lambda>b. \<not> b_space b) zs \<Longrightarrow> dropWhile b_space (zs @ r) = zs @ r" for zs r
    by (cases zs) auto
  have run: "list_all (\<lambda>b. \<not> b_space b) zs \<Longrightarrow> takeWhile (\<lambda>b. \<not> b_space b) zs = zs
      \<and> dropWhile (\<lambda>b. \<not> b_space b) zs = []" for zs
    by (simp add: list_all_iff)
  have two: "words_of (32 # ys) = [ys]"
    using assms(4) hd_keep [of ys "[]"] run [OF assms(3)] assms(3) sp
    by (subst words_of.simps) (simp add: nil Let_def del: dropWhile_eq_Nil_conv)
  show ?thesis
    using assms hd_keep [of xs "32 # ys"] run [of xs] sp
    by (subst words_of.simps) (simp add: two Let_def takeWhile_append dropWhile_append list_all_iff)
qed

lemma drop_concat_rows:
  "\<forall>r\<in>set rows. length r = k \<Longrightarrow> i < length rows \<Longrightarrow>
     drop (i * k) (concat rows) = rows ! i @ concat (drop (Suc i) rows)"
proof (induction rows arbitrary: i)
  case Nil
  then show ?case by simp
next
  case (Cons r rows)
  then show ?case by (cases i) auto
qed

lemma unpad_rows_concat:
  assumes "\<forall>r\<in>set rows. length r = stride" "packed \<le> stride"
  shows "unpad_rows stride packed (length rows) (concat rows) = concat (map (take packed) rows)"
proof -
  have "take packed (drop (i * stride) (concat rows)) = take packed (rows ! i)"
    if i: "i < length rows" for i
  proof -
    have "length (rows ! i) = stride" using i assms(1) by simp
    with drop_concat_rows [OF assms(1) i] assms(2) show ?thesis by simp
  qed
  then have "map (\<lambda>i. take packed (drop (i * stride) (concat rows))) [0..<length rows]
      = map (take packed) rows"
    by (intro nth_equalityI) simp_all
  then show ?thesis by (simp only: unpad_rows_def)
qed

lemma length_concat_rows: "\<forall>r\<in>set rows. length r = k \<Longrightarrow> length (concat rows) = length rows * k"
  by (induction rows) auto

text \<open>What QEMU writes: the header lines, then the rows.\<close>

definition screendump :: "nat \<Rightarrow> nat \<Rightarrow> bytes list \<Rightarrow> bytes" where
  "screendump w h rows =
     ascii ''P6'' @ 10 # (ascii (str_nat w) @ 32 # ascii (str_nat h)) @ 10 # ascii ''255'' @ 10 # concat rows"

lemma str_nat_bytes:
  "list_all b_digit (ascii (str_nat n))" "ascii (str_nat n) \<noteq> []"
  using str_nat_digits [of n] by (simp_all add: str_nat_def ascii_def)

lemma screendump_fields:
  assumes "w \<le> 65535" "h \<le> 65535"
  shows "split_on 10 3 (screendump w h rows) =
           [ascii ''P6'', ascii (str_nat w) @ 32 # ascii (str_nat h), ascii ''255'', concat rows]"
    and "words_of (ascii (str_nat w) @ 32 # ascii (str_nat h)) = [ascii (str_nat w), ascii (str_nat h)]"
proof -
  have no10: "10 \<notin> set (ascii (str_nat n))" for n
    using str_nat_bytes(1) [of n] by (auto simp: list_all_iff dest: b_digit_not_sign)
  have "split_on 10 (Suc (Suc (Suc 0))) (screendump w h rows) =
           [ascii ''P6'', ascii (str_nat w) @ 32 # ascii (str_nat h), ascii ''255'', concat rows]"
    unfolding screendump_def using no10 [of w] no10 [of h]
    by (subst split_on_sep, simp)+ simp
  then show "split_on 10 3 (screendump w h rows) =
           [ascii ''P6'', ascii (str_nat w) @ 32 # ascii (str_nat h), ascii ''255'', concat rows]"
    by (simp add: numeral_3_eq_3)
  show "words_of (ascii (str_nat w) @ 32 # ascii (str_nat h)) = [ascii (str_nat w), ascii (str_nat h)]"
    using str_nat_bytes by (intro words_of_pair) (auto simp: list_all_iff dest: b_digit_not_space)
qed

lemma py_int_255: "py_int (ascii ''255'') = Some 255"
proof -
  have "str_nat 255 = ''255''"
    by code_simp
  then show ?thesis using py_int_str_nat [of 255] by simp
qed

lemma frame_pixel_rows:
  assumes "\<forall>r\<in>set rows. length r = 3 * w" "x < w" "y < length rows"
  shows "frame_pixel \<lparr>frame_width = int w, frame_height = int (length rows), pixels = concat rows\<rparr>
           (int x) (int y) = Inr (take 3 (drop (3 * x) (rows ! y)))"
proof -
  have off: "nat ((int y * int w + int x) * 3) = 3 * x + y * (3 * w)"
  proof -
    have "(int y * int w + int x) * 3 = int (3 * x + y * (3 * w))" by (simp add: algebra_simps)
    then show ?thesis by (simp only: nat_int)
  qed
  have "drop (3 * x + y * (3 * w)) (concat rows) = drop (3 * x) (drop (y * (3 * w)) (concat rows))"
    by (simp add: add.commute)
  also have "\<dots> = drop (3 * x) (rows ! y @ concat (drop (Suc y) rows))"
    using assms by (simp only: drop_concat_rows [OF assms(1,3)])
  also have "take 3 \<dots> = take 3 (drop (3 * x) (rows ! y))"
    using assms by simp
  finally have "take 3 (drop (3 * x + y * (3 * w)) (concat rows)) = take 3 (drop (3 * x) (rows ! y))" .
  then show ?thesis
    using assms by (simp add: frame_pixel_def off Let_def del: distrib_right_numeral)
qed

lemma parse_screendump:
  assumes w: "1 \<le> w" "w \<le> 65535" and h: "1 \<le> length rows" "length rows \<le> 65535"
    and k: "k = 3 * w \<or> k = (3 * w + 3) div 4 * 4" and rows: "\<forall>r\<in>set rows. length r = k"
  shows "parse_qemu_ppm (screendump w (length rows) rows) =
           Inr \<lparr>frame_width = int w, frame_height = int (length rows),
                pixels = concat (map (take (3 * w)) rows)\<rparr>"
proof -
  let ?h = "length rows" and ?px = "concat (map (take (3 * w)) rows)"
  have le: "3 * w \<le> k" using k by auto
  have trim: "\<forall>r\<in>set (map (take (3 * w)) rows). length r = 3 * w" using rows le by auto
  have lpx: "length ?px = ?h * (3 * w)" using length_concat_rows [OF trim] by simp
  have make: "RGBFrame (int w) (int ?h) ?px =
      Inr \<lparr>frame_width = int w, frame_height = int ?h, pixels = ?px\<rparr>"
    using w h lpx by (simp add: RGBFrame_def)
  have len: "length (concat rows) = ?h * k" by (rule length_concat_rows [OF rows])
  have stride: "row_stride (int w * 3) = int ((3 * w + 3) div 4 * 4)"
    by (simp add: row_stride_eq algebra_simps zdiv_int)
  have nz: "(ascii ''P6'' \<noteq> ascii ''P6'' \<or> (255::int) \<noteq> 255 \<or> int w \<le> 0 \<or> int ?h \<le> 0) = False"
    using w h by auto
  have full: "parse_qemu_ppm (screendump w ?h rows) =
     (if int (?h * k) \<noteq> int w * int ?h * 3 then
        (if int (?h * k) = row_stride (int w * 3) * int ?h
         then RGBFrame (int w) (int ?h)
                (unpad_rows (nat (row_stride (int w * 3))) (nat (int w * 3)) ?h (concat rows))
         else Inl (FramebufferError (''framebuffer payload has '' @ str_nat (?h * k)
                @ '' bytes; expected '' @ str_int (int w * int ?h * 3))))
      else RGBFrame (int w) (int ?h) (concat rows))"
    by (simp only: parse_qemu_ppm_def screendump_fields [OF w(2) h(2)] list.case prod.case
        option.case py_int_str_nat [OF w(2)] py_int_str_nat [OF h(2)] py_int_255 Let_def len nz
        if_False nat_int)
  show ?thesis
  proof (cases "k = 3 * w")
    case True
    have e: "int (?h * k) = int w * int ?h * 3" by (simp add: True)
    have m: "map (take (3 * w)) rows = rows" using True rows by (simp add: map_idI)
    show ?thesis using full make unfolding e m by simp
  next
    case False
    then have k': "k = (3 * w + 3) div 4 * 4" using k by blast
    have "?h * k \<noteq> ?h * (3 * w)" using False h by auto
    then have "int (?h * k) \<noteq> int (?h * (3 * w))" by (simp only: of_nat_eq_iff not_False_eq_True)
    then have ne: "int (?h * k) \<noteq> int w * int ?h * 3" by (simp add: mult_ac)
    have st: "row_stride (int w * 3) = int k" using stride k' by simp
    have px: "unpad_rows k (3 * w) ?h (concat rows) = ?px" by (rule unpad_rows_concat [OF rows le])
    have n: "nat (int w * 3) = 3 * w" "int (?h * k) = int k * int ?h" by simp_all
    show ?thesis using full make ne unfolding st n nat_int px by simp
  qed
qed

text \<open>
  C34. A screendump of \<open>w\<close> by \<open>h\<close> pixels, whether its rows are packed or padded to four bytes,
  parses to a frame of those dimensions whose pixel at every coordinate is the three bytes at
  that column of that row; the padding never reaches the frame.
\<close>

theorem parse_qemu_ppm_pixels:
  assumes "1 \<le> w" "w \<le> 65535" "1 \<le> length rows" "length rows \<le> 65535"
    and "k = 3 * w \<or> k = (3 * w + 3) div 4 * 4" and "\<forall>r\<in>set rows. length r = k"
  shows "\<exists>f. parse_qemu_ppm (screendump w (length rows) rows) = Inr f
           \<and> frame_width f = int w \<and> frame_height f = int (length rows)
           \<and> pixels f = concat (map (take (3 * w)) rows)
           \<and> (\<forall>x y. x < w \<longrightarrow> y < length rows \<longrightarrow>
                 frame_pixel f (int x) (int y) = Inr (take 3 (drop (3 * x) (rows ! y))))"
proof -
  have le: "3 * w \<le> k" using assms(5) by auto
  then have trim: "\<forall>r\<in>set (map (take (3 * w)) rows). length r = 3 * w" using assms(6) by auto
  have px: "take 3 (drop (3 * x) (take (3 * w) (rows ! y))) = take 3 (drop (3 * x) (rows ! y))"
    if "x < w" for x y
    using that by (simp add: drop_take min_def)
  show ?thesis
    using frame_pixel_rows [OF trim] parse_screendump [OF assms] px by auto
qed

theorem parse_qemu_ppm_pixels_witness:
  "\<exists>f. parse_qemu_ppm (screendump 1 2 [[1, 2, 3, 0], [4, 5, 6, 0]]) = Inr f
     \<and> pixels f = [1, 2, 3, 4, 5, 6] \<and> frame_pixel f 0 1 = Inr [4, 5, 6]"
proof -
  have "\<forall>r\<in>set [[1, 2, 3, 0], [4, 5, 6, 0 :: byte]]. length r = 4" by simp
  from parse_qemu_ppm_pixels [OF _ _ _ _ _ this, of 1]
  obtain f where f: "parse_qemu_ppm (screendump 1 2 [[1, 2, 3, 0], [4, 5, 6, 0]]) = Inr f"
    "pixels f = concat (map (take 3) [[1, 2, 3, 0], [4, 5, 6, 0]])"
    "\<forall>x y. x < 1 \<longrightarrow> y < 2 \<longrightarrow> frame_pixel f (int x) (int y)
       = Inr (take 3 (drop (3 * x) ([[1, 2, 3, 0], [4, 5, 6, 0]] ! y)))"
    by (auto simp: numeral_2_eq_2)
  from f(3) [rule_format, of 0 1] f(1,2) show ?thesis by auto
qed

subsection \<open>Packets\<close>

lemmas packet_defs = encode_framebuffer_packet_def parse_framebuffer_packet_def
  FRAMEBUFFER_MAGIC_def FRAMEBUFFER_PROTOCOL_VERSION_def FRAMEBUFFER_PIXEL_FORMAT_RGB24_def
  FRAMEBUFFER_HEADER_size_def

text \<open>
  C35. Every valid frame survives the stream: for any sequence number of 32 bits the packet
  exists, is 14 bytes longer than the pixels, and parses back to that number and that frame.
\<close>

theorem framebuffer_packet_roundtrip:
  assumes "valid_frame f" "0 \<le> s" "s \<le> 0xFFFFFFFF"
  shows "\<exists>p. encode_framebuffer_packet f s = Inr p \<and> length p = 14 + length (pixels f)
           \<and> parse_framebuffer_packet p = Inr (s, f)"
proof -
  let ?w = "nat (frame_width f)" and ?h = "nat (frame_height f)"
  have v: "?w < 256 ^ 2" "?h < 256 ^ 2" "nat s < 256 ^ 4"
    using assms by (auto simp: valid_frame_def)
  have i: "int ?w = frame_width f" "int ?h = frame_height f" "int (nat s) = s"
    using assms by (auto simp: valid_frame_def)
  have d: "be_decode (be_encode 2 ?w) = ?w" "be_decode (be_encode 2 ?h) = ?h"
    "be_decode (be_encode 4 (nat s)) = nat s" "be_decode [1] = 1"
    using be_decode_encode [OF v(1)] be_decode_encode [OF v(2)] be_decode_encode [OF v(3)]
    by (simp_all add: be_decode_def)
  have px: "int (length (pixels f)) = frame_width f * frame_height f * 3"
    "0 \<le> frame_width f" "0 \<le> frame_height f" "frame_width f \<noteq> 0" "frame_height f \<noteq> 0"
    using assms(1) by (simp_all add: valid_frame_def)
  show ?thesis
    using assms(2,3) px
    by (simp add: packet_defs Let_def d i RGBFrame_of_valid [OF assms(1)])
qed

theorem framebuffer_packet_roundtrip_witness:
  "\<exists>p. encode_framebuffer_packet \<lparr>frame_width = 1, frame_height = 1, pixels = [9, 8, 7]\<rparr> 5 = Inr p
     \<and> parse_framebuffer_packet p = Inr (5, \<lparr>frame_width = 1, frame_height = 1, pixels = [9, 8, 7]\<rparr>)"
  using framebuffer_packet_roundtrip [of "\<lparr>frame_width = 1, frame_height = 1, pixels = [9, 8, 7]\<rparr>" 5]
  by (auto simp: valid_frame_def)

text \<open>
  The packet parser accepts nothing but encodings: what it accepts is a valid frame with a
  32-bit sequence number, and encoding that frame again gives the same bytes.
\<close>

theorem framebuffer_packet_canonical:
  assumes "parse_framebuffer_packet p = Inr (s, f)"
  shows "valid_frame f \<and> 0 \<le> s \<and> s \<le> 0xFFFFFFFF \<and> encode_framebuffer_packet f s = Inr p"
proof -
  let ?m = "take 4 p" and ?v = "take 1 (drop 4 p)" and ?c = "take 1 (drop 5 p)"
    and ?w = "take 2 (drop 6 p)" and ?h = "take 2 (drop 8 p)" and ?s = "take 4 (drop 10 p)"
  have len: "14 \<le> length p" using assms by (simp add: packet_defs split: if_splits)
  have eq: "?m = ascii ''ESPF''" "be_decode ?v = 1" "be_decode ?c = 1" "s = int (be_decode ?s)"
    and f: "RGBFrame (int (be_decode ?w)) (int (be_decode ?h)) (drop 14 p) = Inr f"
    using assms len by (auto simp: packet_defs Let_def split: if_splits sum.splits)
  have fv: "valid_frame f" by (rule RGBFrame_valid [OF f])
  have fe: "frame_width f = int (be_decode ?w)" "frame_height f = int (be_decode ?h)" "pixels f = drop 14 p"
    using f by (auto simp: RGBFrame_def split: if_splits)
  have enc: "?v = [1]" "?c = [1]" "be_encode 2 (be_decode ?w) = ?w"
    "be_encode 2 (be_decode ?h) = ?h" "be_encode 4 (be_decode ?s) = ?s"
    using len eq be_encode_decode_eq [of ?v 1] be_encode_decode_eq [of ?c 1]
    by (auto intro: be_encode_decode_eq)
  have bound: "be_decode ?s < 256 ^ 4" using be_decode_bound [of ?s] len by simp
  have cut: "take k (drop n p) @ drop (n + k) p = drop n p" for n k
    by (metis append_take_drop_id drop_drop add.commute)
  have whole: "?m @ ?v @ ?c @ ?w @ ?h @ ?s @ drop 14 p = p"
    using cut [of 4 10] cut [of 2 8] cut [of 2 6] cut [of 1 5] cut [of 1 4] by simp
  have "encode_framebuffer_packet f s = Inr (?m @ ?v @ ?c @ ?w @ ?h @ ?s @ drop 14 p)"
    using bound by (simp add: packet_defs fe eq(1,4) enc enc [simplified] del: take_drop)
  with whole fv bound eq(4) show ?thesis by simp
qed

theorem framebuffer_packet_canonical_witness:
  "\<exists>f. parse_framebuffer_packet (ascii ''ESPF'' @ [1, 1, 0, 1, 0, 1, 0, 0, 0, 5, 9, 8, 7]) = Inr (5, f)
     \<and> encode_framebuffer_packet f 5 = Inr (ascii ''ESPF'' @ [1, 1, 0, 1, 0, 1, 0, 0, 0, 5, 9, 8, 7])"
proof -
  let ?p = "ascii ''ESPF'' @ [1, 1, 0, 1, 0, 1, 0, 0, 0, 5, 9, 8, 7]"
  have "parse_framebuffer_packet ?p = Inr (5, \<lparr>frame_width = 1, frame_height = 1, pixels = [9, 8, 7]\<rparr>)"
    by code_simp
  from this framebuffer_packet_canonical [OF this] show ?thesis by blast
qed

end
