(* ===== verification/Gdb.thy ===== *)
theory Gdb
  imports Sim_Monad Qmp Framebuffer File_System
begin

section \<open>The private GDB remote client (gdb.py)\<close>

text \<open>
  The client's state is what it has read and written: the bytes still to arrive and how the
  stream ends after them, the bytes written, the negotiated flags and the cached register table.
  A read past the arriving bytes raises \<open>IncompleteReadError\<close> at end of file, \<open>TimeoutError\<close> when
  the peer is silent under the command's timeout, and \<open>CancelledError\<close> when it is silent without
  one (such a wait only ends with the task's cancellation).  Left out: bytes of an unfinished piece that
  \<open>asyncio\<close> would keep in its buffer when a read times out, and the limits of its buffers.
\<close>

record register_definition =
  reg_name :: utext
  reg_number :: int
  reg_bitsize :: int

definition Reg :: "string \<Rightarrow> int \<Rightarrow> int \<Rightarrow> register_definition" where
  "Reg n i b = \<lparr>reg_name = lit n, reg_number = i, reg_bitsize = b\<rparr>"

definition ESP32_S3_CORE_REGISTERS :: "register_definition list" where
  "ESP32_S3_CORE_REGISTERS =
     [Reg ''pc'' 0 32] @ map (\<lambda>i. Reg (''ar'' @ str_nat i) (int i + 1) 32) [0..<64] @
     [Reg ''lbeg'' 65 32, Reg ''lend'' 66 32, Reg ''lcount'' 67 32, Reg ''sar'' 68 6,
      Reg ''windowbase'' 69 4, Reg ''windowstart'' 70 16, Reg ''configid0'' 71 32,
      Reg ''configid1'' 72 32, Reg ''ps'' 73 19, Reg ''threadptr'' 74 32, Reg ''br'' 75 16,
      Reg ''scompare1'' 76 32, Reg ''acclo'' 77 32, Reg ''acchi'' 78 8, Reg ''m0'' 79 32,
      Reg ''m1'' 80 32, Reg ''m2'' 81 32, Reg ''m3'' 82 32, Reg ''gpio_out'' 83 8]"

record gdb_client =
  incoming :: bytes
  stream_ends :: stream_end
  write_error :: "exn option"
  outgoing :: bytes
  no_ack :: bool
  supports_target_xml :: bool
  registers :: "register_definition list option"

type_synonym 'a gdb = "(gdb_client, 'a) act"

subsection \<open>Checksums and escapes\<close>

definition checksum :: "bytes \<Rightarrow> bytes" where
  "checksum payload = ascii (hex2 (sum_list payload))"

fun decode_acc :: "bytes \<Rightarrow> bytes \<Rightarrow> exn + bytes" where
  "decode_acc decoded [] = Inr decoded"
| "decode_acc decoded (v # r) =
     (if v = 125 then
        (case r of
           [] \<Rightarrow> Inl (GdbRemoteError ''GDB returned a truncated escape sequence'')
         | x # r' \<Rightarrow> decode_acc (decoded @ [x XOR 0x20]) r')
      else if v = 42 then
        (case r of
           [] \<Rightarrow> Inl (GdbRemoteError ''GDB returned invalid run-length encoding'')
         | x # r' \<Rightarrow>
             if decoded = [] then Inl (GdbRemoteError ''GDB returned invalid run-length encoding'')
             else decode_acc (decoded @ replicate (unat x - 29) (last decoded)) r')
      else decode_acc (decoded @ [v]) r)"

definition decode_payload :: "bytes \<Rightarrow> exn + bytes" where
  "decode_payload payload = decode_acc [] payload"

subsection \<open>Stream primitives\<close>

definition end_error :: "bool \<Rightarrow> stream_end \<Rightarrow> exn" where
  "end_error timed fin =
     (case fin of Eof \<Rightarrow> IncompleteReadError
      | Silent \<Rightarrow> (if timed then TimeoutError else CancelledError)
      | Broken e \<Rightarrow> e)"

definition read_exactly :: "bool \<Rightarrow> nat \<Rightarrow> bytes gdb" where
  "read_exactly timed n c =
     (if n \<le> length (incoming c) then (Inr (take n (incoming c)), c\<lparr>incoming := drop n (incoming c)\<rparr>)
      else (Inl (end_error timed (stream_ends c)), c\<lparr>incoming := []\<rparr>))"

definition read_until :: "bool \<Rightarrow> byte \<Rightarrow> bytes gdb" where
  "read_until timed sep c =
     (let pre = takeWhile (\<lambda>b. b \<noteq> sep) (incoming c); n = Suc (length pre) in
      if n \<le> length (incoming c) then (Inr (take n (incoming c)), c\<lparr>incoming := drop n (incoming c)\<rparr>)
      else (Inl (end_error timed (stream_ends c)), c\<lparr>incoming := []\<rparr>))"

definition gdb_write :: "bytes \<Rightarrow> unit gdb" where
  "gdb_write bs c = (case write_error c of
      Some e \<Rightarrow> (Inl e, c)
    | None \<Rightarrow> (Inr (), c\<lparr>outgoing := outgoing c @ bs\<rparr>))"

text \<open>The marker loop of \<open>_read_packet\<close>: bytes before the next \<open>$\<close> are dropped, \<open>-\<close> is a NAK.\<close>

fun scan_marker :: "bytes \<Rightarrow> bool option \<times> bytes" where
  "scan_marker [] = (None, [])"
| "scan_marker (b # bs) =
     (if b = 36 then (Some True, bs) else if b = 45 then (Some False, bs) else scan_marker bs)"

definition read_marker :: "bool \<Rightarrow> unit gdb" where
  "read_marker timed c =
     (case scan_marker (incoming c) of (m, rest) \<Rightarrow>
        let c' = c\<lparr>incoming := rest\<rparr> in
        (case m of
           Some True \<Rightarrow> (Inr (), c')
         | Some False \<Rightarrow> (Inl (GdbRemoteError ''QEMU rejected the GDB request checksum''), c')
         | None \<Rightarrow> (Inl (end_error timed (stream_ends c)), c')))"

definition lower_byte :: "byte \<Rightarrow> byte" where
  "lower_byte b = (if 65 \<le> b \<and> b \<le> 90 then b + 32 else b)"

definition read_packet :: "bool \<Rightarrow> utext gdb" where
  "read_packet timed =
     andthen (read_marker timed)
    (bind (read_until timed 35) (\<lambda>raw.
       let encoded = butlast raw in
       bind (read_exactly timed 2) (\<lambda>expected.
       bind (gets no_ack) (\<lambda>quiet.
       if map lower_byte (checksum encoded) \<noteq> map lower_byte expected then
         andthen (if quiet then ok () else gdb_write [45])
           (throw (GdbRemoteError ''QEMU returned a GDB packet with a bad checksum''))
       else
         andthen (if quiet then ok () else gdb_write [43])
        (bind (lift_sum (decode_payload encoded)) (\<lambda>decoded.
           case utf8_decode False decoded of
             None \<Rightarrow> throw (GdbRemoteError ''QEMU returned non-text GDB packet data'')
           | Some t \<Rightarrow> ok t))))))"

lemma scan_marker_shorter:
  "scan_marker bs = (Some b, rest) \<Longrightarrow> length rest < length bs"
  by (induction bs) (auto split: if_splits)

lemma incoming_length:
  "read_exactly timed n c = (r, c') \<Longrightarrow> length (incoming c') \<le> length (incoming c)"
  "read_until timed sep c = (r, c') \<Longrightarrow> length (incoming c') \<le> length (incoming c)"
  "gdb_write bs c = (r', c') \<Longrightarrow> incoming c' = incoming c"
  "read_marker timed c = (Inr u, c') \<Longrightarrow> length (incoming c') < length (incoming c)"
  by (auto simp: read_exactly_def read_until_def gdb_write_def read_marker_def Let_def
      dest: scan_marker_shorter split: if_splits option.splits prod.splits bool.splits)

lemma read_packet_shorter:
  assumes "read_packet timed c = (Inr t, c')"
  shows "length (incoming c') < length (incoming c)"
proof -
  obtain u c1 where m: "read_marker timed c = (Inr u, c1)"
    and rest: "bind (read_until timed 35) (\<lambda>raw.
       let encoded = butlast raw in
       bind (read_exactly timed 2) (\<lambda>expected.
       bind (gets no_ack) (\<lambda>quiet.
       if map lower_byte (checksum encoded) \<noteq> map lower_byte expected then
         andthen (if quiet then ok () else gdb_write [45])
           (throw (GdbRemoteError ''QEMU returned a GDB packet with a bad checksum''))
       else
         andthen (if quiet then ok () else gdb_write [43])
        (bind (lift_sum (decode_payload encoded)) (\<lambda>decoded.
           case utf8_decode False decoded of
             None \<Rightarrow> throw (GdbRemoteError ''QEMU returned non-text GDB packet data'')
           | Some t \<Rightarrow> ok t))))) c1 = (Inr t, c')"
    using assms unfolding read_packet_def by (rule andthen_InrE)
  have le: "length (incoming c') \<le> length (incoming c1)"
    using rest
    by (auto simp: bind_def andthen_def Let_def split: prod.splits sum.splits if_splits option.splits
        dest!: incoming_length(1,2,3))
  with incoming_length(4) [OF m] show ?thesis by simp
qed

text \<open>The reply loop of \<open>_command_unlocked\<close>: console output packets (\<open>O\<close> and hex pairs) are skipped.\<close>

definition is_console_output :: "utext \<Rightarrow> bool" where
  "is_console_output t =
     (t \<noteq> [] \<and> hd t = 79 \<and> 1 < length t \<and> even (length (tl t)) \<and> list_all (\<lambda>c. hex_val c \<noteq> None) (tl t))"

function read_reply :: "bool \<Rightarrow> gdb_client \<Rightarrow> (exn + utext) \<times> gdb_client" where
  "read_reply timed c =
     (case read_packet timed c of
        (Inl e, c') \<Rightarrow> (Inl e, c')
      | (Inr response, c') \<Rightarrow>
          if is_console_output response then read_reply timed c' else (Inr response, c'))"
  by pat_completeness auto
termination
  by (relation "measure (\<lambda>(timed, c). length (incoming c))") (auto dest: read_packet_shorter [OF sym])

declare read_reply.simps [simp del]

definition command_unlocked :: "bool \<Rightarrow> string \<Rightarrow> utext gdb" where
  "command_unlocked timed payload =
     (let encoded = ascii payload in
      andthen (gdb_write ([36] @ encoded @ [35] @ checksum encoded))
     (bind (gets no_ack) (\<lambda>quiet.
      andthen (if quiet then ok ()
               else bind (read_exactly timed 1) (\<lambda>acknowledgement.
                 if acknowledgement \<noteq> [43]
                 then throw (GdbRemoteError ''QEMU did not acknowledge the GDB request'')
                 else ok ()))
        (read_reply timed))))"

definition map_command_error :: "string \<Rightarrow> exn \<Rightarrow> exn" where
  "map_command_error payload e =
     (if e = TimeoutError then GdbRemoteError (''GDB command timed out: '' @ take 32 payload)
      else if e = IncompleteReadError \<or> is_connection_error e
        then GdbRemoteError ''QEMU closed the private GDB connection''
      else e)"

definition command :: "bool \<Rightarrow> string \<Rightarrow> utext gdb" where
  "command timed payload =
     catching (command_unlocked timed payload) (\<lambda>e. throw (map_command_error payload e))"


lemma command_shorter:
  assumes "command timed payload c = (Inr t, c')"
  shows "length (incoming c') < length (incoming c)"
proof -
  have reply: "length (incoming b') < length (incoming b)" if "read_reply timed b = (Inr t, b')" for b b'
    using that
  proof (induction timed b rule: read_reply.induct)
    case (1 timed b)
    show ?case
    proof (cases "read_packet timed b")
      case (Pair r b1)
      with 1(2) obtain u where u: "read_packet timed b = (Inr u, b1)"
        by (cases r) (auto simp: read_reply.simps [of timed b])
      show ?thesis
      proof (cases "is_console_output u")
        case True
        with 1 u have "length (incoming b') < length (incoming b1)"
          by (auto simp: read_reply.simps [of timed b])
        with read_packet_shorter [OF u] show ?thesis by simp
      next
        case False
        with 1 u have "b' = b1" by (auto simp: read_reply.simps [of timed b])
        with read_packet_shorter [OF u] show ?thesis by simp
      qed
    qed
  qed
  have "command_unlocked timed payload c = (Inr t, c')"
    using assms by (auto simp: command_def catching_def split: prod.splits sum.splits)
  then show ?thesis
    by (auto simp: command_unlocked_def bind_def andthen_def Let_def split: prod.splits sum.splits if_splits
        dest!: incoming_length(1,3) reply)
qed


subsection \<open>Negotiation and connection\<close>

definition occurs_in :: "string \<Rightarrow> utext \<Rightarrow> bool" where
  "occurs_in w t = (\<exists>i\<in>set [0..<Suc (length t)]. starts w (drop i t))"

definition negotiate :: "unit gdb" where
  "negotiate =
     bind (command True ''qSupported:multiprocess+;qRelocInsn+'') (\<lambda>supported.
     andthen (modify (\<lambda>c. c\<lparr>supports_target_xml := occurs_in ''qXfer:features:read+'' supported\<rparr>))
       (if occurs_in ''QStartNoAckMode+'' supported then
          bind (command True ''QStartNoAckMode'') (\<lambda>answer.
            if answer \<noteq> lit ''OK'' then throw (GdbRemoteError ''QEMU rejected GDB no-ack mode'')
            else modify (\<lambda>c. c\<lparr>no_ack := True\<rparr>))
        else ok ()))"

text \<open>
  The attempts made before the deadline: \<open>None\<close> is a connection refused with an \<open>OSError\<close>,
  \<open>Some c\<close> a stream to negotiate on.
\<close>

fun connect :: "path \<Rightarrow> gdb_client option list \<Rightarrow> exn + gdb_client" where
  "connect p [] = Inl (GdbRemoteError (''GDB socket is unavailable: '' @ str_path p))"
| "connect p (None # rest) = connect p rest"
| "connect p (Some c # rest) =
     (case negotiate c of
        (Inr (), c') \<Rightarrow> Inr c'
      | (Inl e, c') \<Rightarrow> if is_os_error e then connect p rest else Inl e)"

subsection \<open>Register descriptions\<close>

definition show_text :: "utext \<Rightarrow> string" where
  "show_text t = map char_of t"

definition utf8_char :: "nat \<Rightarrow> bytes" where
  "utf8_char v = map of_nat
     (if v < 0x80 then [v]
      else if v < 0x800 then [0xC0 + v div 64, 0x80 + v mod 64]
      else if v < 0x10000 then [0xE0 + v div 4096, 0x80 + v div 64 mod 64, 0x80 + v mod 64]
      else [0xF0 + v div 262144, 0x80 + v div 4096 mod 64, 0x80 + v div 64 mod 64, 0x80 + v mod 64])"

definition utf8_encode :: "utext \<Rightarrow> bytes" where
  "utf8_encode t = concat (map utf8_char t)"

function read_annex_from :: "string \<Rightarrow> bytes \<Rightarrow> gdb_client \<Rightarrow> (exn + bytes) \<times> gdb_client" where
  "read_annex_from annex result c =
     (case command True (''qXfer:features:read:'' @ annex @ '':'' @ hex_nat (length result) @ '',1000'') c of
        (Inl e, c') \<Rightarrow> (Inl e, c')
      | (Inr response, c') \<Rightarrow>
          if response = [] \<or> hd response \<notin> {109, 108}
          then (Inl (GdbRemoteError (''QEMU rejected GDB feature annex: '' @ annex)), c')
          else let result' = result @ utf8_encode (tl response) in
            if hd response = 108 then (Inr result', c') else read_annex_from annex result' c')"
  by pat_completeness auto
termination
  by (relation "measure (\<lambda>(annex, result, c). length (incoming c))")
    (auto dest: command_shorter [OF sym])

declare read_annex_from.simps [simp del]

definition read_annex :: "utext \<Rightarrow> bytes gdb" where
  "read_annex annex =
     (if list_all (\<lambda>v. v < 128) annex then read_annex_from (show_text annex) []
      else throw (ValueError ''ascii codec cannot encode the request''))"

lemma read_annex_shorter:
  assumes "read_annex annex c = (Inr bs, c')"
  shows "length (incoming c') < length (incoming c)"
proof -
  have "read_annex_from a result b = (Inr bs, b') \<Longrightarrow> length (incoming b') < length (incoming b)"
    for a result b b'
  proof (induction a result b rule: read_annex_from.induct)
    case (1 a result b)
    show ?case
    proof (cases "command True (''qXfer:features:read:'' @ a @ '':'' @ hex_nat (length result) @ '',1000'') b")
      case (Pair r b1)
      with 1(2) obtain u where u: "r = Inr u"
        by (cases r) (auto simp: read_annex_from.simps [of a result b])
      from command_shorter [OF Pair [unfolded u]] 1 Pair u show ?thesis
        by (fastforce simp: read_annex_from.simps [of a result b] Let_def split: if_splits)
    qed
  qed
  with assms show ?thesis by (simp add: read_annex_def split: if_splits)
qed

text \<open>
  The XML parser (expat) is a parameter: it gives the elements of \<open>root.iter()\<close>, each with its tag
  and attributes, or \<open>None\<close> for a \<open>ParseError\<close>.  \<open>int\<close> of a text with other than ASCII characters is
  the parameter \<open>uni_int\<close>.
\<close>

record xml_element =
  xe_tag :: utext
  xe_attributes :: "(utext \<times> utext) list"

definition attribute :: "xml_element \<Rightarrow> string \<Rightarrow> utext option" where
  "attribute e k = map_of (xe_attributes e) (lit k)"

definition text_int :: "(utext \<Rightarrow> int option) \<Rightarrow> utext \<Rightarrow> exn + int" where
  "text_int uni_int t =
     (case (if list_all (\<lambda>v. v < 128) t then py_int (map of_nat t) else uni_int t) of
        None \<Rightarrow> Inl (ValueError ''invalid literal for int()'') | Some i \<Rightarrow> Inr i)"

definition local_name :: "xml_element \<Rightarrow> utext" where
  "local_name e = rev (takeWhile (\<lambda>v. v \<noteq> 125) (rev (xe_tag e)))"

definition opt_text :: "utext option \<Rightarrow> utext" where
  "opt_text t = (case t of None \<Rightarrow> [] | Some x \<Rightarrow> x)"

fun scan_elements :: "(utext \<Rightarrow> int option) \<Rightarrow> xml_element list \<Rightarrow> utext list \<Rightarrow>
    register_definition list \<Rightarrow> int \<Rightarrow> exn + utext list \<times> register_definition list \<times> int" where
  "scan_elements ui [] pending regs next_number = Inr (pending, regs, next_number)"
| "scan_elements ui (e # es) pending regs next_number =
     (let pending' = (if local_name e = lit ''include'' \<and> opt_text (attribute e ''href'') \<noteq> []
                      then pending @ [opt_text (attribute e ''href'')] else pending);
          rname = opt_text (attribute e ''name''); bits = opt_text (attribute e ''bitsize'') in
      if local_name e \<noteq> lit ''reg'' \<or> rname = [] \<or> bits = []
      then scan_elements ui es pending' regs next_number
      else sum_bind (case attribute e ''regnum'' of None \<Rightarrow> Inr next_number | Some t \<Rightarrow> text_int ui t)
        (\<lambda>number. sum_bind (text_int ui bits) (\<lambda>bitsize.
          let regs' = regs @ [\<lparr>reg_name = rname, reg_number = number, reg_bitsize = bitsize\<rparr>] in
          if 256 < length regs' then Inl (GdbRemoteError ''QEMU exposed too many GDB registers'')
          else scan_elements ui es pending' regs' (number + 1))))"

function collect_registers :: "(bytes \<Rightarrow> xml_element list option) \<Rightarrow> (utext \<Rightarrow> int option) \<Rightarrow>
    utext list \<Rightarrow> utext list \<Rightarrow> register_definition list \<Rightarrow> int \<Rightarrow> gdb_client \<Rightarrow>
    (exn + register_definition list) \<times> gdb_client" where
  "collect_registers px ui [] visited regs next_number c = (Inr regs, c)"
| "collect_registers px ui (annex # pending) visited regs next_number c =
     (if annex \<in> set visited then collect_registers px ui pending visited regs next_number c
      else case read_annex annex c of
        (Inl e, c') \<Rightarrow> (Inl e, c')
      | (Inr xml, c') \<Rightarrow>
          (case px xml of
             None \<Rightarrow> (Inl (GdbRemoteError (''QEMU returned invalid register XML: '' @ show_text annex)), c')
           | Some es \<Rightarrow>
               (case scan_elements ui es pending regs next_number of
                  Inl e \<Rightarrow> (Inl e, c')
                | Inr (pending', regs', next') \<Rightarrow>
                    collect_registers px ui pending' (annex # visited) regs' next' c')))"
  by pat_completeness auto
termination
  by (relation "(\<lambda>(px, ui, pending, v, r, n, c). length (incoming c)) <*mlex*>
        measure (\<lambda>(px, ui, pending, v, r, n, c). length pending)")
    (auto simp: wf_mlex mlex_prod_def dest: read_annex_shorter [OF sym])

definition register_definitions :: "(bytes \<Rightarrow> xml_element list option) \<Rightarrow> (utext \<Rightarrow> int option) \<Rightarrow>
    register_definition list gdb" where
  "register_definitions px ui c =
     (case registers c of
        Some rs \<Rightarrow> (Inr rs, c)
      | None \<Rightarrow>
          if \<not> supports_target_xml c
          then (Inr ESP32_S3_CORE_REGISTERS, c\<lparr>registers := Some ESP32_S3_CORE_REGISTERS\<rparr>)
          else case collect_registers px ui [lit ''target.xml''] [] [] 0 c of
            (Inl e, c') \<Rightarrow> (Inl e, c')
          | (Inr rs, c') \<Rightarrow>
              if rs = [] then (Inl (GdbRemoteError ''QEMU exposed no GDB registers''), c')
              else (Inr rs, c'\<lparr>registers := Some rs\<rparr>))"

declare collect_registers.simps [simp del]

subsection \<open>Registers, memory, breakpoints and execution\<close>

definition hex_int :: "int \<Rightarrow> string" where
  "hex_int i = (if i < 0 then CHR ''-'' # hex_nat (nat (- i)) else hex_nat (nat i))"

definition hex_space :: "nat \<Rightarrow> bool" where
  "hex_space v = (v = 32 \<or> (9 \<le> v \<and> v \<le> 13))"

text \<open>\<open>bytes.fromhex\<close>: white space may stand between the pairs of digits.\<close>

fun from_hex :: "utext \<Rightarrow> bytes option" where
  "from_hex [] = Some []"
| "from_hex (v # t) =
     (if hex_space v then from_hex t
      else (case (hex_val v, t) of
          (Some h, w # t') \<Rightarrow>
            (case hex_val w of Some l \<Rightarrow> map_option ((#) (of_nat (h * 16 + l))) (from_hex t')
             | None \<Rightarrow> None)
        | _ \<Rightarrow> None))"

fun le_decode :: "bytes \<Rightarrow> nat" where
  "le_decode [] = 0"
| "le_decode (b # bs) = unat b + 256 * le_decode bs"

fun put :: "'k \<Rightarrow> 'v \<Rightarrow> ('k \<times> 'v) list \<Rightarrow> ('k \<times> 'v) list" where
  "put k v [] = [(k, v)]"
| "put k v (kv # kvs) = (if fst kv = k then (k, v) # kvs else kv # put k v kvs)"

definition unavailable_value :: "utext \<Rightarrow> bool" where
  "unavailable_value t = (t = [] \<or> starts ''E'' t \<or> list_all (\<lambda>v. v = 120 \<or> v = 88) t)"

fun read_each :: "register_definition list \<Rightarrow> (utext \<times> nat option) list \<Rightarrow> (utext \<times> nat option) list gdb" where
  "read_each [] acc = ok acc"
| "read_each (r # rs) acc =
     bind (command True (''p'' @ hex_int (reg_number r))) (\<lambda>t.
       if unavailable_value t then read_each rs (put (reg_name r) None acc)
       else (case from_hex t of
           None \<Rightarrow> throw (GdbRemoteError (''QEMU returned invalid data for register '' @ show_text (reg_name r)))
         | Some raw \<Rightarrow> read_each rs (put (reg_name r) (Some (le_decode raw)) acc)))"

definition read_registers :: "(bytes \<Rightarrow> xml_element list option) \<Rightarrow> (utext \<Rightarrow> int option) \<Rightarrow>
    (utext \<times> nat option) list gdb" where
  "read_registers px ui = bind (register_definitions px ui) (\<lambda>rs. read_each rs [])"

definition read_memory :: "int \<Rightarrow> int \<Rightarrow> bytes gdb" where
  "read_memory address len =
     (if \<not> (0 \<le> address \<and> address \<le> 0xFFFFFFFF) then
        throw (GdbRemoteError ''debug address must fit in 32 bits'')
      else if \<not> (1 \<le> len \<and> len \<le> 4096) then
        throw (GdbRemoteError ''debug memory reads must be between 1 and 4096 bytes'')
      else bind (command True (''m'' @ hex_int address @ '','' @ hex_int len)) (\<lambda>response.
        if starts ''E'' response then
          throw (GdbRemoteError (''QEMU could not read guest memory: '' @ show_text response))
        else (case from_hex response of
            None \<Rightarrow> throw (GdbRemoteError ''QEMU returned invalid guest memory data'')
          | Some data \<Rightarrow>
              if int (length data) \<noteq> len
              then throw (GdbRemoteError ''QEMU returned a short guest memory read'')
              else ok data)))"

definition set_breakpoint :: "int \<Rightarrow> bool \<Rightarrow> unit gdb" where
  "set_breakpoint address enabled =
     (if \<not> (0 \<le> address \<and> address \<le> 0xFFFFFFFF) then
        throw (GdbRemoteError ''breakpoint address must fit in 32 bits'')
      else let operation = (if enabled then ''Z'' else ''z'') in
        bind (command True (operation @ ''1,'' @ hex_int address @ '',1'')) (\<lambda>response.
          if response \<noteq> lit ''OK'' then
            throw (GdbRemoteError (''QEMU could not '' @ (if enabled then ''add'' else ''remove'') @ '' the breakpoint''))
          else ok ()))"

definition add_breakpoint :: "int \<Rightarrow> unit gdb" where
  "add_breakpoint address = set_breakpoint address True"

definition remove_breakpoint :: "int \<Rightarrow> unit gdb" where
  "remove_breakpoint address = set_breakpoint address False"

definition gdb_step :: "utext gdb" where
  "gdb_step = bind (command True ''s'') (\<lambda>response.
     if \<not> (starts ''S'' response \<or> starts ''T'' response)
     then throw (GdbRemoteError (''QEMU returned an invalid step stop reply: '' @ show_text response))
     else ok response)"

definition continue_execution :: "utext gdb" where
  "continue_execution = bind (command False ''c'') (\<lambda>response.
     if \<not> (starts ''S'' response \<or> starts ''T'' response \<or> starts ''W'' response \<or> starts ''X'' response)
     then throw (GdbRemoteError (''QEMU returned an invalid stop reply: '' @ show_text response))
     else ok response)"

subsection \<open>Replies of a well-behaved stub\<close>

text \<open>How a stub sends a payload: the four special bytes are escaped, the checksum is of what is sent.\<close>

definition gdb_escape :: "bytes \<Rightarrow> bytes" where
  "gdb_escape p = concat (map (\<lambda>b. if b \<in> {35, 36, 42, 125} then [125, b XOR 0x20] else [b]) p)"

definition reply_packet :: "bytes \<Rightarrow> bytes" where
  "reply_packet p = [36] @ gdb_escape p @ [35] @ checksum (gdb_escape p)"

lemma gdb_escape_simps [simp]:
  "gdb_escape [] = []"
  "gdb_escape (b # p) = (if b \<in> {35, 36, 42, 125} then [125, b XOR 0x20] else [b]) @ gdb_escape p"
  by (simp_all add: gdb_escape_def)

lemma decode_acc_escape: "decode_acc acc (gdb_escape p) = Inr (acc @ p)"
proof (induction p arbitrary: acc)
  case Nil
  then show ?case by simp
next
  case (Cons b p)
  then show ?case by (cases "b \<in> {35, 36, 42, 125}") auto
qed

lemma decode_escape [wire]: "decode_payload (gdb_escape p) = Inr p"
  by (simp add: decode_payload_def decode_acc_escape)

lemma escape_no_hash: "takeWhile (\<lambda>b. b \<noteq> 35) (gdb_escape p @ 35 # r) = gdb_escape p"
  by (induction p) auto

lemma length_checksum [wire]: "length (checksum p) = 2"
  by (simp add: checksum_def hex2_def)

lemma utf8_decode_small: "list_all (\<lambda>b. b < 128) p \<Longrightarrow> utf8_decode s p = Some (map unat p)"
  by (induction p) (auto simp: word_less_nat_alt)

lemma scan_marker_skip: "list_all (\<lambda>b. b \<noteq> 36 \<and> b \<noteq> 45) noise \<Longrightarrow> scan_marker (noise @ 36 # r) = (Some True, r)"
  by (induction noise) auto

lemma gdb_write_ok: "write_error c = None \<Longrightarrow> gdb_write bs c = (Inr (), c\<lparr>outgoing := outgoing c @ bs\<rparr>)"
  by (simp add: gdb_write_def)

lemma gdb_read_packet:
  assumes "write_error c = None" and "list_all (\<lambda>b. b < 128) p"
    and "list_all (\<lambda>b. b \<noteq> 36 \<and> b \<noteq> 45) noise"
    and "incoming c = noise @ reply_packet p @ rest"
  shows "read_packet timed c = (Inr (map unat p),
           c\<lparr>incoming := rest, outgoing := outgoing c @ (if no_ack c then [] else [43])\<rparr>)"
proof -
  let ?e = "gdb_escape p"
  let ?c1 = "c\<lparr>incoming := ?e @ 35 # checksum ?e @ rest\<rparr>"
  let ?c2 = "c\<lparr>incoming := checksum ?e @ rest\<rparr>"
  have m: "read_marker timed c = (Inr (), ?c1)"
    using assms(3,4) by (simp add: read_marker_def reply_packet_def scan_marker_skip)
  have u: "read_until timed 35 ?c1 = (Inr (?e @ [35]), ?c2)"
    using escape_no_hash [of p "checksum ?e @ rest"] by (simp add: read_until_def Let_def)
  have x: "read_exactly timed 2 ?c2 = (Inr (checksum ?e), c\<lparr>incoming := rest\<rparr>)"
    by (simp add: read_exactly_def length_checksum)
  show ?thesis
    using assms(1) unfolding read_packet_def
    by (simp add: andthen_def bind_apply m u x Let_def gdb_write_ok decode_escape
        utf8_decode_small [OF assms(2)])
qed

definition request_packet :: "string \<Rightarrow> bytes" where
  "request_packet q = [36] @ ascii q @ [35] @ checksum (ascii q)"

definition acks :: "gdb_client \<Rightarrow> nat \<Rightarrow> bytes" where
  "acks c n = (if no_ack c then [] else replicate n 43)"

lemma acks_cong [simp]:
  "acks (c\<lparr>incoming := x\<rparr>) n = acks c n" "acks (c\<lparr>outgoing := x\<rparr>) n = acks c n"
  by (simp_all add: acks_def)

lemma read_reply_consoles:
  assumes "write_error c = None" "list_all (\<lambda>b. b < 128) p" "\<not> is_console_output (map unat p)"
    and "\<forall>t\<in>set consoles. list_all (\<lambda>b. b < 128) t \<and> is_console_output (map unat t)"
    and "incoming c = concat (map reply_packet consoles) @ reply_packet p @ rest"
  shows "read_reply timed c = (Inr (map unat p),
           c\<lparr>incoming := rest, outgoing := outgoing c @ acks c (Suc (length consoles))\<rparr>)"
  using assms
proof (induction consoles arbitrary: c)
  case Nil
  then show ?case
    using gdb_read_packet [of c p "[]" rest timed]
    by (simp add: read_reply.simps [of timed c] acks_def)
next
  case (Cons t ts)
  let ?r = "concat (map reply_packet ts) @ reply_packet p @ rest"
  let ?c = "c\<lparr>incoming := ?r, outgoing := outgoing c @ acks c 1\<rparr>"
  have "read_packet timed c = (Inr (map unat t), ?c)"
    using gdb_read_packet [of c t "[]" ?r timed] Cons.prems by (simp add: acks_def)
  then have "read_reply timed c = read_reply timed ?c"
    using Cons.prems by (simp add: read_reply.simps [of timed c])
  also have "\<dots> = (Inr (map unat p),
       ?c\<lparr>incoming := rest, outgoing := outgoing ?c @ acks ?c (Suc (length ts))\<rparr>)"
    using Cons.prems by (intro Cons.IH) simp_all
  finally show ?case by (simp add: acks_def)
qed

lemma command_consoles:
  assumes "write_error c = None" "list_all (\<lambda>b. b < 128) p" "\<not> is_console_output (map unat p)"
    and "\<forall>t\<in>set consoles. list_all (\<lambda>b. b < 128) t \<and> is_console_output (map unat t)"
    and "incoming c = acks c 1 @ concat (map reply_packet consoles) @ reply_packet p @ rest"
  shows "command timed q c = (Inr (map unat p),
           c\<lparr>incoming := rest,
             outgoing := outgoing c @ request_packet q @ acks c (Suc (length consoles))\<rparr>)"
proof -
  let ?i = "concat (map reply_packet consoles) @ reply_packet p @ rest"
  let ?c1 = "c\<lparr>incoming := ?i, outgoing := outgoing c @ request_packet q\<rparr>"
  have r: "read_reply timed ?c1 = (Inr (map unat p),
       ?c1\<lparr>incoming := rest, outgoing := outgoing ?c1 @ acks ?c1 (Suc (length consoles))\<rparr>)"
    using assms(1-4) by (intro read_reply_consoles) simp_all
  have "no_ack c \<Longrightarrow> c\<lparr>outgoing := outgoing c @ request_packet q\<rparr> = ?c1"
    using assms(5) by (simp add: acks_def)
  moreover have "\<not> no_ack c \<Longrightarrow>
      read_exactly timed 1 (c\<lparr>outgoing := outgoing c @ request_packet q\<rparr>) = (Inr [43], ?c1)"
    using assms(5) by (simp add: acks_def read_exactly_def)
  ultimately show ?thesis
    using assms(1) r
    by (simp add: command_def catching_def command_unlocked_def andthen_def bind_apply Let_def gdb_write_ok
        request_packet_def acks_def)
qed

definition sample_client :: "bytes \<Rightarrow> bool \<Rightarrow> gdb_client" where
  "sample_client i quiet = \<lparr>incoming = i, stream_ends = Silent, write_error = None, outgoing = [],
     no_ack = quiet, supports_target_xml = False, registers = None\<rparr>"

text \<open>
  C30. What the stub replies is what the client returns: with or without acknowledgements, after
  any number of console output packets (which are skipped), \<open>command\<close> returns the unescaped ASCII
  payload of the first other packet, leaves the bytes after it unread, and has written exactly
  the framed request and one \<open>+\<close> per packet read unless no-ack mode was negotiated.
\<close>

theorem gdb_command_roundtrip:
  assumes "write_error c = None" "list_all (\<lambda>b. b < 128) p" "\<not> is_console_output (map unat p)"
    and "\<forall>t\<in>set consoles. list_all (\<lambda>b. b < 128) t \<and> is_console_output (map unat t)"
    and "incoming c = acks c 1 @ concat (map reply_packet consoles) @ reply_packet p @ rest"
  shows "command timed q c = (Inr (map unat p),
           c\<lparr>incoming := rest,
             outgoing := outgoing c @ request_packet q @ acks c (Suc (length consoles))\<rparr>)"
  using assms by (rule command_consoles)

theorem gdb_command_roundtrip_witness:
  "command True ''c'' (sample_client (acks (sample_client [] False) 1 @ reply_packet [79, 54, 56]
       @ reply_packet [79, 75, 35] @ [1]) False)
   = (Inr [79, 75, 35],
      (sample_client [1] False)\<lparr>outgoing := request_packet ''c'' @ [43, 43]\<rparr>)"
proof -
  let ?c = "sample_client (acks (sample_client [] False) 1 @ reply_packet [79, 54, 56]
       @ reply_packet [79, 75, 35] @ [1]) False"
  have "is_console_output (map unat [79, 54, 56 :: byte])" "\<not> is_console_output (map unat [79, 75, 35 :: byte])"
    by (simp_all add: is_console_output_def hex_val_def)
  with gdb_command_roundtrip [of ?c "[79, 75, 35]" "[[79, 54, 56]]" "[1]" True "''c''"]
  show ?thesis by (simp add: sample_client_def acks_def)
qed

lemma hex_val_digit: "d < 16 \<Longrightarrow> hex_val (of_char (digit_char d)) = Some d"
  by (auto simp: hex_val_def digit_char_def)

lemma hex_digit_range:
  "d < 16 \<Longrightarrow> (48 \<le> (of_char (digit_char d) :: nat) \<and> (of_char (digit_char d) :: nat) \<le> 57)
     \<or> (97 \<le> (of_char (digit_char d) :: nat) \<and> (of_char (digit_char d) :: nat) \<le> 102)"
  by (auto simp: digit_char_def)

lemma byte_nibbles: "unat (b :: byte) div 16 < 16" "unat (b :: byte) mod 16 < 16"
  using unat_byte_bound [of b] by auto

lemma hex_bytes_Nil: "hex_bytes [] = []"
  by (simp add: hex_bytes_def)

lemma hex_bytes_Cons: "hex_bytes (b # bs) = hex2 b @ hex_bytes bs"
  by (simp add: hex_bytes_def)

lemma lit_hex_bytes_Cons:
  "lit (hex_bytes (b # bs)) = of_char (digit_char (unat b div 16)) # of_char (digit_char (unat b mod 16)) # lit (hex_bytes bs)"
  by (simp add: hex_bytes_def hex2_def)

lemma from_hex_hex_bytes [wire]: "from_hex (lit (hex_bytes bs)) = Some bs"
proof (induction bs)
  case Nil
  then show ?case by (simp add: hex_bytes_def)
next
  case (Cons b bs)
  have sp: "\<not> hex_space (of_char (digit_char (unat b div 16)))"
    using hex_digit_range [OF byte_nibbles(1) [of b]] by (auto simp: hex_space_def)
  have "(of_nat (unat b div 16 * 16 + unat b mod 16) :: byte) = b"
    by (simp only: div_mult_mod_eq) simp
  then show ?case
    using Cons sp by (simp add: lit_hex_bytes_Cons hex_val_digit byte_nibbles)
qed

lemma command_quiet:
  assumes "write_error c = None" "no_ack c" "list_all (\<lambda>b. b < 128) p"
    and "\<not> is_console_output (map unat p)" "incoming c = reply_packet p @ rest"
  shows "command timed q c = (Inr (map unat p),
           c\<lparr>incoming := rest, outgoing := outgoing c @ request_packet q\<rparr>)"
  using command_consoles [of c p "[]" rest timed q] assms by (simp add: acks_def)

lemma hex_bytes_small: "list_all (\<lambda>b. b < 128) (ascii (hex_bytes bs))"
proof (induction bs)
  case Nil
  then show ?case by (simp add: hex_bytes_Nil)
next
  case (Cons b bs)
  have "(of_char (digit_char d) :: nat) < 128" if "d < 16" for d
    using hex_digit_range [OF that] by auto
  with Cons byte_nibbles [of b] show ?case by (simp add: hex_bytes_Cons hex2_def word_less_nat_alt)
qed

lemma unat_ascii: "map unat (ascii s) = lit s"
  by (simp add: ascii_def lit_def)

lemma hex_bytes_plain:
  "\<not> is_console_output (lit (hex_bytes bs))" "\<not> starts ''E'' (lit (hex_bytes bs))"
proof -
  have "lit (hex_bytes bs) = [] \<or> hd (lit (hex_bytes bs)) \<noteq> 79 \<and> hd (lit (hex_bytes bs)) \<noteq> 69"
    using hex_digit_range [OF byte_nibbles(1) [of "hd bs"]]
    by (cases bs) (auto simp: lit_hex_bytes_Cons simp: hex_bytes_Nil)
  then show "\<not> is_console_output (lit (hex_bytes bs))" "\<not> starts ''E'' (lit (hex_bytes bs))"
    by (cases "lit (hex_bytes bs)"; simp add: is_console_output_def starts_def)+
qed

text \<open>
  C31. A guest memory read asks for exactly the bytes requested and returns exactly the guest's
  bytes: for every address of 32 bits and 1 to 4096 bytes, the stub's hex answer comes back as
  the same bytes; any other length of answer is an error and never a shortened result.
\<close>

theorem gdb_read_memory_exact:
  assumes "write_error c = None" "no_ack c" "0 \<le> address" "address \<le> 0xFFFFFFFF" "1 \<le> n" "n \<le> 4096"
    and "incoming c = reply_packet (ascii (hex_bytes data)) @ rest"
  shows "read_memory address n c =
           (if int (length data) = n then Inr data
            else Inl (GdbRemoteError ''QEMU returned a short guest memory read''),
            c\<lparr>incoming := rest,
              outgoing := outgoing c @ request_packet (''m'' @ hex_int address @ '','' @ hex_int n)\<rparr>)"
  using command_quiet [OF assms(1,2) hex_bytes_small _ assms(7), of True "''m'' @ hex_int address @ '','' @ hex_int n"]
    assms(3-6) hex_bytes_plain [of data]
  by (simp add: read_memory_def bind_apply unat_ascii from_hex_hex_bytes)

theorem gdb_read_memory_exact_witness:
  "fst (read_memory 0x3FC88000 2 (sample_client (reply_packet (ascii (hex_bytes [0xDE, 0xAD]))) True))
     = Inr [0xDE, 0xAD]"
  using gdb_read_memory_exact [of "sample_client (reply_packet (ascii (hex_bytes [0xDE, 0xAD]))) True"
      "0x3FC88000" 2 "[0xDE, 0xAD]" "[]"]
  by (simp add: sample_client_def)

text \<open>
  After a command has timed out the client stays usable but one reply behind: the next
  command returns the late answer to the timed-out request, and its own answer stays unread.
\<close>

theorem gdb_timeout_desynchronises:
  assumes "write_error c = None" "no_ack c" "incoming c = []" "stream_ends c = Silent"
    and "list_all (\<lambda>b. b < 128) late" "\<not> is_console_output (map unat late)"
  shows "\<exists>c'. command True q1 c = (Inl (GdbRemoteError (''GDB command timed out: '' @ take 32 q1)), c')
           \<and> fst (command True q2 (c'\<lparr>incoming := reply_packet late @ reply_packet own\<rparr>)) = Inr (map unat late)
           \<and> incoming (snd (command True q2 (c'\<lparr>incoming := reply_packet late @ reply_packet own\<rparr>)))
             = reply_packet own"
proof -
  let ?c1 = "c\<lparr>outgoing := outgoing c @ request_packet q1\<rparr>"
  have "read_packet True ?c1 = (Inl TimeoutError, ?c1)"
    using assms(3,4) by (simp add: read_packet_def andthen_def bind_apply read_marker_def end_error_def)
  then have "command True q1 c = (Inl (GdbRemoteError (''GDB command timed out: '' @ take 32 q1)), ?c1)"
    using assms(1,2)
    by (simp add: command_def catching_def command_unlocked_def andthen_def bind_apply Let_def gdb_write_ok
        request_packet_def read_reply.simps [of True] map_command_error_def)
  moreover have "command True q2 (?c1\<lparr>incoming := reply_packet late @ reply_packet own\<rparr>)
      = (Inr (map unat late), ?c1\<lparr>incoming := reply_packet own, outgoing := outgoing ?c1 @ request_packet q2\<rparr>)"
    using command_quiet [of "?c1\<lparr>incoming := reply_packet late @ reply_packet own\<rparr>" late "reply_packet own" True q2]
      assms by simp
  ultimately show ?thesis by auto
qed

theorem gdb_timeout_desynchronises_witness:
  "\<exists>c'. fst (command True ''g'' (sample_client [] True)) = Inl (GdbRemoteError ''GDB command timed out: g'')
      \<and> fst (command True ''s'' (c'\<lparr>incoming := reply_packet [49] @ reply_packet [83]\<rparr>)) = Inr [49]"
proof -
  have "\<not> is_console_output (map unat [49 :: byte])" by (simp add: is_console_output_def)
  from gdb_timeout_desynchronises [of "sample_client [] True" "[49]" "''g''" "''s''" "[83]", OF _ _ _ _ _ this]
  show ?thesis by (auto simp: sample_client_def)
qed

end
