(* ===== verification/Broker_Protocol.thy ===== *)
theory Broker_Protocol
  imports Json_Text Py_Regex Gdb Boards
begin

section \<open>The broker protocol (broker_protocol.py)\<close>

text \<open>
  Frames on the broker's socket, the control messages they carry as JSON, the client's buffered
  stdin, the client's view of a remote worker and the connection handshake.  A stream of bytes
  is given with how it ends (\<open>stream_end\<close>); a silent peer is the timeout where the code sets
  one, and where it sets none (the receiver of a running worker) the wait goes on.  Identifiers and messages are Python strings, so they are code points here.
\<close>

definition PROTOCOL_VERSION :: int where "PROTOCOL_VERSION = 1"
definition MAX_FRAME_PAYLOAD :: nat where "MAX_FRAME_PAYLOAD = 256 * 1024"
definition MAX_CONTROL_PAYLOAD :: nat where "MAX_CONTROL_PAYLOAD = 4096"
definition MAX_STREAM_CHUNK :: nat where "MAX_STREAM_CHUNK = 64 * 1024"
definition MAX_BUFFERED_STDIN :: nat where "MAX_BUFFERED_STDIN = 256 * 1024"

definition hex_class :: "(nat \<times> nat) list" where "hex_class = [(48, 57), (97, 102)]"
definition code_class :: "(nat \<times> nat) list" where "code_class = [(97, 122), (48, 57)]"

definition SESSION_ID_PATTERN :: rx where
  "SESSION_ID_PATTERN = rtimes 32 (RClass hex_class)"

definition ERROR_CODE_PATTERN :: rx where
  "ERROR_CODE_PATTERN = RSeq (RClass code_class) (rupto 63 (RClass (code_class @ [(45, 45)])))"

datatype frame_kind = PING | PONG | START | STARTED | STDIN | TERMINATE | KILL | STDOUT | STDERR | EXIT | ERROR

definition frame_kinds :: "frame_kind list" where
  "frame_kinds = [PING, PONG, START, STARTED, STDIN, TERMINATE, KILL, STDOUT, STDERR, EXIT, ERROR]"

fun kind_value :: "frame_kind \<Rightarrow> nat" where
  "kind_value PING = 1"
| "kind_value PONG = 2"
| "kind_value START = 3"
| "kind_value STARTED = 4"
| "kind_value STDIN = 5"
| "kind_value TERMINATE = 6"
| "kind_value KILL = 7"
| "kind_value STDOUT = 8"
| "kind_value STDERR = 9"
| "kind_value EXIT = 10"
| "kind_value ERROR = 11"

definition FrameKind :: "nat \<Rightarrow> frame_kind option" where
  "FrameKind n = find (\<lambda>k. kind_value k = n) frame_kinds"

record broker_frame =
  kind_of :: frame_kind
  payload_of :: bytes

subsection \<open>Control messages\<close>

definition json_object :: "bytes \<Rightarrow> string \<Rightarrow> exn + json" where
  "json_object payload label =
     (if MAX_CONTROL_PAYLOAD < length payload then Inl (BrokerProtocolError (label @ '' payload is too large''))
      else case loads payload of
        Inl e \<Rightarrow> Inl (if e = UnicodeDecodeError \<or> e = JSONDecodeError
          then BrokerProtocolError (label @ '' payload is not valid JSON'') else e)
      | Inr v \<Rightarrow> if is_obj v then Inr v else Inl (BrokerProtocolError (label @ '' payload must be a JSON object'')))"

text \<open>\<open>json.dumps(value, sort_keys=True)\<close>; no control message has a float, which \<open>dumps\<close> refuses.\<close>

definition json_payload :: "(string \<times> json) list \<Rightarrow> exn + bytes" where
  "json_payload kvs =
     (case dumps (JObj (sort_key fst (map (\<lambda>(k, v). (lit k, v)) kvs))) of
        None \<Rightarrow> Inl (TypeError ''control payload has a float'')
      | Some d \<Rightarrow> if MAX_CONTROL_PAYLOAD < length (ascii d)
          then Inl (BrokerProtocolError ''control payload is too large'') else Inr (ascii d))"

text \<open>\<open>set(value) == {...}\<close> for the keys of a parsed object.\<close>

fun has_keys :: "json \<Rightarrow> string list \<Rightarrow> bool" where
  "has_keys (JObj kvs) ks = (set (map fst kvs) = set (map lit ks))"
| "has_keys _ ks = False"

fun is_str :: "json \<Rightarrow> bool" where
  "is_str (JStr s) = True" | "is_str _ = False"

fun str_of :: "json \<Rightarrow> utext" where
  "str_of (JStr s) = s" | "str_of _ = []"

text \<open>\<open>not isinstance(v, bool) and v == n\<close>: a float equal to the integer passes.\<close>

fun equals_int :: "json \<Rightarrow> int \<Rightarrow> bool" where
  "equals_int (JInt i) n = (i = n)"
| "equals_int (JFloat (Fin m e)) n = (if 0 \<le> e then m * 2 ^ nat e = n else m = n * 2 ^ nat (- e))"
| "equals_int _ n = False"

record start_request =
  req_session_id :: utext
  req_board_id :: utext

definition known_board :: "utext \<Rightarrow> bool" where
  "known_board b = list_ex (\<lambda>(k, p). lit k = b) BOARD_PROFILES"

definition StartRequest :: "utext \<Rightarrow> utext \<Rightarrow> exn + start_request" where
  "StartRequest sid bid =
     (if \<not> fullmatch SESSION_ID_PATTERN sid
      then Inl (BrokerProtocolError ''session ID must be 32 lowercase hexadecimal characters'')
      else if \<not> known_board bid then Inl (BrokerProtocolError ''board ID is not an owned simulator profile'')
      else Inr \<lparr>req_session_id = sid, req_board_id = bid\<rparr>)"

definition start_to_payload :: "start_request \<Rightarrow> exn + bytes" where
  "start_to_payload r = json_payload [(''protocol'', JInt PROTOCOL_VERSION),
     (''session_id'', JStr (req_session_id r)), (''board_id'', JStr (req_board_id r))]"

definition start_from_payload :: "bytes \<Rightarrow> exn + start_request" where
  "start_from_payload payload = sum_bind (json_object payload ''start'') (\<lambda>v.
     if \<not> has_keys v [''protocol'', ''session_id'', ''board_id'']
     then Inl (BrokerProtocolError ''start payload contains missing or unexpected fields'')
     else if \<not> equals_int (jget v ''protocol'') PROTOCOL_VERSION
     then Inl (BrokerProtocolError ''broker protocol version is not supported'')
     else if \<not> is_str (jget v ''session_id'') \<or> \<not> is_str (jget v ''board_id'')
     then Inl (BrokerProtocolError ''start identifiers must be strings'')
     else StartRequest (str_of (jget v ''session_id'')) (str_of (jget v ''board_id'')))"

text \<open>An \<open>ExitMessage\<close> is its return code; a JSON boolean is refused by the constructor.\<close>

definition ExitMessage :: "int \<Rightarrow> exn + int" where
  "ExitMessage n = (if - 255 \<le> n \<and> n \<le> 255 then Inr n
     else Inl (BrokerProtocolError ''worker return code is out of range''))"

definition exit_to_payload :: "int \<Rightarrow> exn + bytes" where
  "exit_to_payload n = json_payload [(''returncode'', JInt n)]"

definition exit_from_payload :: "bytes \<Rightarrow> exn + int" where
  "exit_from_payload payload = sum_bind (json_object payload ''exit'') (\<lambda>v.
     if \<not> has_keys v [''returncode''] then Inl (BrokerProtocolError ''exit payload is invalid'')
     else case jget v ''returncode'' of
       JInt n \<Rightarrow> ExitMessage n
     | JBool b \<Rightarrow> Inl (BrokerProtocolError ''worker return code is out of range'')
     | _ \<Rightarrow> Inl (BrokerProtocolError ''exit payload is invalid''))"

record error_message =
  err_code :: utext
  err_message :: utext

definition ErrorMessage :: "utext \<Rightarrow> utext \<Rightarrow> exn + error_message" where
  "ErrorMessage c m =
     (if \<not> fullmatch ERROR_CODE_PATTERN c then Inl (BrokerProtocolError ''broker error code is invalid'')
      else if m = [] \<or> 200 < length m \<or> list_ex (\<lambda>x. x = 13 \<or> x = 10) m
      then Inl (BrokerProtocolError ''broker error message is invalid'')
      else Inr \<lparr>err_code = c, err_message = m\<rparr>)"

definition error_to_payload :: "error_message \<Rightarrow> exn + bytes" where
  "error_to_payload e = json_payload [(''code'', JStr (err_code e)), (''message'', JStr (err_message e))]"

definition error_from_payload :: "bytes \<Rightarrow> exn + error_message" where
  "error_from_payload payload = sum_bind (json_object payload ''error'') (\<lambda>v.
     if \<not> has_keys v [''code'', ''message''] then Inl (BrokerProtocolError ''error payload is invalid'')
     else if \<not> is_str (jget v ''code'') \<or> \<not> is_str (jget v ''message'')
     then Inl (BrokerProtocolError ''error payload fields must be strings'')
     else ErrorMessage (str_of (jget v ''code'')) (str_of (jget v ''message'')))"

subsection \<open>Frames\<close>

text \<open>\<open>readexactly\<close> on the bytes that arrive.\<close>

definition readexactly :: "stream_end \<Rightarrow> nat \<Rightarrow> bytes \<Rightarrow> exn + bytes \<times> bytes" where
  "readexactly fin n bs =
     (if n \<le> length bs then Inr (take n bs, drop n bs)
      else Inl (case fin of Eof \<Rightarrow> IncompleteReadError | Silent \<Rightarrow> TimeoutError | Broken e \<Rightarrow> e))"

definition incomplete :: "string \<Rightarrow> exn \<Rightarrow> exn" where
  "incomplete m e = (if e = IncompleteReadError then BrokerProtocolError m else e)"

definition read_frame :: "stream_end \<Rightarrow> nat \<Rightarrow> bytes \<Rightarrow> exn + broker_frame \<times> bytes" where
  "read_frame fin max_payload bs =
     (case readexactly fin 5 bs of
        Inl e \<Rightarrow> Inl (incomplete ''broker connection ended before a complete frame'' e)
      | Inr (header, bs1) \<Rightarrow>
          let payload_size = be_decode (drop 1 header) in
          if min max_payload MAX_FRAME_PAYLOAD < payload_size
          then Inl (BrokerProtocolError ''broker frame payload exceeds its limit'')
          else (case FrameKind (be_decode (take 1 header)) of
            None \<Rightarrow> Inl (BrokerProtocolError ''broker frame type is unknown'')
          | Some k \<Rightarrow> (case readexactly fin payload_size bs1 of
              Inl e \<Rightarrow> Inl (incomplete ''broker connection ended inside a frame'' e)
            | Inr (payload, bs2) \<Rightarrow> Inr (\<lparr>kind_of = k, payload_of = payload\<rparr>, bs2))))"

text \<open>What \<open>FrameWriter.send\<close> writes, in one piece: the header and the payload.\<close>

definition encode_frame :: "broker_frame \<Rightarrow> bytes" where
  "encode_frame f = be_encode 1 (kind_value (kind_of f)) @ be_encode 4 (length (payload_of f)) @ payload_of f"

record frame_writer =
  written :: bytes
  drain_outcomes :: "exn option list"
  writer_closed :: bool

text \<open>\<open>drain\<close> waits for the transport; its outcome is given, a transport in order by default.\<close>

definition drain_writer :: "(frame_writer, unit) act" where
  "drain_writer w = (case drain_outcomes w of
       [] \<Rightarrow> (Inr (), w)
     | None # os \<Rightarrow> (Inr (), w\<lparr>drain_outcomes := os\<rparr>)
     | Some e # os \<Rightarrow> (Inl e, w\<lparr>drain_outcomes := os\<rparr>))"

definition send :: "frame_kind \<Rightarrow> bytes \<Rightarrow> (frame_writer, unit) act" where
  "send k payload =
     andthen (unless_raise (length payload \<le> MAX_FRAME_PAYLOAD) (BrokerProtocolError ''broker frame payload exceeds its limit''))
    (andthen (modify (\<lambda>w. w\<lparr>written := written w @ encode_frame \<lparr>kind_of = k, payload_of = payload\<rparr>\<rparr>))
      drain_writer)"

definition close_writer :: "(frame_writer, unit) act" where
  "close_writer = modify (\<lambda>w. w\<lparr>writer_closed := True\<rparr>)"

subsection \<open>Buffered stdin\<close>

record broker_stdin =
  pending :: "bytes list"
  pending_bytes :: nat
  stdin_closed :: bool
  stdin_frames :: frame_writer

definition new_stdin :: "frame_writer \<Rightarrow> broker_stdin" where
  "new_stdin w = \<lparr>pending = [], pending_bytes = 0, stdin_closed = False, stdin_frames = w\<rparr>"

definition stdin_write :: "bytes \<Rightarrow> (broker_stdin, unit) act" where
  "stdin_write payload s =
     (if stdin_closed s then (Inl (BrokenPipeError ''broker worker stdin is closed''), s)
      else if MAX_BUFFERED_STDIN < pending_bytes s + length payload
      then (Inl (BufferError ''broker worker stdin buffer is full''), s)
      else (Inr (), s\<lparr>pending := pending s @ chunks MAX_STREAM_CHUNK payload,
          pending_bytes := pending_bytes s + length payload\<rparr>))"

definition stdin_send_chunk :: "bytes \<Rightarrow> (broker_stdin, unit) act" where
  "stdin_send_chunk c s = (case send STDIN c (stdin_frames s) of (r, w) \<Rightarrow> (r, s\<lparr>stdin_frames := w\<rparr>))"

definition stdin_drain :: "(broker_stdin, unit) act" where
  "stdin_drain s = for_each stdin_send_chunk (pending s) (s\<lparr>pending := [], pending_bytes := 0\<rparr>)"

definition stdin_close :: "broker_stdin \<Rightarrow> broker_stdin" where
  "stdin_close s = s\<lparr>stdin_closed := True, pending := [], pending_bytes := 0\<rparr>"

subsection \<open>The client's view of a worker\<close>

text \<open>
  \<open>BrokerWorkerProcess\<close>: what its stream readers were fed, its return code and waiter, the control
  frames its tasks were asked to send.
\<close>

record broker_process =
  proc_stdin :: "broker_stdin option"
  proc_stdout :: bytes
  proc_stderr :: bytes
  stdout_eof :: bool
  stderr_eof :: bool
  proc_returncode :: "int option"
  waiter :: "int option"
  queued_controls :: "frame_kind list"
  conn_closed :: bool

definition BrokerWorkerProcess :: "frame_writer \<Rightarrow> broker_process" where
  "BrokerWorkerProcess w = \<lparr>proc_stdin = Some (new_stdin w), proc_stdout = [], proc_stderr = [],
     stdout_eof = False, stderr_eof = False, proc_returncode = None, waiter = None,
     queued_controls = [], conn_closed = False\<rparr>"

definition finish :: "int \<Rightarrow> broker_process \<Rightarrow> broker_process" where
  "finish code p =
     (if proc_returncode p \<noteq> None then p
      else p\<lparr>proc_returncode := Some code,
             waiter := (case waiter p of None \<Rightarrow> Some code | Some c \<Rightarrow> Some c)\<rparr>)"

definition terminate :: "broker_process \<Rightarrow> broker_process" where
  "terminate p = (if proc_returncode p = None then p\<lparr>queued_controls := queued_controls p @ [TERMINATE]\<rparr> else p)"

definition kill :: "broker_process \<Rightarrow> broker_process" where
  "kill p = (if proc_returncode p = None then p\<lparr>queued_controls := queued_controls p @ [KILL]\<rparr> else p)"

fun is_broker_protocol_error :: "exn \<Rightarrow> bool" where
  "is_broker_protocol_error (BrokerProtocolError m) = True"
| "is_broker_protocol_error _ = False"

text \<open>\<open>_send_control\<close> with the outcome of the send.\<close>

definition send_control :: "exn option \<Rightarrow> broker_process \<Rightarrow> broker_process" where
  "send_control outcome p = (case outcome of
       Some e \<Rightarrow> if is_broker_protocol_error e \<or> is_connection_error e then finish 125 p else p
     | None \<Rightarrow> p)"

text \<open>\<open>str.encode()\<close>: surrogates have no UTF-8 form.\<close>

definition encode_text :: "utext \<Rightarrow> exn + bytes" where
  "encode_text t = (if list_all scalar t then Inr (utf8_encode t) else Inl (ValueError ''surrogates not allowed''))"

lemma read_frame_rest:
  "read_frame fin m bs = Inr (f, rest) \<Longrightarrow> length rest < length bs"
  by (auto simp: read_frame_def readexactly_def Let_def split: if_splits option.splits)

function receive_loop :: "stream_end \<Rightarrow> bytes \<Rightarrow> broker_process \<Rightarrow> (exn + int) \<times> broker_process" where
  "receive_loop fin bs p =
     (case read_frame fin MAX_FRAME_PAYLOAD bs of
        Inl e \<Rightarrow> (Inl e, p)
      | Inr (f, rest) \<Rightarrow>
          if kind_of f = STDOUT then receive_loop fin rest (p\<lparr>proc_stdout := proc_stdout p @ payload_of f\<rparr>)
          else if kind_of f = STDERR then receive_loop fin rest (p\<lparr>proc_stderr := proc_stderr p @ payload_of f\<rparr>)
          else if kind_of f = EXIT then (exit_from_payload (payload_of f), p)
          else if kind_of f = ERROR then
            (case error_from_payload (payload_of f) of
               Inl e \<Rightarrow> (Inl e, p)
             | Inr m \<Rightarrow> (case encode_text (lit ''broker-error:'' @ err_code m @ lit '':'' @ err_message m @ [10]) of
                 Inl e \<Rightarrow> (Inl e, p)
               | Inr line \<Rightarrow> (Inr 125, p\<lparr>proc_stderr := proc_stderr p @ line\<rparr>)))
          else (Inl (BrokerProtocolError ''broker sent a frame that is invalid after start''), p))"
  by pat_completeness auto

termination
  by (relation "measure (\<lambda>(fin, bs, p). length bs)") (auto dest: read_frame_rest)

declare receive_loop.simps [simp del]

definition connection_failed :: bytes where
  "connection_failed = ascii ''broker-error:protocol:worker connection failed'' @ [10]"

text \<open>The \<open>finally\<close> block of \<open>_receive\<close>.\<close>

definition receive_end :: "int \<Rightarrow> broker_process \<Rightarrow> broker_process" where
  "receive_end code p = (finish code p)\<lparr>stdout_eof := True, stderr_eof := True,
     proc_stdin := None, conn_closed := True\<rparr>"

text \<open>On a silent connection the loop is still waiting: nothing more has happened.\<close>

definition receive :: "stream_end \<Rightarrow> bytes \<Rightarrow> broker_process \<Rightarrow> broker_process" where
  "receive fin bs p = (case receive_loop fin bs p of
       (Inr code, q) \<Rightarrow> receive_end code q
     | (Inl e, q) \<Rightarrow>
         if fin = Silent \<and> e = TimeoutError then q
         else if is_broker_protocol_error e \<or> is_connection_error e
         then receive_end 125 (q\<lparr>proc_stderr := proc_stderr q @ connection_failed\<rparr>)
         else receive_end 125 q)"

subsection \<open>Connecting\<close>

definition fresh_writer :: "exn option list \<Rightarrow> frame_writer" where
  "fresh_writer outcomes = \<lparr>written = [], drain_outcomes = outcomes, writer_closed = False\<rparr>"

text \<open>The request and its answer; with the answer accepted, the bytes left for the receiver.\<close>

definition handshake :: "start_request \<Rightarrow> exn option \<Rightarrow> stream_end \<Rightarrow> bytes \<Rightarrow> exn + broker_process \<times> bytes" where
  "handshake request sending fin bs =
     (case start_to_payload request of
        Inl e \<Rightarrow> Inl e
      | Inr payload \<Rightarrow> (case send START payload (fresh_writer [sending]) of
          (Inl e, w) \<Rightarrow> Inl e
        | (Inr _, w) \<Rightarrow> (case read_frame fin MAX_CONTROL_PAYLOAD bs of
            Inl e \<Rightarrow> Inl e
          | Inr (response, rest) \<Rightarrow>
              if kind_of response = ERROR then
                (case error_from_payload (payload_of response) of
                   Inl e \<Rightarrow> Inl e
                 | Inr err \<Rightarrow> Inl (BrokerUnavailableError (''worker broker rejected launch: '' @ show_text (err_code err))))
              else if kind_of response \<noteq> STARTED \<or> payload_of response \<noteq> []
              then Inl (BrokerProtocolError ''worker broker did not acknowledge start'')
              else Inr (BrokerWorkerProcess w, rest))))"

text \<open>The failures after which the connection is closed before they are raised again.\<close>

fun closes_connection :: "exn \<Rightarrow> bool" where
  "closes_connection TimeoutError = True"
| "closes_connection (BrokerProtocolError m) = True"
| "closes_connection (BrokerUnavailableError m) = True"
| "closes_connection e = is_connection_error e"

text \<open>
  \<open>connect_broker_worker\<close>: how opening the socket, draining the request and closing the socket went, and
  what the broker sends.  When \<open>wait_closed\<close> reports how the connection was lost, that is what is raised.
\<close>

definition connect_broker_worker ::
    "exn option \<Rightarrow> start_request \<Rightarrow> exn option \<Rightarrow> stream_end \<Rightarrow> bytes \<Rightarrow> exn option \<Rightarrow> exn + broker_process \<times> bytes" where
  "connect_broker_worker opening request sending fin bs closing =
     (case opening of
        Some e \<Rightarrow> Inl (if is_os_error e then BrokerUnavailableError ''worker broker is unavailable'' else e)
      | None \<Rightarrow> (case handshake request sending fin bs of
          Inr x \<Rightarrow> Inr x
        | Inl e \<Rightarrow> if \<not> closes_connection e then Inl e
            else (case closing of None \<Rightarrow> Inl e | Some lost \<Rightarrow> Inl lost)))"

definition probe_broker ::
    "exn option \<Rightarrow> exn option \<Rightarrow> stream_end \<Rightarrow> bytes \<Rightarrow> exn option \<Rightarrow> exn + bool" where
  "probe_broker opening sending fin bs closing =
     (case (case opening of
        Some e \<Rightarrow> Inl e
      | None \<Rightarrow> (case send PING [] (fresh_writer [sending]) of
          (Inl e, w) \<Rightarrow> Inl e
        | (Inr _, w) \<Rightarrow> (case read_frame fin 0 bs of
            Inl e \<Rightarrow> Inl e
          | Inr (response, rest) \<Rightarrow> (case closing of
              Some e \<Rightarrow> Inl e
            | None \<Rightarrow> Inr (kind_of response = PONG \<and> payload_of response = []))))) of
        Inr b \<Rightarrow> Inr b
      | Inl e \<Rightarrow> if is_os_error e \<or> is_broker_protocol_error e then Inr False else Inl e)"

subsection \<open>Frames are read back\<close>

lemma FrameKind_value [simp]: "FrameKind (kind_value k) = Some k"
  by (cases k) (simp_all add: FrameKind_def frame_kinds_def)

lemma FrameKind_Some: "FrameKind n = Some k \<longleftrightarrow> n = kind_value k"
proof
  assume "FrameKind n = Some k"
  then show "n = kind_value k" by (auto simp: FrameKind_def frame_kinds_def split: if_splits)
qed simp

lemma kind_value_byte: "kind_value k < 256"
  by (cases k) simp_all

lemma read_frame_sound:
  assumes "read_frame fin m bs = Inr (f, rest)"
  shows "bs = encode_frame f @ rest \<and> length (payload_of f) \<le> min m MAX_FRAME_PAYLOAD"
proof -
  define header where "header = take 5 bs"
  define bs1 where "bs1 = drop 5 bs"
  define payload where "payload = take (be_decode (drop 1 header)) bs1"
  have h: "5 \<le> length bs" "header = take 5 bs" "bs1 = drop 5 bs"
    using assms
    by (auto simp: read_frame_def readexactly_def header_def bs1_def split: if_splits)
  have "read_frame fin m bs = (if min m MAX_FRAME_PAYLOAD < be_decode (drop 1 header)
      then Inl (BrokerProtocolError ''broker frame payload exceeds its limit'')
      else (case FrameKind (be_decode (take 1 header)) of
        None \<Rightarrow> Inl (BrokerProtocolError ''broker frame type is unknown'')
      | Some k \<Rightarrow> (case readexactly fin (be_decode (drop 1 header)) bs1 of
          Inl e \<Rightarrow> Inl (incomplete ''broker connection ended inside a frame'' e)
        | Inr (payload, bs2) \<Rightarrow> Inr (\<lparr>kind_of = k, payload_of = payload\<rparr>, bs2))))"
    using h(1) by (simp only: read_frame_def readexactly_def if_True sum.case prod.case Let_def header_def bs1_def)
  with assms obtain k
    where s: "be_decode (drop 1 header) \<le> min m MAX_FRAME_PAYLOAD" "FrameKind (be_decode (take 1 header)) = Some k"
    and p: "be_decode (drop 1 header) \<le> length bs1" "payload = take (be_decode (drop 1 header)) bs1"
    and r: "rest = drop (be_decode (drop 1 header)) bs1" "f = \<lparr>kind_of = k, payload_of = payload\<rparr>"
    by (simp only: readexactly_def payload_def) (auto simp: not_less split: if_splits option.splits)
  have len: "length (take 1 header) = 1" "length (drop 1 header) = 4" using h by simp_all
  have "be_encode 1 (kind_value k) = take 1 header"
    using s(2) be_encode_decode_eq [OF len(1)] by (simp add: FrameKind_Some)
  moreover have "be_encode 4 (length payload) = drop 1 header"
    using p be_encode_decode_eq [OF len(2)] by simp
  ultimately have "encode_frame f @ rest = (take 1 header @ drop 1 header) @ payload @ rest"
    by (simp only: encode_frame_def r broker_frame.simps append_assoc)
  also have "\<dots> = bs" using h p r by (metis append_take_drop_id)
  finally show ?thesis
    using s(1) p r by simp
qed

lemma read_frame_encode:
  assumes a: "bs = encode_frame f @ rest \<and> length (payload_of f) \<le> min m MAX_FRAME_PAYLOAD"
  shows "read_frame fin m bs = Inr (f, rest)"
proof -
  define n where "n = length (payload_of f)"
  have n: "n < 256 ^ 4" "n \<le> m" "n \<le> MAX_FRAME_PAYLOAD" using a by (simp_all add: n_def MAX_FRAME_PAYLOAD_def)
  have bs: "bs = (be_encode 1 (kind_value (kind_of f)) @ be_encode 4 n) @ payload_of f @ rest"
    using a by (simp add: encode_frame_def n_def)
  have header: "readexactly fin 5 bs = Inr (be_encode 1 (kind_value (kind_of f)) @ be_encode 4 n, payload_of f @ rest)"
    unfolding bs by (simp add: readexactly_def)
  have d: "be_decode (be_encode 4 n) = n" "be_decode (be_encode 1 (kind_value (kind_of f))) = kind_value (kind_of f)"
    using be_decode_encode [of n 4] be_decode_encode [of "kind_value (kind_of f)" 1] n(1) kind_value_byte [of "kind_of f"]
    by simp_all
  have parts: "take 1 (be_encode 1 k @ be_encode 4 n) = be_encode 1 k"
    "drop 1 (be_encode 1 k @ be_encode 4 n) = be_encode 4 n" for k
    by (simp_all del: be_encode.simps)
  have payload: "readexactly fin n (payload_of f @ rest) = Inr (payload_of f, rest)"
    by (simp add: readexactly_def n_def)
  show ?thesis
    using n unfolding read_frame_def header sum.case prod.case Let_def parts d FrameKind_value option.case payload
    by simp
qed

text \<open>
  C26. The frame reader accepts exactly what the frame writer writes: it returns a frame and a rest
  precisely when the bytes are the encoding of that frame followed by the rest and the payload
  is within both limits, whatever comes after and however the stream ends.
\<close>

theorem read_frame_iff:
  "read_frame fin m bs = Inr (f, rest) \<longleftrightarrow>
     bs = encode_frame f @ rest \<and> length (payload_of f) \<le> min m MAX_FRAME_PAYLOAD"
  using read_frame_sound read_frame_encode by blast

subsection \<open>Control messages are read back\<close>

declare fullmatch.simps [simp del]

lemma SESSION_ID_PATTERN_iff: "fullmatch SESSION_ID_PATTERN s \<longleftrightarrow> length s = 32 \<and> list_all (in_class hex_class) s"
  unfolding SESSION_ID_PATTERN_def fullmatch_lang by (rule lang_rtimes)

lemma ERROR_CODE_PATTERN_iff:
  "fullmatch ERROR_CODE_PATTERN s \<longleftrightarrow> s \<noteq> [] \<and> length s \<le> 64 \<and> in_class code_class (hd s)
     \<and> list_all (in_class (code_class @ [(45, 45)])) (tl s)"
  unfolding ERROR_CODE_PATTERN_def fullmatch_lang lang_seq_class lang_rupto by (cases s) auto

lemma in_class_scalar: "in_class hex_class c \<Longrightarrow> scalar c" "in_class (code_class @ [(45, 45)]) c \<Longrightarrow> scalar c"
  "in_class code_class c \<Longrightarrow> scalar c"
  by (auto simp: in_class_def hex_class_def code_class_def scalar_def)

lemma known_board_iff: "known_board b \<longleftrightarrow> b = lit ''cardputer-adv'' \<or> b = lit ''sticks3''"
  by (auto simp: known_board_def BOARD_PROFILES_def CARDPUTER_ADV_def STICKS3_def)

lemma scalar_lit: "x \<in> set (lit s) \<Longrightarrow> scalar x"
  using scalar_ascii [of s] by (simp add: list_all_iff)

lemma length_dump_char: "length (dump_char c) \<le> 12"
  by (simp add: dump_char_def Let_def hex4_def)

lemma length_dump_str: "length (dump_str s) \<le> 12 * length s + 2"
proof -
  have "length (concat (map dump_char s)) \<le> 12 * length s"
    by (induction s) (use length_dump_char in \<open>auto intro: add_mono\<close>)
  then show ?thesis by (simp add: dump_str_def)
qed

lemma length_join1: "length (join [c] ss) \<le> sum_list (map length ss) + length ss"
  by (induction "[c]" ss rule: join.induct) auto

lemma sum_list_sort: "sum_list (map g (sort_key f xs)) = (sum_list (map g xs) :: nat)"
proof -
  have "mset (map g (sort_key f xs)) = mset (map g xs)" by simp
  then show ?thesis by (metis sum_mset_sum_list)
qed

definition wire_members :: "(string \<times> json) list \<Rightarrow> (utext \<times> json) list" where
  "wire_members kvs = sort_key fst (map (\<lambda>(k, v). (lit k, v)) kvs)"

lemma wire_members_flat: "list_all (flat \<circ> snd) kvs \<Longrightarrow> flat_members (wire_members kvs)"
  by (auto simp: flat_members_def wire_members_def list_all_iff scalar_ascii [unfolded list_all_iff])

lemma wire_keys: "distinct (map fst kvs) \<Longrightarrow> distinct (map fst (map (\<lambda>(k, v). (lit k, v)) kvs))"
proof -
  have "map fst (map (\<lambda>(k, v). (lit k, v)) kvs) = map lit (map fst kvs)" by (induction kvs) auto
  then show "distinct (map fst kvs) \<Longrightarrow> ?thesis"
    by (simp only: distinct_map [of lit]) (simp add: inj_on_subset [OF inj_lit])
qed

lemma wire_members_distinct: "distinct (map fst kvs) \<Longrightarrow> distinct (map fst (wire_members kvs))"
  unfolding wire_members_def by (intro distinct_sort_members wire_keys)

lemma wire_members_get: "distinct (map fst kvs) \<Longrightarrow> jget (JObj (wire_members kvs)) k = jget (jobj kvs) k"
  unfolding wire_members_def jobj_def jget.simps by (simp only: map_of_sort [OF wire_keys])

lemma wire_members_keys: "has_keys (JObj (wire_members kvs)) ks \<longleftrightarrow> set (map fst kvs) = set ks"
proof -
  have "set (map fst (wire_members kvs)) = lit ` set (map fst kvs)" by (force simp: wire_members_def)
  then show ?thesis by (simp add: inj_image_eq_iff [OF inj_lit])
qed

text \<open>A payload that was made is read back as an object with the same members.\<close>

lemma json_payload_read:
  assumes "json_payload kvs = Inr p" "distinct (map fst kvs)" "list_all (flat \<circ> snd) kvs"
  shows "json_object p label = Inr (JObj (wire_members kvs))"
proof -
  obtain d where d: "dumps (JObj (wire_members kvs)) = Some d" "p = ascii d" "length (ascii d) \<le> MAX_CONTROL_PAYLOAD"
    using assms(1) unfolding json_payload_def wire_members_def [symmetric]
    by (auto simp: not_less split: option.splits if_splits simp del: dumps.simps)
  from loads_flat [OF wire_members_flat [OF assms(3)] wire_members_distinct [OF assms(2)] d(1)] d(2,3)
  show ?thesis by (simp add: json_object_def)
qed

lemma json_payload_fits:
  assumes "list_all (flat \<circ> snd) kvs"
    and "sum_list (map (\<lambda>(k, v). 12 * length k + 3 + length (flat_text v)) kvs) + length kvs + 2 \<le> MAX_CONTROL_PAYLOAD"
  shows "\<exists>p. json_payload kvs = Inr p"
proof -
  let ?ms = "map (\<lambda>(k, v). (lit k, v)) kvs"
  have "sum_list (map length (map member_text (wire_members kvs))) = sum_list (map (length \<circ> member_text) ?ms)"
    by (simp add: wire_members_def sum_list_sort)
  also have "\<dots> \<le> sum_list (map (\<lambda>(k, v). 12 * length k + 3 + length (flat_text v)) kvs)"
  proof (induction kvs)
    case (Cons kv kvs)
    then show ?case using length_dump_str [of "lit (fst kv)"] by (cases kv) (simp add: member_text_def)
  qed simp
  finally have "length (join '','' (map member_text (wire_members kvs))) + 2 \<le> MAX_CONTROL_PAYLOAD"
    using length_join1 [of "CHR '',''" "map member_text (wire_members kvs)"] assms(2)
    by (simp add: wire_members_def)
  then show ?thesis
    using dumps_flat_object [OF wire_members_flat [OF assms(1)]]
    unfolding json_payload_def wire_members_def [symmetric] by (simp del: dumps.simps)
qed

lemma start_payload_read:
  assumes "StartRequest (req_session_id r) (req_board_id r) = Inr (r :: start_request)"
  shows "\<exists>p. start_to_payload r = Inr p \<and> length p \<le> MAX_CONTROL_PAYLOAD \<and> start_from_payload p = Inr r"
proof -
  let ?kvs = "[(''protocol'', JInt PROTOCOL_VERSION), (''session_id'', JStr (req_session_id r)),
    (''board_id'', JStr (req_board_id r))]"
  have s: "length (req_session_id r) = 32" "list_all scalar (req_session_id r)"
    and b: "list_all scalar (req_board_id r)" "length (req_board_id r) \<le> 13"
    using assms by (auto simp: StartRequest_def SESSION_ID_PATTERN_iff known_board_iff in_class_scalar scalar_lit
        list_all_iff [of scalar] list_all_iff [of "in_class _"] simp del: lit_Cons split: if_splits)
  have f: "list_all (flat \<circ> snd) ?kvs" "distinct (map fst ?kvs)" using s b by simp_all
  have l: "length (str_int PROTOCOL_VERSION) = 1"
    by (simp add: PROTOCOL_VERSION_def str_int_def str_nat_def base_digits.simps)
  obtain p where p: "json_payload ?kvs = Inr p"
    using json_payload_fits [OF f(1)] length_dump_str [of "req_session_id r"] length_dump_str [of "req_board_id r"]
      s(1) b(2) l by (auto simp: MAX_CONTROL_PAYLOAD_def)
  moreover have "length p \<le> MAX_CONTROL_PAYLOAD"
    using p by (auto simp: json_payload_def split: option.splits if_splits)
  moreover have "start_from_payload p = Inr r"
    using assms by (simp add: start_from_payload_def json_payload_read [OF p f(2,1)] wire_members_get [OF f(2)]
        wire_members_keys del: jget.simps has_keys.simps)
  ultimately show ?thesis by (auto simp: start_to_payload_def)
qed

text \<open>
  C27. A start request survives the wire, and the wire carries nothing else: a valid request is
  encoded within the control limit and decoded to itself, and whatever payload decodes, however
  it was spelled, decodes to a session id of 32 lowercase hexadecimal characters and one of the
  two owned boards, so neither can name a path or an image.
\<close>

theorem start_request_roundtrip:
  "(\<forall>r :: start_request. StartRequest (req_session_id r) (req_board_id r) = Inr r
      \<longleftrightarrow> (\<exists>p. start_to_payload r = Inr p \<and> start_from_payload p = Inr r))
   \<and> (\<forall>p r. start_from_payload p = Inr r \<longrightarrow>
        length (req_session_id r) = 32 \<and> list_all (in_class [(48, 57), (97, 102)]) (req_session_id r)
        \<and> req_board_id r \<in> {lit ''cardputer-adv'', lit ''sticks3''})"
proof (intro conjI allI impI)
  fix p r
  assume "start_from_payload p = Inr r"
  then show "length (req_session_id r) = 32" "list_all (in_class [(48, 57), (97, 102)]) (req_session_id r)"
    "req_board_id r \<in> {lit ''cardputer-adv'', lit ''sticks3''}"
    by (auto simp: start_from_payload_def StartRequest_def SESSION_ID_PATTERN_iff known_board_iff hex_class_def
        simp del: lit_Cons split: if_splits)
next
  fix r :: start_request
  show "StartRequest (req_session_id r) (req_board_id r) = Inr r
      \<longleftrightarrow> (\<exists>p. start_to_payload r = Inr p \<and> start_from_payload p = Inr r)"
  proof
    assume "StartRequest (req_session_id r) (req_board_id r) = Inr r"
    then show "\<exists>p. start_to_payload r = Inr p \<and> start_from_payload p = Inr r"
      using start_payload_read by blast
  next
    assume "\<exists>p. start_to_payload r = Inr p \<and> start_from_payload p = Inr r"
    then show "StartRequest (req_session_id r) (req_board_id r) = Inr r"
      by (auto simp: start_from_payload_def StartRequest_def split: if_splits)
  qed
qed

definition sample_id :: utext where "sample_id = replicate 32 97"

theorem start_request_roundtrip_witness:
  "\<exists>p. start_from_payload p = Inr \<lparr>req_session_id = sample_id, req_board_id = lit ''sticks3''\<rparr>
     \<and> length sample_id = 32"
proof -
  let ?r = "\<lparr>req_session_id = sample_id, req_board_id = lit ''sticks3''\<rparr>"
  have "StartRequest (req_session_id ?r) (req_board_id ?r) = Inr ?r"
    by (simp add: StartRequest_def SESSION_ID_PATTERN_iff known_board_iff sample_id_def in_class_def hex_class_def list_all_iff)
  then obtain p where p: "start_from_payload p = Inr ?r"
    using start_request_roundtrip [THEN conjunct1, THEN spec, of ?r] by blast
  with start_request_roundtrip [THEN conjunct2, THEN spec, of p] show ?thesis by fastforce
qed

lemma exit_roundtrip:
  assumes n: "- 255 \<le> n" "n \<le> 255"
  shows "\<exists>p. exit_to_payload n = Inr p \<and> exit_from_payload p = Inr n"
proof -
  let ?kvs = "[(''returncode'', JInt n)]"
  have f: "list_all (flat \<circ> snd) ?kvs" "distinct (map fst ?kvs)" by simp_all
  have "length (str_nat (nat \<bar>n\<bar>)) \<le> 3"
    unfolding str_nat_def by (rule length_base_digits) (use n in auto)
  then have "length (str_int n) \<le> 4" by (auto simp: str_int_def)
  then obtain p where p: "json_payload ?kvs = Inr p"
    using json_payload_fits [OF f(1)] by (auto simp: MAX_CONTROL_PAYLOAD_def)
  have "exit_from_payload p = Inr n"
    using n by (simp add: exit_from_payload_def json_payload_read [OF p f(2,1)] wire_members_get [OF f(2)]
        wire_members_keys ExitMessage_def del: jget.simps has_keys.simps)
  with p show ?thesis
    by (auto simp: exit_to_payload_def)
qed

text \<open>
  Exit codes and errors survive the wire: every return code from -255 to 255 and every error
  with a valid code and a message of 1 to 200 characters without line breaks or surrogates is
  encoded within the control limit and decoded to itself.
\<close>

theorem outcome_messages_roundtrip:
  "(- 255 \<le> n \<and> n \<le> 255 \<longrightarrow> (\<exists>p. exit_to_payload n = Inr p \<and> exit_from_payload p = Inr n))
   \<and> (ErrorMessage c m = Inr e \<and> list_all scalar m \<longrightarrow>
      (\<exists>p. error_to_payload e = Inr p \<and> error_from_payload p = Inr e))"
proof (intro conjI impI; elim conjE)
  assume "- 255 \<le> n" "n \<le> 255"
  then show "\<exists>p. exit_to_payload n = Inr p \<and> exit_from_payload p = Inr n" by (rule exit_roundtrip)
next
  assume e: "ErrorMessage c m = Inr e" and m: "list_all scalar m"
  let ?kvs = "[(''code'', JStr c), (''message'', JStr m)]"
  have em: "err_code e = c" "err_message e = m" "fullmatch ERROR_CODE_PATTERN c" "length m \<le> 200"
    using e by (auto simp: ErrorMessage_def split: if_splits)
  have code: "c \<noteq> []" "length c \<le> 64" "in_class code_class (hd c)" "list_all (in_class (code_class @ [(45, 45)])) (tl c)"
    using em(3) by (simp_all add: ERROR_CODE_PATTERN_iff)
  have "list_all scalar (tl c)" using code(4) by (auto simp: list_all_iff intro: in_class_scalar)
  then have c: "length c \<le> 64" "list_all scalar c"
    using code in_class_scalar(3) [of "hd c"] by (cases c; simp)+
  have f: "list_all (flat \<circ> snd) ?kvs" "distinct (map fst ?kvs)" using em c m by simp_all
  obtain p where p: "json_payload ?kvs = Inr p"
    using json_payload_fits [OF f(1)] length_dump_str [of c] length_dump_str [of m] c(1) em(4)
    by (auto simp: MAX_CONTROL_PAYLOAD_def)
  have "error_from_payload p = Inr e"
    using e by (simp add: error_from_payload_def json_payload_read [OF p f(2,1)] wire_members_get [OF f(2)]
        wire_members_keys del: jget.simps has_keys.simps)
  with p show "\<exists>p. error_to_payload e = Inr p \<and> error_from_payload p = Inr e"
    by (auto simp: error_to_payload_def em(1,2))
qed

theorem outcome_messages_roundtrip_witness:
  "(\<exists>p. exit_to_payload (- 9) = Inr p \<and> exit_from_payload p = Inr (- 9))
   \<and> (\<exists>p. error_to_payload \<lparr>err_code = [97], err_message = [8364]\<rparr> = Inr p
        \<and> error_from_payload p = Inr \<lparr>err_code = [97], err_message = [8364]\<rparr>)"
proof -
  have "ErrorMessage [97] [8364] = Inr \<lparr>err_code = [97], err_message = [8364]\<rparr>"
    by (simp add: ErrorMessage_def ERROR_CODE_PATTERN_iff in_class_def code_class_def)
  moreover have "list_all scalar [8364]" by (simp add: scalar_def)
  ultimately show ?thesis using outcome_messages_roundtrip [of "- 9" "[97]" "[8364]"] by simp
qed

subsection \<open>Buffered stdin relays every byte\<close>

definition stdin_ok :: "broker_stdin \<Rightarrow> bool" where
  "stdin_ok s \<longleftrightarrow> pending_bytes s = length (concat (pending s)) \<and> pending_bytes s \<le> MAX_BUFFERED_STDIN
     \<and> (\<forall>c\<in>set (pending s). 0 < length c \<and> length c \<le> MAX_STREAM_CHUNK)"

text \<open>The frames of a drain, when the transport takes them.\<close>

definition stdin_frames_of :: "bytes list \<Rightarrow> bytes" where
  "stdin_frames_of cs = concat (map (\<lambda>c. encode_frame \<lparr>kind_of = STDIN, payload_of = c\<rparr>) cs)"

lemma send_ok:
  "length p \<le> MAX_FRAME_PAYLOAD \<Longrightarrow> drain_outcomes w = [] \<Longrightarrow>
     send k p w = (Inr (), w\<lparr>written := written w @ encode_frame \<lparr>kind_of = k, payload_of = p\<rparr>\<rparr>)"
  by (simp add: send_def andthen_def bind_def drain_writer_def)

lemma drain_chunks:
  assumes "\<forall>c\<in>set cs. length c \<le> MAX_STREAM_CHUNK" "drain_outcomes (stdin_frames s) = []"
  shows "for_each stdin_send_chunk cs s
    = (Inr (), s\<lparr>stdin_frames := (stdin_frames s)\<lparr>written := written (stdin_frames s) @ stdin_frames_of cs\<rparr>\<rparr>)"
  using assms
proof (induction cs arbitrary: s)
  case Nil
  then show ?case by (simp add: stdin_frames_of_def)
next
  case (Cons c cs)
  then have "length c \<le> MAX_FRAME_PAYLOAD" by (simp add: MAX_STREAM_CHUNK_def MAX_FRAME_PAYLOAD_def)
  with Cons show ?case by (simp add: andthen_def bind_def stdin_send_chunk_def send_ok stdin_frames_of_def)
qed

lemma stdin_write_ok: "stdin_ok s \<Longrightarrow> stdin_ok (snd (stdin_write p s))"
proof -
  assume s: "stdin_ok s"
  have "concat (chunks MAX_STREAM_CHUNK p) = p" by (rule concat_chunks) (simp add: MAX_STREAM_CHUNK_def)
  moreover have "c \<in> set (chunks MAX_STREAM_CHUNK p) \<Longrightarrow> 0 < length c \<and> length c \<le> MAX_STREAM_CHUNK" for c
    by (rule chunks_bounds)
  ultimately show ?thesis using s by (auto simp: stdin_ok_def stdin_write_def)
qed

text \<open>
  The stdin buffer is a faithful, bounded pipe: a write either raises and changes nothing or
  appends exactly its bytes; at most 256 KiB are ever pending, counted exactly and cut into
  non-empty chunks of at most 64 KiB; and a drain on a working transport sends precisely the
  pending bytes, in order, one input frame per chunk, and empties the buffer.
\<close>

theorem stdin_pipe:
  assumes "stdin_ok s"
  shows "stdin_ok (snd (stdin_write p s))
    \<and> (is_ok (fst (stdin_write p s)) \<longleftrightarrow> \<not> stdin_closed s \<and> pending_bytes s + length p \<le> MAX_BUFFERED_STDIN)
    \<and> concat (pending (snd (stdin_write p s))) = concat (pending s) @ (if is_ok (fst (stdin_write p s)) then p else [])
    \<and> (drain_outcomes (stdin_frames s) = [] \<longrightarrow>
         fst (stdin_drain s) = Inr () \<and> pending (snd (stdin_drain s)) = [] \<and> pending_bytes (snd (stdin_drain s)) = 0
         \<and> written (stdin_frames (snd (stdin_drain s))) = written (stdin_frames s) @ stdin_frames_of (pending s))"
proof (intro conjI)
  show "stdin_ok (snd (stdin_write p s))" using assms by (rule stdin_write_ok)
  show "is_ok (fst (stdin_write p s)) \<longleftrightarrow> \<not> stdin_closed s \<and> pending_bytes s + length p \<le> MAX_BUFFERED_STDIN"
    by (auto simp: stdin_write_def)
  have "concat (chunks MAX_STREAM_CHUNK p) = p" by (rule concat_chunks) (simp add: MAX_STREAM_CHUNK_def)
  then show "concat (pending (snd (stdin_write p s))) = concat (pending s) @ (if is_ok (fst (stdin_write p s)) then p else [])"
    by (simp add: stdin_write_def)
  show "drain_outcomes (stdin_frames s) = [] \<longrightarrow>
         fst (stdin_drain s) = Inr () \<and> pending (snd (stdin_drain s)) = [] \<and> pending_bytes (snd (stdin_drain s)) = 0
         \<and> written (stdin_frames (snd (stdin_drain s))) = written (stdin_frames s) @ stdin_frames_of (pending s)"
    using assms by (simp add: stdin_drain_def drain_chunks stdin_ok_def)
qed

theorem stdin_pipe_witness:
  "written (stdin_frames (snd (stdin_drain (snd (stdin_write [7] (new_stdin (fresh_writer [])))))))
     = stdin_frames_of [[7]]"
proof -
  let ?s = "snd (stdin_write [7] (new_stdin (fresh_writer [])))"
  have "stdin_ok (new_stdin (fresh_writer []))" by (simp add: stdin_ok_def new_stdin_def)
  then have "stdin_ok ?s" by (rule stdin_write_ok)
  moreover have "pending ?s = [[7]]" "drain_outcomes (stdin_frames ?s) = []" "written (stdin_frames ?s) = []"
    by (simp_all add: stdin_write_def new_stdin_def fresh_writer_def chunks.simps MAX_STREAM_CHUNK_def MAX_BUFFERED_STDIN_def)
  ultimately show ?thesis using stdin_pipe [of ?s "[]"] by simp
qed

subsection \<open>The end of a remote worker\<close>

definition code_ok :: "broker_process \<Rightarrow> bool" where
  "code_ok p \<longleftrightarrow> waiter p = proc_returncode p
     \<and> (\<forall>c. proc_returncode p = Some c \<longrightarrow> - 255 \<le> c \<and> c \<le> 255)"

lemma receive_loop_code:
  "receive_loop fin bs p = (r, q) \<Longrightarrow>
     proc_returncode q = proc_returncode p \<and> waiter q = waiter p
     \<and> (\<forall>c. r = Inr c \<longrightarrow> - 255 \<le> c \<and> c \<le> 255)"
proof (induction fin bs p rule: receive_loop.induct)
  case (1 fin bs p)
  have e: "exit_from_payload x = Inr c \<Longrightarrow> - 255 \<le> c \<and> c \<le> 255" for x c
    by (auto simp: exit_from_payload_def ExitMessage_def split: if_splits json.splits)
  show ?case
  proof (cases "read_frame fin MAX_FRAME_PAYLOAD bs")
    case (Inl x)
    then show ?thesis using "1.prems" by (auto simp: receive_loop.simps [of fin bs p])
  next
    case (Inr y)
    obtain f rest where y: "y = (f, rest)" by (cases y)
    from 1(1) [OF Inr y [symmetric]] 1(2) [OF Inr y [symmetric]] "1.prems" Inr y e show ?thesis
      by (auto simp: receive_loop.simps [of fin bs p] split: if_splits sum.splits)
  qed
qed

text \<open>Output frames are relayed one by one, and nothing else lets the receiver wait.\<close>

definition output_frames :: "broker_frame list \<Rightarrow> bool" where
  "output_frames fs \<longleftrightarrow> (\<forall>f\<in>set fs. kind_of f \<in> {STDOUT, STDERR} \<and> length (payload_of f) \<le> MAX_FRAME_PAYLOAD)"

definition output_of :: "frame_kind \<Rightarrow> broker_frame list \<Rightarrow> bytes" where
  "output_of k fs = concat (map payload_of (filter (\<lambda>f. kind_of f = k) fs))"

definition with_output :: "broker_frame list \<Rightarrow> broker_process \<Rightarrow> broker_process" where
  "with_output fs p = p\<lparr>proc_stdout := proc_stdout p @ output_of STDOUT fs, proc_stderr := proc_stderr p @ output_of STDERR fs\<rparr>"

lemma receive_loop_frames:
  assumes "output_frames fs"
  shows "receive_loop fin (concat (map encode_frame fs) @ bs) p = receive_loop fin bs (with_output fs p)"
  using assms
proof (induction fs arbitrary: p)
  case Nil
  then show ?case by (simp add: with_output_def output_of_def)
next
  case (Cons f fs)
  let ?bs = "concat (map encode_frame fs) @ bs"
  have "read_frame fin MAX_FRAME_PAYLOAD (encode_frame f @ ?bs) = Inr (f, ?bs)"
    using Cons.prems by (intro read_frame_encode) (simp add: output_frames_def)
  with Cons show ?case
    by (auto simp: receive_loop.simps [of fin "encode_frame f @ ?bs" p] output_of_def with_output_def output_frames_def)
qed

lemma loads_no_timeout: "loads x \<noteq> Inl TimeoutError"
proof -
  have "loads_text t \<noteq> Inl TimeoutError" for t
    by (simp add: loads_text_def Let_def split: option.split prod.split)
  then have "(case d of None \<Rightarrow> Inl UnicodeDecodeError | Some t \<Rightarrow> loads_text t) \<noteq> Inl TimeoutError" for d
    by (cases d) simp_all
  then show ?thesis unfolding loads_def .
qed

lemma payload_no_timeout: "exit_from_payload x \<noteq> Inl TimeoutError" "error_from_payload x \<noteq> Inl TimeoutError"
    "encode_text t \<noteq> Inl TimeoutError"
  by (auto simp: exit_from_payload_def error_from_payload_def json_object_def ExitMessage_def ErrorMessage_def encode_text_def
      loads_no_timeout split: sum.splits json.splits if_splits)

lemma receive_loop_silent:
  assumes "receive_loop fin bs p = (Inl TimeoutError, q)"
  shows "\<exists>fs rest. bs = concat (map encode_frame fs) @ rest \<and> output_frames fs
    \<and> read_frame fin MAX_FRAME_PAYLOAD rest = Inl TimeoutError"
  using assms
proof (induction fin bs p rule: receive_loop.induct)
  case (1 fin bs p)
  show ?case
  proof (cases "read_frame fin MAX_FRAME_PAYLOAD bs")
    case (Inl x)
    then have "x = TimeoutError" using "1.prems" by (simp add: receive_loop.simps [of fin bs p])
    then show ?thesis using Inl by (intro exI [of _ "[]"] exI [of _ bs]) (simp add: output_frames_def)
  next
    case (Inr y)
    obtain f rest where y: "y = (f, rest)" by (cases y)
    note bs = read_frame_sound [OF Inr [unfolded y]]
    have k: "kind_of f \<in> {STDOUT, STDERR}"
      using "1.prems" by (auto simp: receive_loop.simps [of fin bs p] Inr y payload_no_timeout split: if_splits sum.splits)
    then obtain p' where "receive_loop fin rest p' = (Inl TimeoutError, q)"
      and ih: "\<exists>fs rest'. rest = concat (map encode_frame fs) @ rest' \<and> output_frames fs
        \<and> read_frame fin MAX_FRAME_PAYLOAD rest' = Inl TimeoutError"
      using "1.IH" [OF Inr y [symmetric]] "1.prems" by (auto simp: receive_loop.simps [of fin bs p] Inr y)
    then obtain fs rest' where "rest = concat (map encode_frame fs) @ rest'" "output_frames fs"
      "read_frame fin MAX_FRAME_PAYLOAD rest' = Inl TimeoutError" by blast
    then show ?thesis using bs k by (intro exI [of _ "f # fs"] exI [of _ rest']) (simp add: output_frames_def)
  qed
qed

definition left_waiting :: "stream_end \<Rightarrow> bytes \<Rightarrow> bool" where
  "left_waiting fin bs \<longleftrightarrow> fin = Silent \<and> (\<exists>fs rest. bs = concat (map encode_frame fs) @ rest \<and> output_frames fs
     \<and> read_frame Silent MAX_FRAME_PAYLOAD rest = Inl TimeoutError)"

lemma left_waiting_iff: "left_waiting fin bs \<longleftrightarrow> fin = Silent \<and> fst (receive_loop fin bs p) = Inl TimeoutError"
proof
  assume "left_waiting fin bs"
  then show "fin = Silent \<and> fst (receive_loop fin bs p) = Inl TimeoutError"
    by (auto simp: left_waiting_def receive_loop_frames) (simp add: receive_loop.simps)
next
  assume "fin = Silent \<and> fst (receive_loop fin bs p) = Inl TimeoutError"
  then show "left_waiting fin bs"
    using receive_loop_silent [of fin bs p "snd (receive_loop fin bs p)"]
    by (cases "receive_loop fin bs p") (auto simp: left_waiting_def)
qed

text \<open>
  C25. The end of a connection to the broker: whatever bytes arrive and however the connection ends, the
  receiver sets a return code between -255 and 255 (the one already there, if any), wakes the waiter
  with it, marks the end of both output streams and closes stdin and the connection.  There is one
  exception, and it is exactly this one: a broker that keeps the connection open, has sent whole output
  frames only and stops before another frame is complete leaves the receiver waiting, since its reads
  have no time limit; then the output so far has been relayed, and return code, waiter, end marks and
  stdin are untouched.
\<close>

theorem receive_ends_or_waits:
  assumes "code_ok p"
  shows "if left_waiting fin bs
    then \<exists>fs rest. receive fin bs p = with_output fs p \<and> output_frames fs \<and> bs = concat (map encode_frame fs) @ rest
    else \<exists>c. proc_returncode (receive fin bs p) = Some c \<and> waiter (receive fin bs p) = Some c
      \<and> - 255 \<le> c \<and> c \<le> 255 \<and> (\<forall>c'. proc_returncode p = Some c' \<longrightarrow> c = c')
      \<and> stdout_eof (receive fin bs p) \<and> stderr_eof (receive fin bs p)
      \<and> proc_stdin (receive fin bs p) = None \<and> conn_closed (receive fin bs p)"
proof (cases "left_waiting fin bs")
  case True
  then obtain fs rest where w: "fin = Silent" "bs = concat (map encode_frame fs) @ rest" "output_frames fs"
    "read_frame Silent MAX_FRAME_PAYLOAD rest = Inl TimeoutError" by (auto simp: left_waiting_def)
  then have "receive fin bs p = with_output fs p"
    by (simp add: receive_def receive_loop_frames receive_loop.simps [of Silent rest])
  then show ?thesis using True w by auto
next
  case False
  have "\<exists>c. proc_returncode (receive fin bs p) = Some c \<and> waiter (receive fin bs p) = Some c
      \<and> - 255 \<le> c \<and> c \<le> 255 \<and> (\<forall>c'. proc_returncode p = Some c' \<longrightarrow> c = c')
      \<and> stdout_eof (receive fin bs p) \<and> stderr_eof (receive fin bs p)
      \<and> proc_stdin (receive fin bs p) = None \<and> conn_closed (receive fin bs p)"
proof -
  obtain r q where l: "receive_loop fin bs p = (r, q)" by (cases "receive_loop fin bs p")
  note code = receive_loop_code [OF l]
  have "\<exists>c x. receive fin bs p = receive_end c (q\<lparr>proc_stderr := x\<rparr>) \<and> - 255 \<le> c \<and> c \<le> 255"
  proof (cases r)
    case (Inl e)
    with l False have "receive fin bs p = receive_end 125 (q\<lparr>proc_stderr :=
        (if is_broker_protocol_error e \<or> is_connection_error e then proc_stderr q @ connection_failed else proc_stderr q)\<rparr>)"
      by (auto simp: receive_def left_waiting_iff [of fin bs p])
    then show ?thesis by (intro exI [of _ 125] exI conjI) simp_all
  next
    case (Inr c)
    with l code have "receive fin bs p = receive_end c (q\<lparr>proc_stderr := proc_stderr q\<rparr>)" "- 255 \<le> c" "c \<le> 255"
      by (simp_all add: receive_def)
    then show ?thesis by blast
  qed
  then obtain c x where c: "receive fin bs p = receive_end c (q\<lparr>proc_stderr := x\<rparr>)" "- 255 \<le> c" "c \<le> 255" by blast
  show ?thesis
  proof (cases "proc_returncode p")
    case None
    then show ?thesis using c code assms(1) by (simp add: receive_end_def finish_def code_ok_def)
  next
    case (Some d)
    then show ?thesis using c(1) code assms(1) by (simp add: receive_end_def finish_def code_ok_def)
  qed
  qed
  with False show ?thesis by simp
qed

lemma fresh_code_ok: "code_ok (BrokerWorkerProcess w)"
  by (simp add: code_ok_def BrokerWorkerProcess_def)

theorem receive_ends_or_waits_witness:
  "(\<exists>c. proc_returncode (receive Eof [1, 2, 3] (BrokerWorkerProcess (fresh_writer []))) = Some c)
   \<and> proc_returncode (receive Silent [1, 2, 3] (BrokerWorkerProcess (fresh_writer []))) = None"
proof -
  have r: "read_frame Silent MAX_FRAME_PAYLOAD [1, 2, 3] = Inl TimeoutError"
    by (simp add: read_frame_def readexactly_def incomplete_def)
  have "left_waiting Silent [1, 2, 3]" unfolding left_waiting_def
    by (intro conjI refl exI [of _ "[]"] exI [of _ "[1, 2, 3]"]) (simp_all add: output_frames_def r)
  moreover have "\<not> left_waiting Eof [1, 2, 3]" by (simp add: left_waiting_def)
  ultimately show ?thesis
    using receive_ends_or_waits [OF fresh_code_ok, of Eof "[1, 2, 3]"]
      receive_ends_or_waits [OF fresh_code_ok, of Silent "[1, 2, 3]" "fresh_writer []"]
    by (auto simp: with_output_def BrokerWorkerProcess_def)
qed

lemma receive_loop_output:
  assumes "\<forall>f\<in>set fs. kind_of f \<in> {STDOUT, STDERR} \<and> length (payload_of f) \<le> MAX_FRAME_PAYLOAD"
    and "length payload \<le> MAX_FRAME_PAYLOAD"
  shows "receive_loop fin (concat (map encode_frame fs) @ encode_frame \<lparr>kind_of = EXIT, payload_of = payload\<rparr> @ rest) p
    = (exit_from_payload payload, p\<lparr>proc_stdout := proc_stdout p @ output_of STDOUT fs,
        proc_stderr := proc_stderr p @ output_of STDERR fs\<rparr>)"
proof -
  let ?f = "\<lparr>kind_of = EXIT, payload_of = payload\<rparr>"
  have "read_frame fin MAX_FRAME_PAYLOAD (encode_frame ?f @ rest) = Inr (?f, rest)"
    using assms(2) by (intro read_frame_encode) simp
  then show ?thesis
    using assms(1)
    by (simp add: receive_loop_frames output_frames_def with_output_def receive_loop.simps [of fin "encode_frame ?f @ rest"])
qed

text \<open>
  What the worker printed is what the manager reads: when the broker sends the worker's output in
  frames and then its exit message, the receiver feeds exactly the concatenated standard output
  and standard error to the two readers and reports exactly the return code sent.
\<close>

theorem receive_relays_output:
  assumes "\<forall>f\<in>set fs. kind_of f \<in> {STDOUT, STDERR} \<and> length (payload_of f) \<le> MAX_FRAME_PAYLOAD"
    and "exit_to_payload n = Inr payload" "- 255 \<le> n" "n \<le> 255"
    and "proc_returncode p = None"
  shows "\<exists>q. receive fin (concat (map encode_frame fs) @ encode_frame \<lparr>kind_of = EXIT, payload_of = payload\<rparr> @ rest) p = q
    \<and> proc_stdout q = proc_stdout p @ output_of STDOUT fs \<and> proc_stderr q = proc_stderr p @ output_of STDERR fs
    \<and> proc_returncode q = Some n"
proof -
  have "length payload \<le> MAX_CONTROL_PAYLOAD"
    using assms(2) by (auto simp: exit_to_payload_def json_payload_def split: option.splits if_splits simp del: dumps.simps)
  then have "length payload \<le> MAX_FRAME_PAYLOAD" by (simp add: MAX_CONTROL_PAYLOAD_def MAX_FRAME_PAYLOAD_def)
  moreover have "exit_from_payload payload = Inr n" using exit_roundtrip [OF assms(3,4)] assms(2) by auto
  ultimately show ?thesis using receive_loop_output [OF assms(1)] assms(5)
    by (simp add: receive_def receive_end_def finish_def)
qed

theorem receive_relays_output_witness:
  "\<exists>payload q. receive Eof (encode_frame \<lparr>kind_of = STDOUT, payload_of = [65]\<rparr>
      @ encode_frame \<lparr>kind_of = EXIT, payload_of = payload\<rparr>) (BrokerWorkerProcess (fresh_writer [])) = q
    \<and> proc_stdout q = [65] \<and> proc_returncode q = Some 0"
proof -
  obtain payload where p: "exit_to_payload 0 = Inr payload" using exit_roundtrip [of 0] by auto
  from receive_relays_output [of "[\<lparr>kind_of = STDOUT, payload_of = [65]\<rparr>]" 0 payload
      "BrokerWorkerProcess (fresh_writer [])" Eof "[]"] p
  show ?thesis by (auto simp: BrokerWorkerProcess_def output_of_def MAX_FRAME_PAYLOAD_def)
qed

end
