(* ===== verification/Session_State.thy ===== *)
theory Session_State
  imports Async Settings Recording Firmware Inputs Broker_Protocol
begin

section \<open>The state of the session manager\<close>

text \<open>
  The records of sessions.py and the state its tasks share.  Objects that tasks hold references
  to (worker processes, GDB clients, tasks, subscriber queues) are numbers into maps of the
  world, so that a task that keeps a reference across an \<open>await\<close> sees what others did to it.
\<close>

datatype session_state = STARTING | RUNNING | PAUSED | POWERED_OFF | STOPPED | FAILED | EXPIRED

fun state_value :: "session_state \<Rightarrow> string" where
  "state_value STARTING = ''starting''"
| "state_value RUNNING = ''running''"
| "state_value PAUSED = ''paused''"
| "state_value POWERED_OFF = ''powered_off''"
| "state_value STOPPED = ''stopped''"
| "state_value FAILED = ''failed''"
| "state_value EXPIRED = ''expired''"

definition ACTIVE_SESSION_STATES :: "session_state set" where
  "ACTIVE_SESSION_STATES = {STARTING, RUNNING, PAUSED, POWERED_OFF}"

definition MAX_DEBUG_BREAKPOINTS :: nat where "MAX_DEBUG_BREAKPOINTS = 32"
definition MAX_UNIX_SOCKET_PATH_BYTES :: nat where "MAX_UNIX_SOCKET_PATH_BYTES = 107"
definition TRACE_READER_YIELD_LINES :: nat where "TRACE_READER_YIELD_LINES = 64"
definition SERIAL_BUFFER_CHUNKS :: nat where "SERIAL_BUFFER_CHUNKS = 256"
definition SUBSCRIBER_QUEUE_SIZE :: nat where "SUBSCRIBER_QUEUE_SIZE = 128"

text \<open>
  \<open>SessionRecord\<close>.  Times are integers (nanoseconds of the monotonic clock, seconds of UTC);
  \<open>serial_mutations\<close> is the change counter a deque keeps, against which its iterators check.
  The two locks are in the world's lock list.
\<close>

record session =
  session_id :: string
  session_board :: board_profile
  firmware :: validated_firmware
  created_at :: int
  expires_at :: int
  runtime_directory :: path
  flash_path :: path
  qmp_socket_path :: path
  gdb_socket_path :: path
  initial_flash_image :: bytes
  state :: session_state
  exit_code :: "int option"
  process :: "nat option"
  reader_task :: "nat option"
  trace_reader_task :: "nat option"
  serial_buffer :: "bytes list"
  serial_mutations :: nat
  subscribers :: "nat list"
  gdb_ref :: "nat option"
  debug_run_task :: "nat option"
  debug_stop_reason :: "utext option"
  debug_breakpoints :: "int list"
  generation :: nat
  generation_started_ns :: int
  next_event_sequence :: nat
  events :: "session_event list"
  events_dropped :: nat
  replay_actions :: "replay_action list"
  replay_actions_dropped :: nat
  replay_task :: "nat option"
  replay_status :: string
  replay_error :: "string option"
  replay_speed :: "pyfloat option"
  accept_live_input :: bool
  serial_output_bytes :: nat
  trace_events_recorded :: nat
  trace_events_dropped :: nat
  trace_event_counts :: "(string \<times> nat) list"
  trace_truncation_reported :: bool
  virtual_imu_state :: "(vec3 \<times> vec3) option"
  virtual_power_state :: "(int \<times> int \<times> bool) option"

text \<open>
  A worker process as the manager sees it (\<open>WorkerProcess\<close>): its pipes, what it will print, how its
  stderr ends, what was written to it and the signals it got.
\<close>

record worker =
  returncode :: "int option"
  has_stdin :: bool
  has_stderr :: bool
  stdout_chunks :: "bytes list"
  stderr_lines :: "bytes list"
  stderr_fails :: "exn option"
  stdin_written :: "bytes list"
  terminated :: bool
  killed :: bool

text \<open>
  How a worker was asked for: a local process with everything \<open>create_subprocess_exec\<close> is given, the limits
  its \<open>preexec_fn\<close> sets in the child included (soft and hard value of each resource), or a request to the
  worker broker.
\<close>

record worker_limits =
  address_space :: "int \<times> int"
  cpu_seconds :: "int \<times> int"
  written_file_size :: "int \<times> int"
  open_files :: "int \<times> int"
  child_umask :: nat

record spawn_request =
  spawn_argv :: "string list"
  spawn_cwd :: path
  spawn_env :: "(string \<times> string) list"
  own_session :: bool
  spawn_limits :: worker_limits

datatype launch_record = LocalProcess spawn_request | BrokerRequest start_request

datatype lock = ManagerLock | LifecycleLock string | QmpLock string

datatype task_code =
    ReadSerial string nat
  | ReadTrace string nat
  | ContinueDebug string
  | RunReplay string "replay_action list" pyfloat
  | CleanupLoop nat
  | SendSerial string nat
  | ReceiveSerial string "bytes list"

text \<open>
  The world: \<open>stuck\<close> are the paths that at this moment cannot be removed, whether or not they exist.
\<close>

record world =
  sessions :: "(string \<times> session) list"
  files :: filesys
  stuck :: "path \<Rightarrow> bool"
  procs :: "nat \<Rightarrow> worker option"
  gdbs :: "nat \<Rightarrow> gdb_client option"
  queues :: "nat \<Rightarrow> bytes option list"
  next_ref :: nat
  qmp_log :: "(path \<times> json) list"
  launches :: "(string \<times> launch_record) list"
  spawned :: "(nat \<times> task_code) list"
  finished :: "(nat \<times> exn option) list"
  cancels :: "nat list"
  held :: "lock list"
  cleanup_task :: "nat option"
  me :: nat
  clock_ns :: int
  utc_now :: int
  fresh_uuid :: string

text \<open>What a suspension may bring from outside.\<close>

record input =
  i_clock :: int
  i_utc :: int
  i_uuid :: string
  i_peer :: qmp_peer
  i_timeout :: bool
  i_drain :: "exn option"
  i_worker :: "exn + worker"
  i_gdb_attempts :: "gdb_client option list"
  i_gdb_bytes :: bytes
  i_gdb_end :: stream_end
  i_probe :: bool
  i_screen :: "bytes option"
  i_stuck :: "path \<Rightarrow> bool"

record env =
  cfg :: settings
  cwd :: "string list"
  os_id :: identity
  xml_parser :: "bytes \<Rightarrow> xml_element list option"
  unicode_int :: "utext \<Rightarrow> int option"

type_synonym 'a task = "(world, input, 'a) prog"

subsection \<open>Sessions\<close>

definition update_session :: "string \<Rightarrow> (session \<Rightarrow> session) \<Rightarrow> world \<Rightarrow> world" where
  "update_session sid f w = w\<lparr>sessions := map (\<lambda>(k, s). (k, if k = sid then f s else s)) (sessions w)\<rparr>"

definition on_session :: "string \<Rightarrow> (session \<Rightarrow> session) \<Rightarrow> unit task" where
  "on_session sid f = change (update_session sid f)"

definition find_session :: "world \<Rightarrow> string \<Rightarrow> session option" where
  "find_session w sid = map_of (sessions w) sid"

text \<open>\<open>get\<close>: sessions are never removed, so later uses of the reference look it up again.\<close>

definition with_session :: "string \<Rightarrow> (session \<Rightarrow> 'a task) \<Rightarrow> 'a task" where
  "with_session sid f = look (\<lambda>w. case find_session w sid of
       None \<Rightarrow> raising (SessionNotFoundError sid) | Some s \<Rightarrow> f s)"

definition guard :: "bool \<Rightarrow> exn \<Rightarrow> unit task" where
  "guard b e = (if b then return () else raising e)"

lemma find_update_session [simp]:
  "find_session (update_session sid f w) k = (if k = sid then map_option f (find_session w k) else find_session w k)"
proof -
  have "map_of (map (\<lambda>(x, s). (x, if x = sid then f s else s)) xs) k
      = (if k = sid then map_option f (map_of xs k) else map_of xs k)" for xs
    by (induction xs) auto
  then show ?thesis by (simp add: find_session_def update_session_def)
qed

subsection \<open>Suspensions\<close>

definition cancel_pending :: "world \<Rightarrow> bool" where
  "cancel_pending w = (me w \<in> set (cancels w))"

text \<open>
  A suspension that ends with an input, once the guard holds, or with \<open>CancelledError\<close>, once the
  task's cancellation was requested.
\<close>

definition suspend :: "(world \<Rightarrow> bool) \<Rightarrow> (input \<Rightarrow> world \<Rightarrow> world \<times> (exn + 'a)) \<Rightarrow> 'a task" where
  "suspend b f = Await (\<lambda>w. b w \<or> cancel_pending w)
     (\<lambda>i w. if cancel_pending w
        then (w\<lparr>cancels := removeAll (me w) (cancels w)\<rparr>, Ret (Inl CancelledError))
        else (case f i w of (w', r) \<Rightarrow> (w', Ret r)))"

definition pause_point :: "unit task" where
  "pause_point = suspend (\<lambda>w. True) (\<lambda>i w. (w, Inr ()))"

definition acquire :: "lock \<Rightarrow> unit task" where
  "acquire l = look (\<lambda>w. if l \<notin> set (held w) then change (\<lambda>w. w\<lparr>held := l # held w\<rparr>)
     else suspend (\<lambda>w. l \<notin> set (held w)) (\<lambda>i w. (w\<lparr>held := l # held w\<rparr>, Inr ())))"

definition release :: "lock \<Rightarrow> unit task" where
  "release l = change (\<lambda>w. w\<lparr>held := removeAll l (held w)\<rparr>)"

definition locked :: "lock \<Rightarrow> 'a task \<Rightarrow> 'a task" where
  "locked l p = seq (acquire l) (always p (release l))"

definition spawn :: "task_code \<Rightarrow> (nat \<Rightarrow> unit task) \<Rightarrow> unit task" where
  "spawn c k = look (\<lambda>w. seq (change (\<lambda>w. w\<lparr>spawned := spawned w @ [(next_ref w, c)], next_ref := Suc (next_ref w)\<rparr>))
     (k (next_ref w)))"

definition is_done :: "nat \<Rightarrow> world \<Rightarrow> bool" where
  "is_done t w = (t \<in> fst ` set (finished w))"

definition cancel_task :: "nat \<Rightarrow> unit task" where
  "cancel_task t = change (\<lambda>w. if is_done t w then w else w\<lparr>cancels := t # cancels w\<rparr>)"

text \<open>
  \<open>await asyncio.gather(task, return_exceptions=True)\<close>: cancelled while it waits, it cancels the task
  it waits for and raises once that task is done.
\<close>

definition gather_task :: "nat \<Rightarrow> unit task" where
  "gather_task t = Await (\<lambda>w. is_done t w \<or> cancel_pending w)
     (\<lambda>i w. if \<not> cancel_pending w then (w, Ret (Inr ()))
        else if is_done t w then (w\<lparr>cancels := removeAll (me w) (cancels w)\<rparr>, Ret (Inl CancelledError))
        else (w\<lparr>cancels := t # cancels w\<rparr>, Await (is_done t)
          (\<lambda>i w. (w\<lparr>cancels := removeAll (me w) (cancels w)\<rparr>, Ret (Inl CancelledError)))))"

definition now_offset_ms :: "world \<Rightarrow> session \<Rightarrow> int" where
  "now_offset_ms w s = max 0 ((clock_ns w - generation_started_ns s) div 1000000)"

text \<open>
  \<open>execute_qmp\<close> on a session's socket: what is written is logged, and the reply is delivered after
  a further suspension, because other tasks run while the command is under way.
\<close>

definition qmp_call_within :: "int \<Rightarrow> path \<Rightarrow> string \<Rightarrow> json option \<Rightarrow> json task" where
  "qmp_call_within timeout sock cmd arguments =
     then_do (Await (\<lambda>w. True) (\<lambda>i w.
         let (r, requests) = execute_qmp_within timeout (i_peer i) (str_path sock) cmd arguments;
             w' = w\<lparr>qmp_log := qmp_log w @ map (Pair sock) requests\<rparr> in
         if cancel_pending w
         then (w'\<lparr>cancels := removeAll (me w) (cancels w)\<rparr>, Ret (Inl CancelledError))
         else (w', Ret (Inr r))))
       (\<lambda>r. suspend (\<lambda>w. True) (\<lambda>i w. (w, r)))"

definition qmp_call :: "path \<Rightarrow> string \<Rightarrow> json option \<Rightarrow> json task" where
  "qmp_call = qmp_call_within 2000000000"

text \<open>An operation of a GDB client, with the bytes that arrive during it.\<close>

definition gdb_call :: "bool \<Rightarrow> nat \<Rightarrow> 'a gdb \<Rightarrow> 'a task" where
  "gdb_call timed g m = suspend (\<lambda>w. True) (\<lambda>i w.
     case gdbs w g of None \<Rightarrow> (w, Inl (GdbRemoteError ''debugger is not connected''))
     | Some c \<Rightarrow>
         let fin = (if \<not> timed \<and> i_gdb_end i = Silent then Eof else i_gdb_end i);
             (r, c') = m (c\<lparr>incoming := incoming c @ i_gdb_bytes i, stream_ends := fin\<rparr>) in
         (w\<lparr>gdbs := (gdbs w)(g \<mapsto> c')\<rparr>, r))"

definition gdb_close :: "nat \<Rightarrow> unit task" where
  "gdb_close g = suspend (\<lambda>w. True) (\<lambda>i w.
     (w\<lparr>gdbs := (gdbs w)(g := map_option (\<lambda>c. c\<lparr>incoming := [], stream_ends := Eof,
         write_error := Some (ConnectionError ''Connection lost'')\<rparr>) (gdbs w g))\<rparr>, Inr ()))"

subsection \<open>Running suspensions\<close>

lemma settle_suspend: "settle (suspend b f) w = (w, suspend b f)"
  by (simp add: suspend_def)

lemma carry_suspend: "carry (w, suspend b f) k = (w, outcome (suspend b f) k)"
  by (simp add: suspend_def)

lemma carry_outcome_suspend: "carry (w, outcome (suspend b f) k) k' = (w, outcome (outcome (suspend b f) k) k')"
  by (simp add: suspend_def)

lemma runnable_suspend: "runnable (outcome (suspend b f) k) w = (b w \<or> cancel_pending w)"
  "runnable (suspend b f) w = (b w \<or> cancel_pending w)"
  by (simp_all add: suspend_def)

lemma resume_suspend:
  "resume (suspend b f) i w =
     (if cancel_pending w then (w\<lparr>cancels := removeAll (me w) (cancels w)\<rparr>, Ret (Inl CancelledError))
      else (case f i w of (w', r) \<Rightarrow> (w', Ret r)))"
  by (simp add: suspend_def split: prod.split)

lemma resume_outcome_suspend:
  "resume (outcome (suspend b f) k) i w = carry (resume (suspend b f) i w) k"
  unfolding suspend_def by (rule resume_outcome)

lemma settle_session:
  "settle (with_session sid h) w = (case find_session w sid of
     None \<Rightarrow> (w, Ret (Inl (SessionNotFoundError sid))) | Some s \<Rightarrow> settle (h s) w)"
  "settle (on_session sid u) w = (update_session sid u w, Ret (Inr ()))"
  "settle (guard b e) w = (w, Ret (if b then Inr () else Inl e))"
  by (simp_all add: with_session_def on_session_def guard_def settle_simps split: option.split)

lemmas run_simps = settle_simps settle_outcome settle_session settle_suspend carry_suspend carry_outcome_suspend
  outcome_outcome runnable_suspend resume_suspend resume_outcome_suspend

end
