(* ===== verification/Session_Log.thy ===== *)
theory Session_Log
  imports Session_State
begin

section \<open>What a session records (sessions.py, the synchronous helpers)\<close>

text \<open>
  The methods of \<open>SessionManager\<close> that never suspend: the bounded event log and replay recording,
  the paging of events, trace sampling, the clearing of private data and publishing to the
  serial subscribers.  The two recordings share one interface, the locale \<open>bounded_recorder\<close>.
\<close>

subsection \<open>Bounded recordings\<close>

text \<open>
  \<open>if len(items) >= limit: items.popleft(); dropped += 1\<close>, then \<open>items.append(x)\<close>.  Popping an empty
  deque (a limit below 1) raises \<open>IndexError\<close>.
\<close>

definition bounded_push :: "int \<Rightarrow> 'x \<Rightarrow> 'x list \<times> nat \<Rightarrow> exn + 'x list \<times> nat" where
  "bounded_push limit x r =
     (case r of (items, dropped) \<Rightarrow>
        if limit \<le> int (length items) then
          (case items of [] \<Rightarrow> Inl (IndexError ''pop from an empty deque'')
           | y # ys \<Rightarrow> Inr (ys @ [x], Suc dropped))
        else Inr (items @ [x], dropped))"

locale bounded_recorder =
  fixes items :: "'s \<Rightarrow> 'x list" and dropped :: "'s \<Rightarrow> nat" and limit :: nat
    and add :: "'x \<Rightarrow> 's \<Rightarrow> 's"
  assumes items_add: "items (add x s) = (if limit \<le> length (items s) then tl (items s) else items s) @ [x]"
    and dropped_add: "dropped (add x s) = (if limit \<le> length (items s) then Suc (dropped s) else dropped s)"
    and limit_pos: "0 < limit"
begin

lemma bounded: "length (items s) \<le> limit \<Longrightarrow> length (items (add x s)) \<le> limit"
  using limit_pos by (cases "items s") (auto simp: items_add)

lemma counted: "dropped (add x s) + length (items (add x s)) = Suc (dropped s + length (items s))"
  using limit_pos by (cases "items s") (auto simp: items_add dropped_add)

lemma last_items: "items (add x s) \<noteq> [] \<and> last (items (add x s)) = x"
  by (simp add: items_add)

text \<open>After any number of additions: the newest \<open>limit\<close> entries are kept, the others counted.\<close>

lemma fold_add:
  "length (items s) \<le> limit \<Longrightarrow>
     items (fold add xs s) = drop (length (items s) + length xs - limit) (items s @ xs)
     \<and> dropped (fold add xs s) = dropped s + (length (items s) + length xs - limit)"
proof (induction xs arbitrary: s)
  case Nil
  then show ?case by simp
next
  case (Cons x xs)
  have "length (items (add x s)) \<le> limit" using Cons.prems by (rule bounded)
  note IH = Cons.IH [OF this]
  show ?case
  proof (cases "limit \<le> length (items s)")
    case True
    then obtain y ys where "items s = y # ys" using limit_pos by (cases "items s") auto
    with IH Cons.prems True show ?thesis by (simp add: items_add dropped_add Suc_diff_le)
  next
    case False
    then have "items (add x s) = items s @ [x]" "dropped (add x s) = dropped s"
      by (simp_all add: items_add dropped_add)
    with IH show ?thesis by (simp del: drop_append)
  qed
qed

end

subsection \<open>Events and replay actions\<close>

definition new_event ::
    "int \<Rightarrow> event_category \<Rightarrow> string \<Rightarrow> event_source \<Rightarrow> json \<Rightarrow> session \<Rightarrow> session_event" where
  "new_event now cat ty src data s =
     \<lparr>ev_sequence = next_event_sequence s, ev_generation = generation s,
      ev_offset_ms = max 0 ((now - generation_started_ns s) div 1000000),
      ev_category = cat, ev_type = ty, ev_source = src, ev_data = data\<rparr>"

definition record_event ::
    "settings \<Rightarrow> int \<Rightarrow> event_category \<Rightarrow> string \<Rightarrow> event_source \<Rightarrow> json \<Rightarrow> session \<Rightarrow> session \<times> exn option" where
  "record_event st now cat ty src data s =
     (let s1 = s\<lparr>next_event_sequence := Suc (next_event_sequence s)\<rparr> in
      case bounded_push (max_recording_events st) (new_event now cat ty src data s) (events s, events_dropped s) of
        Inl e \<Rightarrow> (s1, Some e)
      | Inr (evs, d) \<Rightarrow> (s1\<lparr>events := evs, events_dropped := d\<rparr>, None))"

definition append_replay_action :: "settings \<Rightarrow> replay_action \<Rightarrow> session \<Rightarrow> exn + session" where
  "append_replay_action st a s =
     (case bounded_push (max_recording_events st) a (replay_actions s, replay_actions_dropped s) of
        Inl e \<Rightarrow> Inl e
      | Inr (acts, d) \<Rightarrow> Inr (s\<lparr>replay_actions := acts, replay_actions_dropped := d\<rparr>))"

definition clear_private_session_data :: "session \<Rightarrow> session" where
  "clear_private_session_data s = s\<lparr>initial_flash_image := [], replay_actions := [], serial_buffer := [],
     serial_mutations := (if serial_buffer s = [] then serial_mutations s else Suc (serial_mutations s)),
     virtual_imu_state := None, virtual_power_state := None\<rparr>"

text \<open>The additions of the two recordings where the limit is positive.\<close>

definition add_event :: "nat \<Rightarrow> session_event \<Rightarrow> session \<Rightarrow> session" where
  "add_event n e s =
     (case bounded_push (int n) e (events s, events_dropped s) of
        Inl x \<Rightarrow> s | Inr (evs, d) \<Rightarrow> s\<lparr>events := evs, events_dropped := d\<rparr>)"

definition add_action :: "nat \<Rightarrow> replay_action \<Rightarrow> session \<Rightarrow> session" where
  "add_action n a s =
     (case bounded_push (int n) a (replay_actions s, replay_actions_dropped s) of
        Inl x \<Rightarrow> s | Inr (acts, d) \<Rightarrow> s\<lparr>replay_actions := acts, replay_actions_dropped := d\<rparr>)"

lemma bounded_push_Suc:
  "bounded_push (int (Suc n)) x (items, d) =
     Inr ((if Suc n \<le> length items then tl items else items) @ [x], if Suc n \<le> length items then Suc d else d)"
  by (cases items) (auto simp: bounded_push_def)

interpretation event_log: bounded_recorder events events_dropped "Suc n" "add_event (Suc n)" for n
  by unfold_locales (simp_all add: add_event_def bounded_push_Suc del: of_nat_Suc)

interpretation action_log: bounded_recorder replay_actions replay_actions_dropped "Suc n" "add_action (Suc n)" for n
  by unfold_locales (simp_all add: add_action_def bounded_push_Suc del: of_nat_Suc)

subsection \<open>Paging\<close>

definition bounded_limit :: "settings \<Rightarrow> int \<Rightarrow> int" where
  "bounded_limit st lim = min (max lim 1) (max_event_page_size st)"

text \<open>\<open>xs[:k]\<close> for an integer \<open>k\<close>, which counts from the end when negative.\<close>

definition slice_to :: "int \<Rightarrow> 'a list \<Rightarrow> 'a list" where
  "slice_to k xs = (if 0 \<le> k then take (nat k) xs else take (length xs - nat (- k)) xs)"

definition page_events :: "settings \<Rightarrow> session \<Rightarrow> int \<Rightarrow> int \<Rightarrow> session_event list" where
  "page_events st s after lim =
     slice_to (bounded_limit st lim) (filter (\<lambda>e. after < int (ev_sequence e)) (events s))"

definition cursor_truncated :: "session \<Rightarrow> int \<Rightarrow> bool" where
  "cursor_truncated s after =
     (case events s of [] \<Rightarrow> False | e # es \<Rightarrow> after < int (ev_sequence e) - 1)"

definition next_after :: "settings \<Rightarrow> session \<Rightarrow> int \<Rightarrow> int \<Rightarrow> int" where
  "next_after st s after lim =
     (let page = page_events st s after lim in if page = [] then after else int (ev_sequence (last page)))"

definition list_events :: "settings \<Rightarrow> session \<Rightarrow> int \<Rightarrow> int \<Rightarrow> json" where
  "list_events st s after lim =
     jobj [(''session_id'', jstr (session_id s)), (''generation'', JInt (int (generation s))),
       (''events_dropped'', JInt (int (events_dropped s))),
       (''cursor_truncated'', JBool (cursor_truncated s after)),
       (''events'', JArr (map event_public_dict (page_events st s after lim))),
       (''next_after'', JInt (next_after st s after lim))]"

subsection \<open>Public forms\<close>

definition jopt :: "('a \<Rightarrow> json) \<Rightarrow> 'a option \<Rightarrow> json" where
  "jopt f x = (case x of None \<Rightarrow> JNull | Some y \<Rightarrow> f y)"

definition firmware_dict :: "validated_firmware \<Rightarrow> json" where
  "firmware_dict m = jobj [(''source_size_bytes'', JInt (int (source_size_bytes m))),
     (''flash_size_bytes'', JInt (int (flash_image_size m))),
     (''source_sha256'', jstr (source_sha256 m)), (''flash_sha256'', jstr (flash_sha256 m)),
     (''segment_count'', JInt (int (segment_count m))), (''flash_mode'', JInt (int (flash_mode m)))]"

definition session_public_dict :: "session \<Rightarrow> json" where
  "session_public_dict s = jobj [
     (''id'', jstr (session_id s)), (''board_id'', jstr (board_id (session_board s))),
     (''state'', jstr (state_value (state s))), (''created_at'', JInt (created_at s)),
     (''expires_at'', JInt (expires_at s)), (''exit_code'', jopt JInt (exit_code s)),
     (''firmware'', firmware_dict (firmware s)), (''generation'', JInt (int (generation s))),
     (''recording'', jobj [
        (''event_count'', JInt (int (length (events s)))), (''events_dropped'', JInt (int (events_dropped s))),
        (''replayable_action_count'', JInt (int (length (replay_actions s)))),
        (''replayable_actions_dropped'', JInt (int (replay_actions_dropped s))),
        (''trace_events_recorded'', JInt (int (trace_events_recorded s))),
        (''trace_events_dropped'', JInt (int (trace_events_dropped s)))]),
     (''replay'', jobj [
        (''status'', jstr (replay_status s)), (''speed'', jopt JFloat (replay_speed s)),
        (''error'', jopt jstr (replay_error s))])]"

definition replay_dict :: "session \<Rightarrow> json" where
  "replay_dict s = jobj [
     (''session_id'', jstr (session_id s)), (''generation'', JInt (int (generation s))),
     (''status'', jstr (replay_status s)), (''speed'', jopt JFloat (replay_speed s)),
     (''error'', jopt jstr (replay_error s)),
     (''action_count'', JInt (int (length (replay_actions s)))),
     (''actions_dropped'', JInt (int (replay_actions_dropped s)))]"

definition diagnostics :: "settings \<Rightarrow> session \<Rightarrow> json" where
  "diagnostics st s = jobj [
     (''schema'', jstr ''esp32-s3-simulator-diagnostics/v1''),
     (''privacy'', jobj [
        (''firmware_bytes_included'', JBool False), (''mutated_flash_included'', JBool False),
        (''framebuffer_pixels_included'', JBool False), (''debug_memory_included'', JBool False),
        (''serial_payloads_included'', JBool False)]),
     (''session'', jobj [
        (''id'', jstr (session_id s)), (''board_id'', jstr (board_id (session_board s))),
        (''state'', jstr (state_value (state s))), (''created_at'', JInt (created_at s)),
        (''expires_at'', JInt (expires_at s)), (''exit_code'', jopt JInt (exit_code s)),
        (''generation'', JInt (int (generation s))), (''firmware'', firmware_dict (firmware s)),
        (''replay'', replay_dict s)]),
     (''worker'', jobj [
        (''sandbox'', jstr (sandbox_mode_value (worker_sandbox_mode st))),
        (''qmp_enabled'', JBool (worker_qmp_enabled st)), (''debug_enabled'', JBool (worker_debug_enabled st)),
        (''trace_enabled'', JBool (worker_trace_enabled st))]),
     (''recording'', jobj [
        (''events_dropped'', JInt (int (events_dropped s))),
        (''replayable_actions_dropped'', JInt (int (replay_actions_dropped s))),
        (''trace_events_recorded'', JInt (int (trace_events_recorded s))),
        (''trace_events_dropped'', JInt (int (trace_events_dropped s))),
        (''events'', JArr (map event_public_dict (events s)))]),
     (''serial'', jobj [
        (''total_output_bytes'', JInt (int (serial_output_bytes s))),
        (''buffered_tail'', serial_metadata (concat (serial_buffer s)))])]"

definition vector_dict :: "vec3 \<Rightarrow> json" where
  "vector_dict v = (case v of (x, y, z) \<Rightarrow> jobj [(''x'', JFloat x), (''y'', JFloat y), (''z'', JFloat z)])"

subsection \<open>Serial output\<close>

definition append_serial_chunk :: "bytes \<Rightarrow> session \<Rightarrow> session" where
  "append_serial_chunk chunk s = s\<lparr>serial_output_bytes := serial_output_bytes s + length chunk,
     serial_buffer := maxlen_append SERIAL_BUFFER_CHUNKS (serial_buffer s) chunk,
     serial_mutations := Suc (serial_mutations s)\<rparr>"

definition clear_serial_buffer :: "session \<Rightarrow> session" where
  "clear_serial_buffer s = s\<lparr>serial_buffer := [],
     serial_mutations := (if serial_buffer s = [] then serial_mutations s else Suc (serial_mutations s))\<rparr>"

text \<open>\<open>_publish\<close>: a subscriber whose queue is full is dropped.\<close>

definition publish :: "string \<Rightarrow> bytes option \<Rightarrow> world \<Rightarrow> world" where
  "publish sid chunk w =
     (case find_session w sid of None \<Rightarrow> w
      | Some s \<Rightarrow>
          let room = (\<lambda>q. length (queues w q) < SUBSCRIBER_QUEUE_SIZE);
              served = filter room (subscribers s) in
          (update_session sid (\<lambda>s. s\<lparr>subscribers := filter room (subscribers s)\<rparr>) w)
            \<lparr>queues := (\<lambda>q. if q \<in> set served then queues w q @ [chunk] else queues w q)\<rparr>)"

subsection \<open>Trace sampling\<close>

definition count_of :: "(string \<times> nat) list \<Rightarrow> string \<Rightarrow> nat" where
  "count_of counts k = (case map_of counts k of None \<Rightarrow> 0 | Some n \<Rightarrow> n)"

datatype trace_verdict = TraceRecord | TraceSampled nat bool | TraceTruncated bool

text \<open>
  What becomes of one parsed trace line: over its name's limit it is only counted (the first
  such line is reported), over the generation's limit likewise, otherwise it is recorded.
\<close>

definition judge_trace :: "settings \<Rightarrow> string \<Rightarrow> session \<Rightarrow> trace_verdict" where
  "judge_trace st name s =
     (let n = Suc (count_of (trace_event_counts s) name);
          lim = (case map_of TRACE_EVENT_LIMITS name of None \<Rightarrow> 0 | Some l \<Rightarrow> l) in
      if lim < n then TraceSampled lim (n = lim + 1)
      else if max_trace_events_per_generation st \<le> int (trace_events_recorded s)
        then TraceTruncated (\<not> trace_truncation_reported s)
      else TraceRecord)"

definition handle_trace :: "settings \<Rightarrow> int \<Rightarrow> string \<Rightarrow> string \<Rightarrow> json \<Rightarrow> session \<Rightarrow> session \<times> exn option" where
  "handle_trace st now name event_type data s =
     (let s1 = s\<lparr>trace_event_counts := put name (Suc (count_of (trace_event_counts s) name)) (trace_event_counts s)\<rparr> in
      case judge_trace st name s of
        TraceSampled lim report \<Rightarrow>
          if report then
            (case record_event st now Peripheral ''peripheral.trace.sampled'' FromWorker
                (jobj [(''trace_event'', jstr name), (''limit'', JInt (int lim))]) s1 of
               (s2, Some e) \<Rightarrow> (s2, Some e)
             | (s2, None) \<Rightarrow> (s2\<lparr>trace_events_dropped := Suc (trace_events_dropped s2)\<rparr>, None))
          else (s1\<lparr>trace_events_dropped := Suc (trace_events_dropped s1)\<rparr>, None)
      | TraceTruncated report \<Rightarrow>
          if report then
            (case record_event st now Peripheral ''peripheral.trace.truncated'' FromWorker
                (jobj [(''limit'', JInt (max_trace_events_per_generation st))]) s1 of
               (s2, Some e) \<Rightarrow> (s2, Some e)
             | (s2, None) \<Rightarrow> (s2\<lparr>trace_truncation_reported := True,
                 trace_events_dropped := Suc (trace_events_dropped s2)\<rparr>, None))
          else (s1\<lparr>trace_events_dropped := Suc (trace_events_dropped s1)\<rparr>, None)
      | TraceRecord \<Rightarrow>
          record_event st now Peripheral event_type FromWorker data
            (s1\<lparr>trace_events_recorded := Suc (trace_events_recorded s1)\<rparr>))"

end
