(* ===== verification/Session_Worker.thy ===== *)
theory Session_Worker
  imports Session_Log
begin

section \<open>Workers of a session: launch, readers and termination (sessions.py)\<close>

subsection \<open>Steps on one session\<close>

text \<open>Synchronous code on a session: reads the world, returns the session and a result.\<close>

definition session_do :: "string \<Rightarrow> (world \<Rightarrow> session \<Rightarrow> session \<times> (exn + 'a)) \<Rightarrow> 'a task" where
  "session_do sid f = Do (\<lambda>w. case find_session w sid of
       None \<Rightarrow> (w, Ret (Inl (SessionNotFoundError sid)))
     | Some s \<Rightarrow> (case f w s of (s', r) \<Rightarrow> (update_session sid (\<lambda>_. s') w, Ret r)))"

definition to_result :: "session \<times> exn option \<Rightarrow> session \<times> (exn + unit)" where
  "to_result x = (case x of (s, None) \<Rightarrow> (s, Inr ()) | (s, Some e) \<Rightarrow> (s, Inl e))"

definition record_ev ::
    "env \<Rightarrow> string \<Rightarrow> event_category \<Rightarrow> string \<Rightarrow> event_source \<Rightarrow> json \<Rightarrow> unit task" where
  "record_ev en sid cat ty src data =
     session_do sid (\<lambda>w s. to_result (record_event (cfg en) (clock_ns w) cat ty src data s))"

definition append_act :: "env \<Rightarrow> string \<Rightarrow> replay_action \<Rightarrow> unit task" where
  "append_act en sid a =
     session_do sid (\<lambda>w s. case append_replay_action (cfg en) a s of Inl e \<Rightarrow> (s, Inl e) | Inr s' \<Rightarrow> (s', Inr ()))"

definition no_data :: json where "no_data = JObj []"

definition remove_session_files :: "string \<Rightarrow> unit task" where
  "remove_session_files sid = with_session sid (\<lambda>s.
     change (\<lambda>w. w\<lparr>files := rmtree (stuck w) (runtime_directory s) (files w)\<rparr>))"

definition unlink_path :: "path \<Rightarrow> unit task" where
  "unlink_path p = attempt (\<lambda>w. case unlink_missing_ok (stuck w) p (files w) of
     Inl e \<Rightarrow> Inl e | Inr fs \<Rightarrow> Inr (w\<lparr>files := fs\<rparr>))"

definition publish_now :: "string \<Rightarrow> bytes option \<Rightarrow> unit task" where
  "publish_now sid chunk = change (publish sid chunk)"

definition clear_private :: "string \<Rightarrow> unit task" where
  "clear_private sid = on_session sid clear_private_session_data"

subsection \<open>Processes\<close>

definition update_worker :: "nat \<Rightarrow> (worker \<Rightarrow> worker) \<Rightarrow> world \<Rightarrow> world" where
  "update_worker pid f w = w\<lparr>procs := (procs w)(pid := map_option f (procs w pid))\<rparr>"

definition exited :: "nat \<Rightarrow> world \<Rightarrow> bool" where
  "exited pid w = (case procs w pid of None \<Rightarrow> True | Some k \<Rightarrow> returncode k \<noteq> None)"

definition exit_status :: "nat \<Rightarrow> world \<Rightarrow> int option" where
  "exit_status pid w = (case procs w pid of None \<Rightarrow> None | Some k \<Rightarrow> returncode k)"

definition wait_process :: "nat \<Rightarrow> int option task" where
  "wait_process pid = suspend (exited pid) (\<lambda>i w. (w, Inr (exit_status pid w)))"

text \<open>\<open>terminate\<close>, three seconds of grace, then \<open>kill\<close>.\<close>

definition stop_process :: "nat \<Rightarrow> unit task" where
  "stop_process pid = look (\<lambda>w.
     if exited pid w then return ()
     else seq (change (update_worker pid (\<lambda>k. k\<lparr>terminated := True\<rparr>)))
       (on_error (suspend (\<lambda>w. True) (\<lambda>i w. (w, if exited pid w then Inr () else Inl TimeoutError)))
         (\<lambda>e. if e = TimeoutError
              then seq (change (update_worker pid (\<lambda>k. k\<lparr>killed := True\<rparr>)))
                (then_do (wait_process pid) (\<lambda>_. return ()))
              else raising e)))"

text \<open>\<open>if task and task is not current_task(): await gather(task, return_exceptions=True)\<close>.\<close>

definition join_other :: "nat option \<Rightarrow> unit task" where
  "join_other t = (case t of None \<Rightarrow> return ()
     | Some t \<Rightarrow> look (\<lambda>w. if t = me w then return () else gather_task t))"

definition close_debugger :: "string \<Rightarrow> unit task" where
  "close_debugger sid = with_session sid (\<lambda>s.
     seq (on_session sid (\<lambda>s. s\<lparr>debug_run_task := None\<rparr>))
    (seq (case debug_run_task s of None \<Rightarrow> return ()
          | Some t \<Rightarrow> look (\<lambda>w. if t = me w then return () else seq (cancel_task t) (gather_task t)))
    (with_session sid (\<lambda>s.
       seq (on_session sid (\<lambda>s. s\<lparr>gdb_ref := None\<rparr>))
         (case gdb_ref s of None \<Rightarrow> return () | Some g \<Rightarrow> gdb_close g)))))"

definition terminate_worker :: "string \<Rightarrow> unit task" where
  "terminate_worker sid =
     seq (close_debugger sid)
    (with_session sid (\<lambda>s.
       seq (on_session sid (\<lambda>s. s\<lparr>process := None, reader_task := None, trace_reader_task := None\<rparr>))
      (seq (case process s of None \<Rightarrow> return () | Some pid \<Rightarrow> stop_process pid)
      (seq (join_other (reader_task s))
      (seq (join_other (trace_reader_task s))
        (case process s of None \<Rightarrow> return ()
         | Some pid \<Rightarrow> session_do sid (\<lambda>w s. (s\<lparr>exit_code := exit_status pid w\<rparr>, Inr ()))))))))"

subsection \<open>The reader tasks\<close>

fun trace_loop :: "env \<Rightarrow> string \<Rightarrow> exn option \<Rightarrow> nat \<Rightarrow> bytes list \<Rightarrow> unit task" where
  "trace_loop en sid fails n [] =
     seq pause_point (case fails of None \<Rightarrow> return () | Some e \<Rightarrow> raising e)"
| "trace_loop en sid fails n (line # rest) =
     seq pause_point
    (if line = [] then return ()
     else seq (if Suc n mod TRACE_READER_YIELD_LINES = 0 then pause_point else return ())
    (seq (case parse_worker_trace_line line of None \<Rightarrow> return ()
          | Some (event_type, data) \<Rightarrow>
              session_do sid (\<lambda>w s. to_result (handle_trace (cfg en) (clock_ns w) (trace_event data) event_type
                (jobj [(''trace_event'', jstr (trace_event data)), (''detail'', JStr (detail data))]) s)))
      (trace_loop en sid fails (Suc n) rest)))"

definition read_worker_trace :: "env \<Rightarrow> string \<Rightarrow> nat \<Rightarrow> unit task" where
  "read_worker_trace en sid pid = look (\<lambda>w. case procs w pid of None \<Rightarrow> return ()
     | Some k \<Rightarrow> trace_loop en sid (stderr_fails k) 0 (stderr_lines k))"

text \<open>A chunk of the current worker is counted, kept and published in one uninterrupted piece.\<close>

definition take_chunk :: "string \<Rightarrow> nat \<Rightarrow> bytes \<Rightarrow> world \<Rightarrow> world" where
  "take_chunk sid pid chunk w =
     (case find_session w sid of None \<Rightarrow> w
      | Some s \<Rightarrow> if process s = Some pid
          then publish sid (Some chunk) (update_session sid (append_serial_chunk chunk) w) else w)"

fun serial_loop :: "string \<Rightarrow> nat \<Rightarrow> unit task \<Rightarrow> bytes list \<Rightarrow> unit task" where
  "serial_loop sid pid at_end [] = seq pause_point at_end"
| "serial_loop sid pid at_end (chunk # rest) =
     seq pause_point
    (if chunk = [] then at_end
     else seq (change (take_chunk sid pid chunk)) (serial_loop sid pid at_end rest))"

definition worker_exited :: "env \<Rightarrow> string \<Rightarrow> nat \<Rightarrow> unit task" where
  "worker_exited en sid pid =
     then_do (wait_process pid) (\<lambda>code. with_session sid (\<lambda>s.
       if process s \<noteq> Some pid then return ()
       else seq (on_session sid (\<lambda>s. s\<lparr>trace_reader_task := None\<rparr>))
      (seq (join_other (trace_reader_task s))
      (seq (on_session sid (\<lambda>s. s\<lparr>exit_code := code\<rparr>))
      (seq (close_debugger sid)
      (seq (on_session sid (\<lambda>s. if state s \<in> {STARTING, RUNNING, PAUSED}
              then s\<lparr>state := (if exit_code s = Some 0 then STOPPED else FAILED)\<rparr> else s))
      (seq (with_session sid (\<lambda>s. record_ev en sid Lifecycle ''worker.exited'' FromWorker
              (jobj [(''exit_code'', jopt JInt (exit_code s))])))
      (seq (publish_now sid None)
      (seq (clear_private sid)
        (remove_session_files sid)))))))))) "

definition read_serial :: "env \<Rightarrow> string \<Rightarrow> nat \<Rightarrow> unit task" where
  "read_serial en sid pid = look (\<lambda>w. case procs w pid of None \<Rightarrow> return ()
     | Some k \<Rightarrow> serial_loop sid pid (worker_exited en sid pid) (stdout_chunks k))"

subsection \<open>Launching\<close>

definition worker_config :: "settings \<Rightarrow> qemu_worker_config" where
  "worker_config st = \<lparr>executable = qemu_executable st, rom_directory = settings_rom_directory st,
     sandbox_mode = worker_sandbox_mode st, sandbox_executable = worker_sandbox_executable st,
     sandbox_readonly_paths = worker_sandbox_readonly_paths st, broker_socket_path = worker_broker_socket st\<rparr>"

fun is_broker_error :: "exn \<Rightarrow> bool" where
  "is_broker_error (BrokerUnavailableError m) = True"
| "is_broker_error (BrokerProtocolError m) = True"
| "is_broker_error _ = False"

fun is_worker_unavailable :: "exn \<Rightarrow> bool" where
  "is_worker_unavailable (WorkerUnavailableError m) = True"
| "is_worker_unavailable _ = False"

fun is_qmp_unavailable :: "exn \<Rightarrow> bool" where
  "is_qmp_unavailable (QmpUnavailableError m) = True"
| "is_qmp_unavailable _ = False"

text \<open>The new process, from the broker or from a local command line.\<close>

definition new_worker :: "nat task" where
  "new_worker = suspend (\<lambda>w. True) (\<lambda>i w. case i_worker i of
      Inl e \<Rightarrow> (w, Inl e)
    | Inr k \<Rightarrow> (w\<lparr>procs := (procs w)(next_ref w \<mapsto> k), next_ref := Suc (next_ref w)\<rparr>, Inr (next_ref w)))"

definition local_command :: "env \<Rightarrow> session \<Rightarrow> exn + string list" where
  "local_command en s =
     build_qemu_command (cwd en) (worker_config (cfg en)) (session_board s) (flash_path s)
       (if worker_qmp_enabled (cfg en) then Some (qmp_socket_path s) else None)
       (if worker_debug_enabled (cfg en) \<and> worker_qmp_enabled (cfg en) then Some (gdb_socket_path s) else None)
       (worker_trace_enabled (cfg en))"

text \<open>\<open>_limit_worker_resources\<close>: what the child does between \<open>fork\<close> and \<open>exec\<close>.\<close>

definition limit_worker_resources :: "int \<Rightarrow> int \<Rightarrow> worker_limits" where
  "limit_worker_resources memory_limit_mib cpu_limit_seconds =
     (let memory_bytes = memory_limit_mib * 1024 * 1024 in
      \<lparr>address_space = (memory_bytes, memory_bytes), cpu_seconds = (cpu_limit_seconds, cpu_limit_seconds + 1),
       written_file_size = (64 * 1024 * 1024, 64 * 1024 * 1024), open_files = (64, 64), child_umask = octal [0, 7, 7]\<rparr>)"

definition local_worker :: "env \<Rightarrow> session \<Rightarrow> exn + spawn_request" where
  "local_worker en s = sum_bind (local_command en s) (\<lambda>argv. Inr
     \<lparr>spawn_argv = argv, spawn_cwd = runtime_directory s,
      spawn_env = [(''LANG'', ''C.UTF-8''), (''PATH'', ''/usr/bin:/bin'')], own_session = True,
      spawn_limits = limit_worker_resources (worker_memory_limit_mib (cfg en)) (worker_cpu_limit_seconds (cfg en))\<rparr>)"

text \<open>The request is made from the session as it is at that moment.  The log of launches that keeps it is a
  ghost: the program has no such list, nothing reads it, and it only lets a property speak of every launch.\<close>

definition launch_request :: "env \<Rightarrow> session \<Rightarrow> exn + launch_record" where
  "launch_request en s =
     (if worker_sandbox_mode (cfg en) = OCI_BROKER
      then sum_bind (StartRequest (lit (session_id s)) (lit (board_id (session_board s)))) (Inr \<circ> BrokerRequest)
      else sum_bind (local_worker en s) (Inr \<circ> LocalProcess))"

definition log_launch :: "env \<Rightarrow> string \<Rightarrow> unit task" where
  "log_launch en sid = attempt (\<lambda>w. case find_session w sid of
       None \<Rightarrow> Inl (SessionNotFoundError sid)
     | Some s \<Rightarrow> sum_bind (launch_request en s) (\<lambda>r. Inr (w\<lparr>launches := launches w @ [(sid, r)]\<rparr>)))"

definition start_process :: "env \<Rightarrow> string \<Rightarrow> nat task" where
  "start_process en sid =
     on_error (seq (log_launch en sid) new_worker) (\<lambda>e.
       if worker_sandbox_mode (cfg en) = OCI_BROKER \<and> is_broker_error e
       then raising (WorkerUnavailableError ''isolated worker broker launch failed'') else raising e)"

text \<open>
  \<open>_wait_for_qmp_running\<close>: one attempt per 50 milliseconds until the deadline; the fuel covers every
  attempt the deadline leaves room for, and running out of it is the deadline.
\<close>

definition startup_deadline_error :: exn where
  "startup_deadline_error =
     WorkerUnavailableError ''simulator worker did not become ready before the startup deadline''"

definition says_running :: "json \<Rightarrow> bool" where
  "says_running st = (is_obj st \<and> jget st ''running'' = JBool True \<and> jget st ''status'' = jstr ''running'')"

definition says_prelaunch :: "json \<Rightarrow> bool" where
  "says_prelaunch st = (is_obj st \<and> jget st ''running'' = JBool False \<and> jget st ''status'' = jstr ''prelaunch'')"

fun qmp_running_loop :: "nat \<Rightarrow> int \<Rightarrow> path \<Rightarrow> nat \<Rightarrow> unit task" where
  "qmp_running_loop 0 deadline sock pid = raising startup_deadline_error"
| "qmp_running_loop (Suc n) deadline sock pid = look (\<lambda>w.
     if deadline - clock_ns w \<le> 0 then raising startup_deadline_error
     else if exited pid w then raising (WorkerUnavailableError ''simulator worker exited during startup'')
     else then_do
       (on_error (then_do (qmp_call_within (min 1000000000 (deadline - clock_ns w)) sock ''query-status'' None) (\<lambda>st. return (Some st)))
         (\<lambda>e. if is_qmp_unavailable e then return None else raising e))
       (\<lambda>status.
         if (case status of None \<Rightarrow> False | Some st \<Rightarrow> says_running st) then return ()
         else if (case status of None \<Rightarrow> False | Some st \<Rightarrow> \<not> says_prelaunch st)
         then raising (WorkerUnavailableError ''simulator worker reported an invalid startup state'')
         else look (\<lambda>w. if 0 < deadline - clock_ns w
           then seq pause_point (qmp_running_loop n deadline sock pid)
           else raising startup_deadline_error)))"

definition startup_attempts :: "settings \<Rightarrow> nat" where
  "startup_attempts st = nat (worker_startup_timeout_ns st div 50000000) + 2"

definition wait_for_qmp_running :: "env \<Rightarrow> string \<Rightarrow> nat \<Rightarrow> unit task" where
  "wait_for_qmp_running en sid pid = with_session sid (\<lambda>s. look (\<lambda>w.
     qmp_running_loop (startup_attempts (cfg en)) (clock_ns w + worker_startup_timeout_ns (cfg en))
       (qmp_socket_path s) pid))"

definition validate_config :: "env \<Rightarrow> unit task" where
  "validate_config en = look (\<lambda>w. case validate_worker_config (files w) (worker_config (cfg en)) of
     Inl e \<Rightarrow> raising e | Inr u \<Rightarrow> return ())"

definition startup_check :: "env \<Rightarrow> string \<Rightarrow> nat \<Rightarrow> unit task" where
  "startup_check en sid pid =
     seq (if worker_qmp_enabled (cfg en) then wait_for_qmp_running en sid pid else return ())
       (look (\<lambda>w. with_session sid (\<lambda>s.
          guard (process s = Some pid \<and> \<not> exited pid w \<and> state s = STARTING)
            (WorkerUnavailableError ''simulator worker exited during startup''))))"

definition launch :: "env \<Rightarrow> string \<Rightarrow> unit task" where
  "launch en sid =
     seq (validate_config en)
    (then_do (start_process en sid) (\<lambda>pid.
       seq (on_session sid (\<lambda>s. s\<lparr>process := Some pid\<rparr>))
      (seq (spawn (ReadSerial sid pid) (\<lambda>t. on_session sid (\<lambda>s. s\<lparr>reader_task := Some t\<rparr>)))
      (seq (look (\<lambda>w. if (case procs w pid of None \<Rightarrow> False | Some k \<Rightarrow> has_stderr k)
              then spawn (ReadTrace sid pid) (\<lambda>t. on_session sid (\<lambda>s. s\<lparr>trace_reader_task := Some t\<rparr>))
              else return ()))
      (seq (on_error (startup_check en sid pid) (\<lambda>e.
              if is_qmp_error e \<or> is_worker_unavailable e
              then seq (terminate_worker sid)
                (raising (WorkerUnavailableError ''simulator worker failed its startup readiness check''))
              else raising e))
        (on_session sid (\<lambda>s. s\<lparr>state := RUNNING\<rparr>)))))))"

end
