(* ===== verification/Session_Ops.thy ===== *)
theory Session_Ops
  imports Session_Worker
begin

section \<open>The operations of the session manager (sessions.py)\<close>

subsection \<open>Readiness, start, creation\<close>

definition worker_ready :: "env \<Rightarrow> world \<Rightarrow> bool" where
  "worker_ready en w =
     (native_workers_enabled (cfg en)
      \<and> \<not> (worker_sandbox_mode (cfg en) = OCI_BROKER \<and> worker_shared_group_gid (cfg en) = None)
      \<and> is_ok (validate_worker_config (files w) (worker_config (cfg en))))"

definition worker_is_ready :: "env \<Rightarrow> bool task" where
  "worker_is_ready en = look (\<lambda>w.
     if \<not> worker_ready en w then return False
     else if worker_sandbox_mode (cfg en) = OCI_BROKER then suspend (\<lambda>w. True) (\<lambda>i w. (w, Inr (i_probe i)))
     else return True)"

definition zero_id :: string where "zero_id = replicate 32 (CHR ''0'')"

text \<open>\<open>mkdir(parents=True, exist_ok=True)\<close> of the runtime root; an existing non-directory raises.\<close>

definition ensure_root :: "env \<Rightarrow> filesys \<Rightarrow> exn + filesys" where
  "ensure_root en fs =
     (let root = runtime_root (cfg en) in
      case fs root of
        None \<Rightarrow> Inr (make_dir (os_id en) (octal [7, 0, 0] - (octal [7, 0, 0] AND umask (os_id en))) root fs)
      | Some n \<Rightarrow> if is_directory fs root then Inr fs else Inl (FileExistsError (str_path root)))"

definition start :: "env \<Rightarrow> nat \<Rightarrow> unit task" where
  "start en rounds =
     (let st = cfg en;
          socket_paths = [child (child (runtime_root st) zero_id) ''qmp.sock'']
            @ (if worker_debug_enabled st then [child (child (runtime_root st) zero_id) ''gdb.sock''] else []) in
      if native_workers_enabled st \<and> worker_qmp_enabled st
         \<and> list_ex (\<lambda>p. MAX_UNIX_SOCKET_PATH_BYTES < length (str_path (absolute (cwd en) p))) socket_paths
      then raising (WorkerUnavailableError ''simulator runtime root is too long for private worker sockets'')
      else seq (attempt (\<lambda>w. case ensure_root en (files w) of Inl e \<Rightarrow> Inl e | Inr fs \<Rightarrow> Inr (w\<lparr>files := fs\<rparr>)))
     (seq (look (\<lambda>w. case lstat (files w) (runtime_root st) of
           Inl e \<Rightarrow> raising e
         | Inr n \<Rightarrow> guard (is_dir (kind n) \<and> uid n = my_uid (os_id en))
             (WorkerUnavailableError ''simulator runtime root ownership is unsafe'')))
     (seq (case worker_shared_group_gid st of
           Some g \<Rightarrow> if worker_sandbox_mode st = OCI_BROKER
             then change (\<lambda>w. w\<lparr>files := chmod (runtime_root st) (octal [2, 7, 7, 0]) (chgrp (runtime_root st) g (files w))\<rparr>)
             else return ()
         | None \<Rightarrow> return ())
       (spawn (CleanupLoop rounds) (\<lambda>t. change (\<lambda>w. w\<lparr>cleanup_task := Some t\<rparr>))))))"

definition active_count :: "world \<Rightarrow> nat" where
  "active_count w = length (filter (\<lambda>(k, s). state s \<in> ACTIVE_SESSION_STATES) (sessions w))"

definition shared_gid :: "settings \<Rightarrow> int option" where
  "shared_gid st = (if worker_sandbox_mode st = OCI_BROKER then worker_shared_group_gid st else None)"

definition new_session :: "env \<Rightarrow> world \<Rightarrow> board_profile \<Rightarrow> bytes \<Rightarrow> validated_firmware \<Rightarrow> session" where
  "new_session en w board flash metadata =
     (let sid = fresh_uuid w; dir = child (runtime_root (cfg en)) sid in
      \<lparr>session_id = sid, session_board = board, firmware = metadata, created_at = utc_now w,
       expires_at = utc_now w + session_ttl_seconds (cfg en), runtime_directory = dir,
       flash_path = child dir ''flash.bin'', qmp_socket_path = child dir ''qmp.sock'',
       gdb_socket_path = child dir ''gdb.sock'', initial_flash_image = flash, state = STARTING,
       exit_code = None, process = None, reader_task = None, trace_reader_task = None,
       serial_buffer = [], serial_mutations = 0, subscribers = [], gdb_ref = None, debug_run_task = None,
       debug_stop_reason = None, debug_breakpoints = [], generation = 1,
       generation_started_ns = clock_ns w, next_event_sequence = 1, events = [], events_dropped = 0,
       replay_actions = [], replay_actions_dropped = 0, replay_task = None, replay_status = ''idle'',
       replay_error = None, replay_speed = None, accept_live_input = True, serial_output_bytes = 0,
       trace_events_recorded = 0, trace_events_dropped = 0, trace_event_counts = [],
       trace_truncation_reported = False, virtual_imu_state = None, virtual_power_state = None\<rparr>)"

text \<open>The part of \<open>create\<close> under the manager's lock, which never suspends.\<close>

definition admit :: "env \<Rightarrow> board_profile \<Rightarrow> bytes \<Rightarrow> world \<Rightarrow> world \<times> (exn + string)" where
  "admit en board upload w =
     (let st = cfg en in
      if max_concurrent_sessions st \<le> int (active_count w)
      then (w, Inl (SessionCapacityError ''all simulator workers are currently in use''))
      else case validate_and_pad_firmware upload board of
        Inl e \<Rightarrow> (w, Inl e)
      | Inr (flash, metadata) \<Rightarrow>
          let s = new_session en w board flash metadata; g = shared_gid st in
          (case write_private_flash_image (os_id en) (flash_path s) flash
              (if g \<noteq> None then octal [2, 7, 7, 0] else octal [7, 0, 0])
              (if g \<noteq> None then octal [6, 6, 0] else octal [6, 0, 0]) g (files w) of
             Inl e \<Rightarrow> (w, Inl e)
           | Inr fs \<Rightarrow> (w\<lparr>files := fs, sessions := put (session_id s) s (sessions w)\<rparr>, Inr (session_id s))))"

definition first_launch :: "env \<Rightarrow> string \<Rightarrow> unit task" where
  "first_launch en sid =
     on_error
       (seq (session_do sid (\<lambda>w s. (s\<lparr>generation_started_ns := clock_ns w\<rparr>, Inr ())))
       (seq (launch en sid) (record_ev en sid Lifecycle ''session.started'' Service no_data)))
       (\<lambda>e. if is_exception e
          then seq (on_session sid (\<lambda>s. s\<lparr>state := FAILED\<rparr>))
            (seq (remove_session_files sid) (seq (clear_private sid) (raising e)))
          else raising e)"

text \<open>\<open>create\<close> up to the launch, and what is done with the admitted session.\<close>

definition create_then :: "env \<Rightarrow> board_profile \<Rightarrow> bytes \<Rightarrow> (string \<Rightarrow> 'a task) \<Rightarrow> 'a task" where
  "create_then en board upload k =
     then_do (worker_is_ready en) (\<lambda>ready.
       if \<not> ready then raising (WorkerUnavailableError ''native QEMU workers are not configured and enabled'')
       else then_do (locked ManagerLock (Do (\<lambda>w. case admit en board upload w of (w', r) \<Rightarrow> (w', Ret r))))
         k)"

definition create :: "env \<Rightarrow> board_profile \<Rightarrow> bytes \<Rightarrow> unit task" where
  "create en board upload = create_then en board upload (first_launch en)"

text \<open>The caller's view: the new session's id.\<close>

definition create_session :: "env \<Rightarrow> board_profile \<Rightarrow> bytes \<Rightarrow> string task" where
  "create_session en board upload = create_then en board upload (\<lambda>sid. seq (first_launch en sid) (return sid))"

subsection \<open>Stopping and clean-up\<close>

definition stop :: "env \<Rightarrow> string \<Rightarrow> bool \<Rightarrow> unit task" where
  "stop en sid expired =
     with_session sid (\<lambda>s.
       seq (on_session sid (\<lambda>s. s\<lparr>replay_task := None\<rparr>))
      (seq (case replay_task s of None \<Rightarrow> return ()
            | Some t \<Rightarrow> look (\<lambda>w. if t = me w then return () else seq (cancel_task t) (gather_task t)))
        (locked (LifecycleLock sid)
          (seq (terminate_worker sid)
          (seq (clear_private sid)
          (seq (on_session sid (\<lambda>s. s\<lparr>state := (if expired then EXPIRED else STOPPED)\<rparr>))
          (seq (record_ev en sid Lifecycle (if expired then ''session.expired'' else ''session.stopped'') Service no_data)
          (seq (publish_now sid None)
            (remove_session_files sid)))))))))"

definition expired_ids :: "world \<Rightarrow> string list" where
  "expired_ids w = map (\<lambda>(k, s). session_id s)
     (filter (\<lambda>(k, s). state s \<in> ACTIVE_SESSION_STATES \<and> expires_at s \<le> utc_now w) (sessions w))"

text \<open>\<open>_cleanup_loop\<close>, for the number of rounds before the service ends.\<close>

fun cleanup_loop :: "env \<Rightarrow> nat \<Rightarrow> unit task" where
  "cleanup_loop en 0 = pause_point"
| "cleanup_loop en (Suc n) =
     seq pause_point
    (look (\<lambda>w. seq (foreach (expired_ids w) (\<lambda>sid. stop en sid True)) (cleanup_loop en n)))"

definition close :: "env \<Rightarrow> unit task" where
  "close en =
     look (\<lambda>w. seq (case cleanup_task w of None \<Rightarrow> return ()
         | Some t \<Rightarrow> seq (cancel_task t) (gather_task t))
       (look (\<lambda>w. foreach (map fst (sessions w)) (\<lambda>sid. stop en sid False))))"

subsection \<open>Live input\<close>

definition require_live_input :: "session \<Rightarrow> unit task" where
  "require_live_input s =
     guard (accept_live_input s) (RuntimeError ''live input is disabled while a replay is running'')"

definition require_board_input :: "env \<Rightarrow> session \<Rightarrow> unit task" where
  "require_board_input en s =
     seq (require_live_input s)
    (seq (guard (state s = RUNNING) (RuntimeError ''session board input is not available''))
      (guard (worker_qmp_enabled (cfg en)) (QmpUnavailableError ''QMP board input is disabled for this worker'')))"

definition offset_then :: "string \<Rightarrow> (int \<Rightarrow> 'a task) \<Rightarrow> 'a task" where
  "offset_then sid f = look (\<lambda>w. with_session sid (\<lambda>s. f (now_offset_ms w s)))"

definition record_input :: "env \<Rightarrow> string \<Rightarrow> action \<Rightarrow> json \<Rightarrow> unit task" where
  "record_input en sid a public_data =
     offset_then sid (\<lambda>t.
       seq (append_act en sid \<lparr>ra_offset_ms = t, ra_action = a\<rparr>)
         (record_ev en sid Input (''input.'' @ action_type a) User public_data))"

definition sum_task :: "exn + 'a \<Rightarrow> 'a task" where
  "sum_task r = Ret r"

text \<open>\<open>process.stdin.write\<close> and \<open>drain\<close>.\<close>

definition stdin_send :: "nat \<Rightarrow> bytes \<Rightarrow> unit task" where
  "stdin_send pid payload =
     seq (change (update_worker pid (\<lambda>k. k\<lparr>stdin_written := stdin_written k @ [payload]\<rparr>)))
       (suspend (\<lambda>w. True) (\<lambda>i w. (w, case i_drain i of None \<Rightarrow> Inr () | Some e \<Rightarrow> Inl e)))"

definition serial_input :: "string \<Rightarrow> bytes \<Rightarrow> unit task" where
  "serial_input sid payload = look (\<lambda>w. with_session sid (\<lambda>s.
     case process s of
       None \<Rightarrow> raising (RuntimeError ''session serial input is not available'')
     | Some pid \<Rightarrow>
         if state s \<noteq> RUNNING \<or> \<not> (case procs w pid of None \<Rightarrow> False | Some k \<Rightarrow> has_stdin k)
         then raising (RuntimeError ''session serial input is not available'')
         else stdin_send pid payload))"

definition write_serial :: "env \<Rightarrow> string \<Rightarrow> bytes \<Rightarrow> unit task" where
  "write_serial en sid payload = with_session sid (\<lambda>s.
     seq (require_live_input s)
    (seq (serial_input sid payload)
      (record_input en sid (SerialAction payload) (serial_metadata payload))))"

definition session_qmp :: "string \<Rightarrow> string \<Rightarrow> json option \<Rightarrow> json task" where
  "session_qmp sid cmd arguments =
     locked (QmpLock sid) (with_session sid (\<lambda>s. qmp_call (qmp_socket_path s) cmd arguments))"

definition key_data :: "string \<Rightarrow> bool \<Rightarrow> json" where
  "key_data key pressed = jobj [(''key'', jstr key), (''pressed'', JBool pressed)]"

definition button_data :: "string \<Rightarrow> bool \<Rightarrow> json" where
  "button_data button pressed = jobj [(''button'', jstr button), (''pressed'', JBool pressed)]"

definition imu_data :: "vec3 \<Rightarrow> vec3 \<Rightarrow> json" where
  "imu_data a v = jobj [(''acceleration_g'', vector_dict a), (''angular_velocity_dps'', vector_dict v)]"

definition power_data :: "int \<Rightarrow> int \<Rightarrow> bool \<Rightarrow> json" where
  "power_data b v c = jobj [(''battery_mv'', JInt b), (''vin_mv'', JInt v), (''charging'', JBool c)]"

definition send_key :: "env \<Rightarrow> string \<Rightarrow> string \<Rightarrow> bool \<Rightarrow> unit task" where
  "send_key en sid key pressed = with_session sid (\<lambda>s.
     seq (require_board_input en s)
    (then_do (sum_task (qmp_key_event (session_board s) key pressed)) (\<lambda>arguments.
     seq (session_qmp sid ''input-send-event'' (Some arguments))
       (record_input en sid (KeyAction key pressed) (key_data key pressed)))))"

definition send_button :: "env \<Rightarrow> string \<Rightarrow> string \<Rightarrow> bool \<Rightarrow> unit task" where
  "send_button en sid button pressed = with_session sid (\<lambda>s.
     seq (require_board_input en s)
    (then_do (sum_task (qmp_button_event (session_board s) button pressed)) (\<lambda>arguments.
     seq (session_qmp sid ''qom-set'' (Some arguments))
       (record_input en sid (ButtonAction button pressed) (button_data button pressed)))))"

definition set_imu_sample :: "env \<Rightarrow> string \<Rightarrow> vec3 \<Rightarrow> vec3 \<Rightarrow> unit task" where
  "set_imu_sample en sid a v = with_session sid (\<lambda>s.
     seq (require_board_input en s)
    (then_do (sum_task (qmp_imu_sample (session_board s) a v)) (\<lambda>arguments.
     seq (session_qmp sid ''qom-set'' (Some arguments))
    (seq (on_session sid (\<lambda>s. s\<lparr>virtual_imu_state := Some (a, v)\<rparr>))
       (record_input en sid (ImuAction a v) (imu_data a v))))))"

definition set_power_state :: "env \<Rightarrow> string \<Rightarrow> int \<Rightarrow> int \<Rightarrow> bool \<Rightarrow> unit task" where
  "set_power_state en sid b v c = with_session sid (\<lambda>s.
     seq (require_board_input en s)
    (then_do (sum_task (qmp_power_state (session_board s) b v c)) (\<lambda>arguments.
     seq (session_qmp sid ''qom-set'' (Some arguments))
    (seq (on_session sid (\<lambda>s. s\<lparr>virtual_power_state := Some (b, v, c)\<rparr>))
       (record_input en sid (PowerAction b v c) (power_data b v c))))))"

subsection \<open>Session control\<close>

definition require_qmp :: "env \<Rightarrow> unit task" where
  "require_qmp en = guard (worker_qmp_enabled (cfg en))
     (QmpUnavailableError ''QMP session control is disabled for this worker'')"

definition transition_error :: "string \<Rightarrow> session_state \<Rightarrow> exn" where
  "transition_error verb st = SessionTransitionError (''cannot '' @ verb @ '' session in '' @ state_value st @ '' state'')"

definition refresh_state :: "env \<Rightarrow> string \<Rightarrow> unit task" where
  "refresh_state en sid = with_session sid (\<lambda>s.
     if state s \<notin> {RUNNING, PAUSED} \<or> \<not> worker_qmp_enabled (cfg en) then return ()
     else then_do (session_qmp sid ''query-status'' None) (\<lambda>status.
       if is_obj status
       then on_session sid (\<lambda>s. s\<lparr>state := (if truthy (jget status ''running'') then RUNNING else PAUSED)\<rparr>)
       else return ()))"

definition starts_with_debugger_error :: "utext option \<Rightarrow> bool" where
  "starts_with_debugger_error r = (case r of None \<Rightarrow> False | Some t \<Rightarrow> starts ''debugger-error:'' t)"

text \<open>
  \<open>wait_for(shield(task), 2)\<close>: resumed before the task is done, it is the timeout; a cancelled or
  failed task passes its exception on.
\<close>

definition wait_shielded :: "nat \<Rightarrow> unit task" where
  "wait_shielded t = suspend (\<lambda>w. True) (\<lambda>i w. (w,
     case map_of (finished w) t of
       None \<Rightarrow> Inl TimeoutError | Some None \<Rightarrow> Inr () | Some (Some e) \<Rightarrow> Inl e))"

definition drop_debugger :: "string \<Rightarrow> nat \<Rightarrow> unit task" where
  "drop_debugger sid t =
     seq (cancel_task t) (seq (gather_task t)
    (seq (on_session sid (\<lambda>s. if debug_run_task s = Some t then s\<lparr>debug_run_task := None\<rparr> else s))
      (with_session sid (\<lambda>s. case gdb_ref s of None \<Rightarrow> return ()
        | Some g \<Rightarrow> seq (gdb_close g) (on_session sid (\<lambda>s. s\<lparr>gdb_ref := None\<rparr>))))))"

definition pause :: "env \<Rightarrow> string \<Rightarrow> unit task" where
  "pause en sid = with_session sid (\<lambda>s.
     seq (require_live_input s) (seq (require_qmp en)
    (seq (locked (QmpLock sid) (with_session sid (\<lambda>s.
        seq (guard (state s = RUNNING) (transition_error ''pause'' (state s)))
       (seq (qmp_call (qmp_socket_path s) ''stop'' None)
         (on_session sid (\<lambda>s. s\<lparr>state := PAUSED\<rparr>))))))
    (seq (record_ev en sid Control ''session.paused'' User no_data)
    (with_session sid (\<lambda>s. case debug_run_task s of None \<Rightarrow> return ()
       | Some t \<Rightarrow>
           seq (on_error (wait_shielded t) (\<lambda>e.
               if e = TimeoutError
               then seq (drop_debugger sid t)
                 (raising (GdbRemoteError ''debugger did not acknowledge the paused worker''))
               else raising e))
             (with_session sid (\<lambda>s. if starts_with_debugger_error (debug_stop_reason s)
               then raising (GdbRemoteError (show_text (opt_text (debug_stop_reason s)))) else return ()))))))))"

definition resume_session :: "env \<Rightarrow> string \<Rightarrow> unit task" where
  "resume_session en sid = with_session sid (\<lambda>s.
     seq (require_live_input s) (seq (require_qmp en)
    (seq (guard (state s = PAUSED) (transition_error ''resume'' (state s)))
    (seq (case gdb_ref s of
         Some g \<Rightarrow>
           seq (on_session sid (\<lambda>s. s\<lparr>state := RUNNING, debug_stop_reason := None\<rparr>))
             (spawn (ContinueDebug sid) (\<lambda>t. on_session sid (\<lambda>s. s\<lparr>debug_run_task := Some t\<rparr>)))
       | None \<Rightarrow> locked (QmpLock sid) (with_session sid (\<lambda>s.
           seq (qmp_call (qmp_socket_path s) ''cont'' None)
             (on_session sid (\<lambda>s. s\<lparr>state := RUNNING\<rparr>)))))
      (record_ev en sid Control ''session.resumed'' User no_data)))))"

definition reset :: "env \<Rightarrow> string \<Rightarrow> unit task" where
  "reset en sid = with_session sid (\<lambda>s.
     seq (require_live_input s) (seq (require_qmp en)
    (seq (locked (QmpLock sid) (with_session sid (\<lambda>s.
        seq (guard (state s \<in> {RUNNING, PAUSED}) (transition_error ''reset'' (state s)))
       (seq (qmp_call (qmp_socket_path s) ''system_reset'' None) (return ())))))
    (offset_then sid (\<lambda>t.
       seq (append_act en sid \<lparr>ra_offset_ms = t, ra_action = ResetAction\<rparr>)
         (record_ev en sid Control ''session.reset'' User no_data))))))"

subsection \<open>Power\<close>

definition power_off_worker :: "string \<Rightarrow> unit task" where
  "power_off_worker sid =
     seq (terminate_worker sid)
    (seq (on_session sid (\<lambda>s. s\<lparr>state := POWERED_OFF, exit_code := None\<rparr>))
      (publish_now sid None))"

definition unlink_runtime_files :: "string \<Rightarrow> unit task" where
  "unlink_runtime_files sid = with_session sid (\<lambda>s.
     seq (unlink_path (qmp_socket_path s))
    (seq (unlink_path (gdb_socket_path s))
      (unlink_path (child (runtime_directory s) ''framebuffer.ppm''))))"

definition restore_virtual_environment :: "env \<Rightarrow> string \<Rightarrow> unit task" where
  "restore_virtual_environment en sid =
     (if \<not> worker_qmp_enabled (cfg en) then return ()
      else locked (QmpLock sid)
        (seq (with_session sid (\<lambda>s. case virtual_imu_state s of None \<Rightarrow> return ()
            | Some (a, v) \<Rightarrow> then_do (sum_task (qmp_imu_sample (session_board s) a v)) (\<lambda>arguments.
                seq (qmp_call (qmp_socket_path s) ''qom-set'' (Some arguments)) (return ()))))
          (with_session sid (\<lambda>s. case virtual_power_state s of None \<Rightarrow> return ()
            | Some (b, v, c) \<Rightarrow> then_do (sum_task (qmp_power_state (session_board s) b v c)) (\<lambda>arguments.
                seq (qmp_call (qmp_socket_path s) ''qom-set'' (Some arguments)) (return ()))))))"

definition power_on_reset :: "session \<Rightarrow> session" where
  "power_on_reset s = (clear_serial_buffer s)\<lparr>serial_output_bytes := 0, debug_breakpoints := [],
     debug_stop_reason := None, exit_code := None, trace_events_recorded := 0, trace_events_dropped := 0,
     trace_event_counts := [], trace_truncation_reported := False, state := STARTING\<rparr>"

definition power_on_worker :: "env \<Rightarrow> string \<Rightarrow> unit task" where
  "power_on_worker en sid =
     seq (unlink_runtime_files sid)
    (seq (change (update_session sid power_on_reset))
      (on_error (seq (launch en sid) (restore_virtual_environment en sid))
        (\<lambda>e. if is_exception e
           then seq (terminate_worker sid)
             (seq (on_session sid (\<lambda>s. s\<lparr>state := FAILED\<rparr>))
             (seq (clear_private sid)
             (seq (remove_session_files sid)
             (seq (publish_now sid None) (raising e)))))
           else raising e)))"

definition power_off :: "env \<Rightarrow> string \<Rightarrow> unit task" where
  "power_off en sid = with_session sid (\<lambda>s. locked (LifecycleLock sid) (with_session sid (\<lambda>s.
     seq (require_live_input s)
    (seq (guard (state s \<in> {RUNNING, PAUSED}) (transition_error ''power off'' (state s)))
    (offset_then sid (\<lambda>t.
       seq (power_off_worker sid)
      (seq (append_act en sid \<lparr>ra_offset_ms = t, ra_action = PowerOffAction\<rparr>)
         (record_ev en sid Control ''session.powered_off'' User no_data))))))))"

definition power_on :: "env \<Rightarrow> string \<Rightarrow> unit task" where
  "power_on en sid = with_session sid (\<lambda>s. locked (LifecycleLock sid) (with_session sid (\<lambda>s.
     seq (require_live_input s)
    (seq (guard (state s = POWERED_OFF) (transition_error ''power on'' (state s)))
    (offset_then sid (\<lambda>t.
       seq (power_on_worker en sid)
      (seq (append_act en sid \<lparr>ra_offset_ms = t, ra_action = PowerOnAction\<rparr>)
         (record_ev en sid Control ''session.powered_on'' User no_data))))))))"

end
