(* ===== verification/Session_Streams.thy ===== *)
theory Session_Streams
  imports Session_Ops
begin

section \<open>Debugging, framebuffer and serial subscription (sessions.py)\<close>

subsection \<open>Debugging\<close>

definition require_paused_debug_session :: "env \<Rightarrow> string \<Rightarrow> unit task" where
  "require_paused_debug_session en sid =
     seq (refresh_state en sid)
    (with_session sid (\<lambda>s.
       seq (guard (state s = PAUSED) (SessionTransitionError ''debug operations require a paused session''))
         (guard (worker_debug_enabled (cfg en) \<and> worker_qmp_enabled (cfg en))
           (GdbRemoteError ''private GDB worker access is disabled''))))"

definition debug_client :: "string \<Rightarrow> nat task" where
  "debug_client sid = with_session sid (\<lambda>s. case gdb_ref s of
       Some g \<Rightarrow> return g
     | None \<Rightarrow>
         then_do (suspend (\<lambda>w. True) (\<lambda>i w. case connect (gdb_socket_path s) (i_gdb_attempts i) of
             Inl e \<Rightarrow> (w, Inl e)
           | Inr c \<Rightarrow> (w\<lparr>gdbs := (gdbs w)(next_ref w \<mapsto> c), next_ref := Suc (next_ref w)\<rparr>, Inr (next_ref w))))
         (\<lambda>g. seq (on_session sid (\<lambda>s. s\<lparr>gdb_ref := Some g\<rparr>)) (return g)))"

definition debug_registers :: "env \<Rightarrow> string \<Rightarrow> (utext \<times> nat option) list task" where
  "debug_registers en sid =
     seq (require_paused_debug_session en sid)
    (then_do (debug_client sid) (\<lambda>g. gdb_call True g (read_registers (xml_parser en) (unicode_int en))))"

definition debug_read_memory :: "env \<Rightarrow> string \<Rightarrow> int \<Rightarrow> int \<Rightarrow> bytes task" where
  "debug_read_memory en sid address len =
     seq (require_paused_debug_session en sid)
    (then_do (debug_client sid) (\<lambda>g. gdb_call True g (read_memory address len)))"

definition breakpoint_limit_error :: exn where
  "breakpoint_limit_error = GdbRemoteError ''a session may have at most 32 breakpoints''"

definition debug_set_breakpoint :: "env \<Rightarrow> string \<Rightarrow> int \<Rightarrow> bool \<Rightarrow> unit task" where
  "debug_set_breakpoint en sid address enabled =
     seq (require_paused_debug_session en sid)
    (then_do (debug_client sid) (\<lambda>g.
       if enabled then
         with_session sid (\<lambda>s.
           seq (guard (\<not> (address \<notin> set (debug_breakpoints s) \<and> MAX_DEBUG_BREAKPOINTS \<le> length (debug_breakpoints s)))
               breakpoint_limit_error)
          (seq (gdb_call True g (add_breakpoint address))
            (on_session sid (\<lambda>s. s\<lparr>debug_breakpoints := List.insert address (debug_breakpoints s)\<rparr>))))
       else
         seq (gdb_call True g (remove_breakpoint address))
           (on_session sid (\<lambda>s. s\<lparr>debug_breakpoints := removeAll address (debug_breakpoints s)\<rparr>))))"

definition debug_step :: "env \<Rightarrow> string \<Rightarrow> utext task" where
  "debug_step en sid =
     seq (require_paused_debug_session en sid)
    (then_do (debug_client sid) (\<lambda>g. then_do (gdb_call True g gdb_step) (\<lambda>reply.
       seq (on_session sid (\<lambda>s. s\<lparr>debug_stop_reason := Some reply\<rparr>)) (return reply))))"

fun gdb_message :: "exn \<Rightarrow> string" where
  "gdb_message (GdbRemoteError m) = m"
| "gdb_message _ = []"

definition continue_under_debugger :: "env \<Rightarrow> string \<Rightarrow> unit task" where
  "continue_under_debugger en sid =
     always
       (on_error
         (with_session sid (\<lambda>s. case gdb_ref s of
             None \<Rightarrow> raising (GdbRemoteError ''debugger is not connected'')
           | Some g \<Rightarrow> then_do (gdb_call False g continue_execution) (\<lambda>reason.
               on_session sid (\<lambda>s. s\<lparr>debug_stop_reason := Some reason,
                 state := (if state s = RUNNING then PAUSED else state s)\<rparr>))))
         (\<lambda>e. if is_gdb_error e then
             seq (on_session sid (\<lambda>s. s\<lparr>debug_stop_reason := Some (lit (''debugger-error: '' @ gdb_message e))\<rparr>))
            (seq (on_error (refresh_state en sid) (\<lambda>e. if is_qmp_error e then return () else raising e))
              (with_session sid (\<lambda>s. seq (on_session sid (\<lambda>s. s\<lparr>gdb_ref := None\<rparr>))
                (case gdb_ref s of None \<Rightarrow> return () | Some g \<Rightarrow> gdb_close g))))
           else raising e))
       (on_session sid (\<lambda>s. s\<lparr>debug_run_task := None\<rparr>))"

subsection \<open>Framebuffer\<close>

definition write_screen :: "env \<Rightarrow> path \<Rightarrow> bytes option \<Rightarrow> world \<Rightarrow> world" where
  "write_screen en p screen w = (case screen of None \<Rightarrow> w
     | Some bs \<Rightarrow> w\<lparr>files := write_bytes (os_id en) p bs (files w)\<rparr>)"

definition capture_framebuffer :: "env \<Rightarrow> string \<Rightarrow> rgb_frame task" where
  "capture_framebuffer en sid = with_session sid (\<lambda>s.
     seq (guard (state s \<in> {RUNNING, PAUSED}) (RuntimeError ''session framebuffer is not available''))
    (seq (guard (worker_qmp_enabled (cfg en)) (QmpUnavailableError ''QMP framebuffer capture is disabled for this worker''))
    (let screenshot = child (runtime_directory s) ''framebuffer.ppm'' in
     locked (QmpLock sid)
       (always
         (seq (qmp_call (qmp_socket_path s) ''screendump'' (Some (jobj [(''filename'', jstr (str_path screenshot))])))
         (seq (suspend (\<lambda>w. True) (\<lambda>i w. (write_screen en screenshot (i_screen i) w, Inr ())))
           (look (\<lambda>w. case files w screenshot of
              Some n \<Rightarrow> (case kind n of Regular bs \<Rightarrow> sum_task (parse_qemu_ppm bs)
                 | k \<Rightarrow> raising (OSError (str_path screenshot)))
            | None \<Rightarrow> raising (FileNotFoundError (str_path screenshot))))))
         (unlink_path screenshot)))))"

text \<open>
  \<open>subscribe_framebuffer\<close>: the packets yielded in a number of rounds; each yield and each sleep
  suspends.
\<close>

fun framebuffer_rounds :: "env \<Rightarrow> string \<Rightarrow> nat \<Rightarrow> bytes option \<Rightarrow> int \<Rightarrow> bytes list task" where
  "framebuffer_rounds en sid 0 previous sequence = return []"
| "framebuffer_rounds en sid (Suc n) previous sequence = with_session sid (\<lambda>s.
     if state s \<notin> {RUNNING, PAUSED} then return []
     else then_do (capture_framebuffer en sid) (\<lambda>frame.
       if Some (pixels frame) \<noteq> previous then
         then_do (sum_task (encode_framebuffer_packet frame sequence)) (\<lambda>packet.
           seq pause_point (seq pause_point
          (then_do (framebuffer_rounds en sid n (Some (pixels frame)) ((sequence + 1) mod 2 ^ 32))
            (\<lambda>packets. return (packet # packets)))))
       else seq pause_point (framebuffer_rounds en sid n previous sequence)))"

definition subscribe_framebuffer :: "env \<Rightarrow> string \<Rightarrow> nat \<Rightarrow> bytes list task" where
  "subscribe_framebuffer en sid n = with_session sid (\<lambda>s. framebuffer_rounds en sid n None 0)"

subsection \<open>Serial subscription\<close>

text \<open>
  The generator first iterates over the live deque, suspending at every yield; a deque changed
  meanwhile raises at the iterator's next step.
\<close>

fun serial_backlog :: "string \<Rightarrow> nat \<Rightarrow> bytes list \<Rightarrow> unit task" where
  "serial_backlog sid version [] = with_session sid (\<lambda>s.
     guard (serial_mutations s = version) (RuntimeError ''deque mutated during iteration''))"
| "serial_backlog sid version (chunk # rest) =
     seq (with_session sid (\<lambda>s.
       guard (serial_mutations s = version) (RuntimeError ''deque mutated during iteration'')))
    (seq pause_point (serial_backlog sid version rest))"

definition register_queue :: "string \<Rightarrow> nat option task" where
  "register_queue sid = look (\<lambda>w.
     seq (change (\<lambda>w. w\<lparr>queues := (queues w)(next_ref w := []), next_ref := Suc (next_ref w)\<rparr>))
    (seq (on_session sid (\<lambda>s. s\<lparr>subscribers := subscribers s @ [next_ref w]\<rparr>))
      (return (Some (next_ref w)))))"

definition serial_subscribe :: "string \<Rightarrow> nat option task" where
  "serial_subscribe sid = with_session sid (\<lambda>s.
     seq (serial_backlog sid (serial_mutations s) (serial_buffer s))
    (with_session sid (\<lambda>s. if state s \<notin> {RUNNING, PAUSED} then return None else register_queue sid)))"

definition serial_next :: "nat \<Rightarrow> bytes option task" where
  "serial_next q = suspend (\<lambda>w. queues w q \<noteq> [])
     (\<lambda>i w. (w\<lparr>queues := (queues w)(q := tl (queues w q))\<rparr>, Inr (hd (queues w q))))"

definition serial_unsubscribe :: "string \<Rightarrow> nat \<Rightarrow> unit task" where
  "serial_unsubscribe sid q = on_session sid (\<lambda>s. s\<lparr>subscribers := removeAll q (subscribers s)\<rparr>)"

text \<open>The generator with a consumer that takes at most \<open>n\<close> live chunks.\<close>

fun serial_consume :: "nat \<Rightarrow> nat \<Rightarrow> unit task" where
  "serial_consume q 0 = return ()"
| "serial_consume q (Suc n) = then_do (serial_next q) (\<lambda>chunk. case chunk of
       None \<Rightarrow> return () | Some c \<Rightarrow> seq pause_point (serial_consume q n))"

definition subscribe_serial :: "string \<Rightarrow> nat \<Rightarrow> unit task" where
  "subscribe_serial sid n = then_do (serial_subscribe sid) (\<lambda>queue. case queue of
       None \<Rightarrow> return ()
     | Some q \<Rightarrow> always (serial_consume q n) (serial_unsubscribe sid q))"

subsection \<open>The serial socket (\<open>session_serial\<close> of api.py)\<close>

text \<open>
  A socket ends with a close code of the service, or because the client is gone.  The client of the
  serial socket takes at most \<open>n\<close> live chunks, sends the payloads and then disconnects; both directions
  are tasks of their own, and the end of one ends the other.
\<close>

datatype socket_end = Closed nat string | Ended

definition NO_SESSION :: socket_end where
  "NO_SESSION = Closed 4404 ''simulation session not found''"

definition admit_socket :: "string \<Rightarrow> socket_end task \<Rightarrow> socket_end task" where
  "admit_socket sid p = look (\<lambda>w. case find_session w sid of
       None \<Rightarrow> return NO_SESSION | Some s \<Rightarrow> seq pause_point p)"

fun receive_serial :: "env \<Rightarrow> string \<Rightarrow> bytes list \<Rightarrow> unit task" where
  "receive_serial en sid [] = seq pause_point (raising WebSocketDisconnect)"
| "receive_serial en sid (payload # rest) =
     seq pause_point (seq (write_serial en sid payload) (receive_serial en sid rest))"

definition first_of_both :: "nat \<Rightarrow> nat \<Rightarrow> unit task" where
  "first_of_both t r =
     seq (suspend (\<lambda>w. is_done t w \<or> is_done r w) (\<lambda>i w. (w, Inr ())))
    (seq (cancel_task t) (seq (cancel_task r)
      (suspend (\<lambda>w. is_done t w \<and> is_done r w) (\<lambda>i w. (w, Inr ())))))"

definition session_serial :: "env \<Rightarrow> string \<Rightarrow> nat \<Rightarrow> bytes list \<Rightarrow> socket_end task" where
  "session_serial en sid n payloads = admit_socket sid
     (seq (spawn (SendSerial sid n) (\<lambda>t. spawn (ReceiveSerial sid payloads) (\<lambda>r. first_of_both t r)))
       (return Ended))"

end
