(* ===== verification/Session_Replay.thy ===== *)
theory Session_Replay
  imports Session_Streams
begin

section \<open>Replay of recorded input (sessions.py)\<close>

definition replay_duration :: "replay_action list \<Rightarrow> pyfloat \<Rightarrow> pyfloat" where
  "replay_duration actions speed = fdiv (true_div (ra_offset_ms (last actions)) 1000) speed"

text \<open>
  \<open>start_replay\<close>, which never suspends.  The API admits speeds from 0.25 to 4, so the division by
  the speed is not by zero.
\<close>

definition start_replay :: "env \<Rightarrow> string \<Rightarrow> pyfloat \<Rightarrow> unit task" where
  "start_replay en sid speed = look (\<lambda>w. with_session sid (\<lambda>s.
     seq (guard (state s \<in> {RUNNING, PAUSED}) (transition_error ''replay'' (state s)))
    (seq (guard (case replay_task s of None \<Rightarrow> True | Some t \<Rightarrow> is_done t w)
        (SessionTransitionError ''a replay is already running''))
    (seq (guard (replay_actions_dropped s = 0)
        (SessionTransitionError ''the replayable input recording exceeded its bound and is incomplete''))
    (seq (guard (replay_actions s \<noteq> []) (SessionTransitionError ''the session has no replayable external input''))
    (seq (guard (\<not> fgt (replay_duration (replay_actions s) speed) (max_replay_duration_seconds (cfg en)))
        (SessionTransitionError ''the requested replay duration exceeds the configured limit''))
    (seq (on_session sid (\<lambda>s. s\<lparr>replay_status := ''queued'', replay_speed := Some speed,
        replay_error := None, accept_live_input := False\<rparr>))
    (seq (record_ev en sid Replay ''replay.queued'' User
        (jobj [(''action_count'', JInt (int (length (replay_actions s)))), (''speed'', JFloat speed)]))
      (spawn (RunReplay sid (replay_actions s) speed)
        (\<lambda>t. on_session sid (\<lambda>s. s\<lparr>replay_task := Some t\<rparr>)))))))))))"

text \<open>The session's state at the start of a replayed generation.\<close>

definition replay_reset :: "int \<Rightarrow> session \<Rightarrow> session" where
  "replay_reset now s = (clear_serial_buffer s)\<lparr>serial_output_bytes := 0, debug_breakpoints := [],
     debug_stop_reason := None, exit_code := None, generation := Suc (generation s),
     generation_started_ns := now, replay_actions := [], replay_actions_dropped := 0,
     trace_events_recorded := 0, trace_events_dropped := 0, trace_event_counts := [],
     trace_truncation_reported := False, virtual_imu_state := None, virtual_power_state := None,
     state := STARTING\<rparr>"

definition restore_flash :: "env \<Rightarrow> session \<Rightarrow> filesys \<Rightarrow> exn + filesys" where
  "restore_flash en s fs =
     (let dir = runtime_directory s in
      case (case fs dir of
          None \<Rightarrow> Inr (make_dir (os_id en) (octal [7, 0, 0] - (octal [7, 0, 0] AND umask (os_id en))) dir fs)
        | Some n \<Rightarrow> if is_directory fs dir then Inr fs else Inl (FileExistsError (str_path dir))) of
        Inl e \<Rightarrow> Inl e
      | Inr fs1 \<Rightarrow> Inr (chmod (flash_path s) (octal [6, 0, 0])
          (write_bytes (os_id en) (flash_path s) (initial_flash_image s) fs1)))"

definition replay_prepare :: "env \<Rightarrow> string \<Rightarrow> unit task" where
  "replay_prepare en sid =
     seq (terminate_worker sid)
    (seq (with_session sid (\<lambda>s. attempt (\<lambda>w. case restore_flash en s (files w) of
        Inl e \<Rightarrow> Inl e | Inr fs \<Rightarrow> Inr (w\<lparr>files := fs\<rparr>))))
    (seq (unlink_runtime_files sid)
      (session_do sid (\<lambda>w s. (replay_reset (clock_ns w) s, Inr ())))))"

text \<open>\<open>_apply_replay_action\<close>: the offset is taken first; the result is the action to record again.\<close>

definition replay_qmp :: "string \<Rightarrow> string \<Rightarrow> exn + json \<Rightarrow> unit task" where
  "replay_qmp sid cmd arguments =
     then_do (sum_task arguments) (\<lambda>a. seq (session_qmp sid cmd (Some a)) (return ()))"

fun apply_action :: "env \<Rightarrow> string \<Rightarrow> session \<Rightarrow> action \<Rightarrow> json task" where
  "apply_action en sid s (SerialAction payload) =
     seq (serial_input sid payload) (return (serial_metadata payload))"
| "apply_action en sid s PowerOffAction = seq (power_off_worker sid) (return no_data)"
| "apply_action en sid s PowerOnAction = seq (power_on_worker en sid) (return no_data)"
| "apply_action en sid s (KeyAction key pressed) =
     seq (replay_qmp sid ''input-send-event'' (qmp_key_event (session_board s) key pressed))
       (return (key_data key pressed))"
| "apply_action en sid s (ButtonAction button pressed) =
     seq (replay_qmp sid ''qom-set'' (qmp_button_event (session_board s) button pressed))
       (return (button_data button pressed))"
| "apply_action en sid s (ImuAction a v) =
     seq (replay_qmp sid ''qom-set'' (qmp_imu_sample (session_board s) a v))
    (seq (on_session sid (\<lambda>s. s\<lparr>virtual_imu_state := Some (a, v)\<rparr>)) (return (imu_data a v)))"
| "apply_action en sid s (PowerAction b v c) =
     seq (replay_qmp sid ''qom-set'' (qmp_power_state (session_board s) b v c))
    (seq (on_session sid (\<lambda>s. s\<lparr>virtual_power_state := Some (b, v, c)\<rparr>)) (return (power_data b v c)))"
| "apply_action en sid s ResetAction =
     seq (session_qmp sid ''system_reset'' None) (return no_data)"

definition apply_replay_action :: "env \<Rightarrow> string \<Rightarrow> action \<Rightarrow> (replay_action \<times> json) task" where
  "apply_replay_action en sid a = look (\<lambda>w. with_session sid (\<lambda>s.
     then_do (apply_action en sid s a) (\<lambda>data.
       return (\<lparr>ra_offset_ms = now_offset_ms w s, ra_action = a\<rparr>, data))))"

fun control_event_type :: "action \<Rightarrow> string option" where
  "control_event_type ResetAction = Some ''session.reset''"
| "control_event_type PowerOffAction = Some ''session.powered_off''"
| "control_event_type PowerOnAction = Some ''session.powered_on''"
| "control_event_type _ = None"

text \<open>
  The sleep before an action, needed when its target time, the recorded offset over the speed, is
  still ahead.
\<close>

definition replay_target_ahead :: "replay_action \<Rightarrow> pyfloat \<Rightarrow> int \<Rightarrow> bool" where
  "replay_target_ahead a speed elapsed_ns =
     (case fdiv (true_div (ra_offset_ms a) 1000) speed of
        Fin m e \<Rightarrow> (if 0 \<le> e then elapsed_ns < m * 2 ^ nat e * 1000000000
                    else elapsed_ns * 2 ^ nat (- e) < m * 1000000000)
      | Inf negative \<Rightarrow> \<not> negative
      | NaN \<Rightarrow> False)"

fun replay_loop :: "env \<Rightarrow> string \<Rightarrow> pyfloat \<Rightarrow> int \<Rightarrow> replay_action list \<Rightarrow> unit task" where
  "replay_loop en sid speed started [] = return ()"
| "replay_loop en sid speed started (a # actions) =
     seq (look (\<lambda>w. if replay_target_ahead a speed (clock_ns w - started) then pause_point else return ()))
    (then_do (apply_replay_action en sid (ra_action a)) (\<lambda>(replayed, public_data).
     seq (append_act en sid replayed)
    (seq (case control_event_type (ra_action a) of
          Some ty \<Rightarrow> record_ev en sid Control ty FromReplay public_data
        | None \<Rightarrow> record_ev en sid Input (''input.'' @ action_type (ra_action a)) FromReplay public_data)
      (replay_loop en sid speed started actions))))"

definition replay_data :: "replay_action list \<Rightarrow> pyfloat \<Rightarrow> json" where
  "replay_data actions speed = jobj [(''action_count'', JInt (int (length actions))), (''speed'', JFloat speed)]"

definition replay_body :: "env \<Rightarrow> string \<Rightarrow> replay_action list \<Rightarrow> pyfloat \<Rightarrow> unit task" where
  "replay_body en sid actions speed =
     seq (replay_prepare en sid)
    (seq (launch en sid)
    (seq (record_ev en sid Replay ''replay.started'' Service (replay_data actions speed))
    (seq (look (\<lambda>w. replay_loop en sid speed (clock_ns w) actions))
    (seq (on_session sid (\<lambda>s. s\<lparr>replay_status := ''completed''\<rparr>))
      (record_ev en sid Replay ''replay.completed'' Service (replay_data actions speed))))))"

definition replay_failed :: "env \<Rightarrow> string \<Rightarrow> unit task" where
  "replay_failed en sid =
     seq (on_session sid (\<lambda>s. s\<lparr>replay_status := ''failed'',
        replay_error := Some ''The worker could not complete the replay''\<rparr>))
    (seq (with_session sid (\<lambda>s.
        if state s = STARTING
        then seq (on_session sid (\<lambda>s. s\<lparr>state := FAILED\<rparr>))
          (seq (remove_session_files sid) (clear_private sid))
        else return ()))
      (record_ev en sid Replay ''replay.failed'' Service no_data))"

definition run_replay :: "env \<Rightarrow> string \<Rightarrow> replay_action list \<Rightarrow> pyfloat \<Rightarrow> unit task" where
  "run_replay en sid actions speed =
     seq (on_session sid (\<lambda>s. s\<lparr>accept_live_input := False, replay_status := ''running''\<rparr>))
    (always
      (on_error (replay_body en sid actions speed)
        (\<lambda>e. if e = CancelledError
           then seq (on_session sid (\<lambda>s. s\<lparr>replay_status := ''cancelled'', replay_error := None\<rparr>))
             (seq (record_ev en sid Replay ''replay.cancelled'' Service no_data) (raising e))
           else replay_failed en sid))
      (session_do sid (\<lambda>w s. (s\<lparr>accept_live_input := True,
          replay_task := (if replay_task s = Some (me w) then None else replay_task s)\<rparr>, Inr ()))))"

end
