(* ===== verification/Session_System.thy ===== *)
theory Session_System
  imports Session_Replay
begin

section \<open>The running service: tasks, requests and the event loop\<close>

text \<open>
  Every coroutine the service runs is a task of a pool: the API's requests, and the tasks the
  manager creates itself.  One event of the loop lets a request arrive, starts a created task,
  resumes a suspended one with an input, lets a worker process exit or a request be cancelled.
  All interleavings of the program's tasks are lists of such events.
\<close>

datatype request =
    StartService nat
  | CloseService
  | CreateSession board_profile bytes
  | RefreshSession string
  | StopSession string
  | PauseSession string
  | ResumeSession string
  | ResetSession string
  | PowerOffSession string
  | PowerOnSession string
  | WriteSerial string bytes
  | SendKey string string bool
  | SendButton string string bool
  | SetImu string vec3 vec3
  | SetPower string int int bool
  | StartReplay string pyfloat
  | ReadRegisters string
  | ReadMemory string int int
  | SetBreakpoint string int bool
  | DebugStep string
  | CaptureFramebuffer string
  | StreamFramebuffer string nat
  | SerialSocket string nat "bytes list"

definition ignoring :: "'a task \<Rightarrow> unit task" where
  "ignoring p = then_do p (\<lambda>_. return ())"

fun request_body :: "env \<Rightarrow> request \<Rightarrow> unit task" where
  "request_body en (StartService rounds) = start en rounds"
| "request_body en CloseService = close en"
| "request_body en (CreateSession board upload) = create en board upload"
| "request_body en (RefreshSession sid) = refresh_state en sid"
| "request_body en (StopSession sid) = stop en sid False"
| "request_body en (PauseSession sid) = pause en sid"
| "request_body en (ResumeSession sid) = resume_session en sid"
| "request_body en (ResetSession sid) = reset en sid"
| "request_body en (PowerOffSession sid) = power_off en sid"
| "request_body en (PowerOnSession sid) = power_on en sid"
| "request_body en (WriteSerial sid payload) = write_serial en sid payload"
| "request_body en (SendKey sid key pressed) = send_key en sid key pressed"
| "request_body en (SendButton sid button pressed) = send_button en sid button pressed"
| "request_body en (SetImu sid a v) = set_imu_sample en sid a v"
| "request_body en (SetPower sid b v c) = set_power_state en sid b v c"
| "request_body en (StartReplay sid speed) = start_replay en sid speed"
| "request_body en (ReadRegisters sid) = ignoring (debug_registers en sid)"
| "request_body en (ReadMemory sid address n) = ignoring (debug_read_memory en sid address n)"
| "request_body en (SetBreakpoint sid address on) = debug_set_breakpoint en sid address on"
| "request_body en (DebugStep sid) = ignoring (debug_step en sid)"
| "request_body en (CaptureFramebuffer sid) = ignoring (capture_framebuffer en sid)"
| "request_body en (StreamFramebuffer sid n) = ignoring (subscribe_framebuffer en sid n)"
| "request_body en (SerialSocket sid n payloads) = ignoring (session_serial en sid n payloads)"

fun task_body :: "env \<Rightarrow> task_code \<Rightarrow> unit task" where
  "task_body en (ReadSerial sid pid) = read_serial en sid pid"
| "task_body en (ReadTrace sid pid) = read_worker_trace en sid pid"
| "task_body en (ContinueDebug sid) = continue_under_debugger en sid"
| "task_body en (RunReplay sid actions speed) = run_replay en sid actions speed"
| "task_body en (CleanupLoop n) = cleanup_loop en n"
| "task_body en (SendSerial sid n) = subscribe_serial sid n"
| "task_body en (ReceiveSerial sid payloads) = receive_serial en sid payloads"

record system =
  world_of :: world
  pool :: "(nat \<times> unit task) list"

datatype loop_event =
    Arrive request input
  | Begin nat input
  | Resume nat input
  | ProcessExit nat int
  | CancelRequest nat

definition begin_turn :: "input \<Rightarrow> nat \<Rightarrow> world \<Rightarrow> world" where
  "begin_turn i t w = w\<lparr>me := t, clock_ns := max (clock_ns w) (i_clock i), utc_now := i_utc i,
     fresh_uuid := i_uuid i, stuck := i_stuck i\<rparr>"

fun outcome_of :: "exn + unit \<Rightarrow> exn option" where
  "outcome_of (Inl e) = Some e"
| "outcome_of (Inr u) = None"

definition end_task :: "nat \<Rightarrow> exn option \<Rightarrow> world \<Rightarrow> world" where
  "end_task t r w = w\<lparr>finished := (t, r) # finished w, cancels := removeAll t (cancels w)\<rparr>"

text \<open>The pool after a task's turn: the task is back in it, or done.\<close>

fun conclude :: "nat \<Rightarrow> world \<times> unit task \<Rightarrow> (nat \<times> unit task) list \<Rightarrow> system" where
  "conclude t (w, Ret r) others = \<lparr>world_of = end_task t (outcome_of r) w, pool = others\<rparr>"
| "conclude t (w, p) others = \<lparr>world_of = w, pool = (t, p) # others\<rparr>"

definition without :: "nat \<Rightarrow> (nat \<times> 'a) list \<Rightarrow> (nat \<times> 'a) list" where
  "without t xs = filter (\<lambda>(k, p). k \<noteq> t) xs"

fun apply_event :: "env \<Rightarrow> loop_event \<Rightarrow> system \<Rightarrow> system" where
  "apply_event en (Arrive rq i) sys =
     (let w = world_of sys; t = next_ref w in
      conclude t (settle (request_body en rq) ((begin_turn i t w)\<lparr>next_ref := Suc t\<rparr>)) (pool sys))"
| "apply_event en (Begin t i) sys =
     (let w = world_of sys in
      case map_of (spawned w) t of None \<Rightarrow> sys
      | Some code \<Rightarrow>
          let w1 = (begin_turn i t w)\<lparr>spawned := without t (spawned w)\<rparr> in
          if t \<in> set (cancels w) then \<lparr>world_of = end_task t (Some CancelledError) w1, pool = pool sys\<rparr>
          else conclude t (settle (task_body en code) w1) (pool sys))"
| "apply_event en (Resume t i) sys =
     (case map_of (pool sys) t of None \<Rightarrow> sys
      | Some p \<Rightarrow>
          let w1 = begin_turn i t (world_of sys) in
          if runnable p w1 then conclude t (resume p i w1) (without t (pool sys)) else sys)"
| "apply_event en (ProcessExit pid code) sys =
     sys\<lparr>world_of := update_worker pid (\<lambda>k. if returncode k = None then k\<lparr>returncode := Some code\<rparr> else k) (world_of sys)\<rparr>"
| "apply_event en (CancelRequest t) sys =
     sys\<lparr>world_of := (if t \<in> fst ` set (pool sys) then (world_of sys)\<lparr>cancels := t # cancels (world_of sys)\<rparr> else world_of sys)\<rparr>"

definition run_events :: "env \<Rightarrow> loop_event list \<Rightarrow> system \<Rightarrow> system" where
  "run_events en evs sys = fold (apply_event en) evs sys"

text \<open>The service before its start: the file system and the clocks are the host's.\<close>

definition initial_world :: "filesys \<Rightarrow> int \<Rightarrow> int \<Rightarrow> world" where
  "initial_world fs clock utc = \<lparr>sessions = [], files = fs, stuck = (\<lambda>_. False), procs = (\<lambda>_. None), gdbs = (\<lambda>_. None),
     queues = (\<lambda>_. []), next_ref = 0, qmp_log = [], launches = [], spawned = [], finished = [], cancels = [],
     held = [], cleanup_task = None, me = 0, clock_ns = clock, utc_now = utc, fresh_uuid = []\<rparr>"

inductive reachable :: "env \<Rightarrow> system \<Rightarrow> bool" for en :: env where
  reachable_start: "reachable en \<lparr>world_of = initial_world fs clock utc, pool = []\<rparr>"
| reachable_step: "reachable en sys \<Longrightarrow> reachable en (apply_event en ev sys)"

lemma reachable_run: "reachable en sys \<Longrightarrow> reachable en (run_events en evs sys)"
  unfolding run_events_def by (induction evs arbitrary: sys) (auto intro: reachable_step)

subsection \<open>Laws of the world\<close>

text \<open>
  What an invariant must be closed under to hold in every reachable state: the elementary
  changes the operations make to sessions and queues, and the launches.  \<open>recording_of\<close> collects the
  recording fields of a session and those that never change; a quiet update leaves them alone.
\<close>

definition recording_of :: "session \<Rightarrow> _" where
  "recording_of s = (session_id s, session_board s, runtime_directory s, flash_path s, qmp_socket_path s, gdb_socket_path s,
     events s, events_dropped s, next_event_sequence s, generation s,
     replay_actions s, replay_actions_dropped s, serial_buffer s, trace_events_recorded s,
     trace_events_dropped s, trace_event_counts s, trace_truncation_reported s)"

definition quiet :: "(session \<Rightarrow> session) \<Rightarrow> bool" where
  "quiet f = (\<forall>s. recording_of (f s) = recording_of s)"

lemma quietI: "(\<And>s. recording_of (f s) = recording_of s) \<Longrightarrow> quiet f"
  by (simp add: quiet_def)

lemma fst_to_result: "fst (to_result x) = fst x"
  by (simp add: to_result_def split: prod.split option.split)

locale world_law =
  fixes en :: env and I :: "world \<Rightarrow> bool"
  assumes frame: "I w \<Longrightarrow> sessions w' = sessions w \<Longrightarrow> queues w' = queues w \<Longrightarrow> launches w' = launches w \<Longrightarrow> I w'"
    and launching: "I w \<Longrightarrow> find_session w sid = Some s \<Longrightarrow> launch_request en s = Inr request \<Longrightarrow>
      I (w\<lparr>launches := launches w @ [(sid, request)]\<rparr>)"
    and quiet_update: "I w \<Longrightarrow> quiet f \<Longrightarrow> I (update_session sid f w)"
    and setting: "I w \<Longrightarrow> find_session w sid = Some s \<Longrightarrow> recording_of s' = recording_of s \<Longrightarrow>
      I (update_session sid (\<lambda>_. s') w)"
    and recording: "I w \<Longrightarrow> find_session w sid = Some s \<Longrightarrow>
      I (update_session sid (\<lambda>_. fst (record_event (cfg en) now cat ty src data s)) w)"
    and appending: "I w \<Longrightarrow> find_session w sid = Some s \<Longrightarrow> append_replay_action (cfg en) a s = Inr s' \<Longrightarrow>
      I (update_session sid (\<lambda>_. s') w)"
    and tracing: "I w \<Longrightarrow> find_session w sid = Some s \<Longrightarrow>
      I (update_session sid (\<lambda>_. fst (handle_trace (cfg en) now n ty data s)) w)"
    and clearing: "I w \<Longrightarrow> I (update_session sid clear_private_session_data w)"
    and buffering: "I w \<Longrightarrow> I (update_session sid (append_serial_chunk chunk) w)"
    and powering: "I w \<Longrightarrow> I (update_session sid power_on_reset w)"
    and replaying: "I w \<Longrightarrow> find_session w sid = Some s \<Longrightarrow> I (update_session sid (\<lambda>_. replay_reset now s) w)"
    and publishing: "I w \<Longrightarrow> I (publish sid item w)"
    and queueing: "I w \<Longrightarrow> I (w\<lparr>queues := (queues w)(q := []), next_ref := r\<rparr>)"
    and taking: "I w \<Longrightarrow> I (w\<lparr>queues := (queues w)(q := tl (queues w q))\<rparr>)"
    and admitting: "I w \<Longrightarrow> I (fst (admit en board upload w))"
begin

lemma safe_on_session [safe_intro]: "quiet f \<Longrightarrow> safe I (on_session sid f)"
  unfolding on_session_def by (intro safe_change quiet_update)

lemma safe_frame_change:
  "(\<And>w. sessions (f w) = sessions w \<and> queues (f w) = queues w \<and> launches (f w) = launches w) \<Longrightarrow> safe I (change f)"
  by (intro safe_change) (blast intro: frame)

lemma safe_frame_attempt:
  "(\<And>w w'. f w = Inr w' \<Longrightarrow> sessions w' = sessions w \<and> queues w' = queues w \<and> launches w' = launches w) \<Longrightarrow> safe I (attempt f)"
  by (intro safe_attempt) (blast intro: frame)

lemma safe_with_session [safe_intro]: "(\<And>s. safe I (f s)) \<Longrightarrow> safe I (with_session sid f)"
  unfolding with_session_def by (intro safe_intro)

lemma safe_suspend:
  assumes "\<And>i w w' r. f i w = (w', r) \<Longrightarrow> sessions w' = sessions w \<and> queues w' = queues w \<and> launches w' = launches w"
  shows "safe I (suspend b f)"
  unfolding suspend_def
proof (rule safe_Await)
  fix i w
  assume "I w"
  obtain w' r where f: "f i w = (w', r)" by (cases "f i w")
  have "I w'" using frame [OF \<open>I w\<close>] assms [OF f] by blast
  moreover have "I (w\<lparr>cancels := x\<rparr>)" for x by (rule frame [OF \<open>I w\<close>]) simp_all
  ultimately show "I (fst (if cancel_pending w then (w\<lparr>cancels := removeAll (me w) (cancels w)\<rparr>, Ret (Inl CancelledError))
         else (case f i w of (w', r) \<Rightarrow> (w', Ret r))))
       \<and> safe I (snd (if cancel_pending w then (w\<lparr>cancels := removeAll (me w) (cancels w)\<rparr>, Ret (Inl CancelledError))
         else (case f i w of (w', r) \<Rightarrow> (w', Ret r))))"
    using f by (auto intro: safe_Ret)
qed

lemma safe_session_do:
  assumes "\<And>w s. I w \<Longrightarrow> find_session w sid = Some s \<Longrightarrow> I (update_session sid (\<lambda>_. fst (f w s)) w)"
  shows "safe I (session_do sid f)"
  unfolding session_do_def
  by (rule safe_Do) (auto intro: safe_Ret dest: assms split: option.split prod.split)

lemma safe_session_set:
  "(\<And>w s. recording_of (fst (f w s)) = recording_of s) \<Longrightarrow> safe I (session_do sid f)"
  by (intro safe_session_do) (blast intro: setting)

subsection \<open>Every operation obeys the laws\<close>

lemma safe_guard [safe_intro]: "safe I (guard b e)"
  unfolding guard_def by (intro safe_intro)

lemma safe_pause_point [safe_intro]: "safe I pause_point"
  unfolding pause_point_def by (rule safe_suspend) simp

lemma safe_locked [safe_intro]: "safe I p \<Longrightarrow> safe I (locked l p)"
  unfolding locked_def acquire_def release_def
  by (intro safe_intro safe_frame_change safe_suspend) auto

lemma safe_spawn [safe_intro]: "(\<And>t. safe I (k t)) \<Longrightarrow> safe I (spawn c k)"
  unfolding spawn_def by (intro safe_intro safe_frame_change) auto

lemma safe_cancel_task [safe_intro]: "safe I (cancel_task t)"
  unfolding cancel_task_def by (intro safe_frame_change) simp

lemma safe_gather_task [safe_intro]: "safe I (gather_task t)"
  unfolding gather_task_def
  by (intro safe_Await) (auto intro!: safe_Await safe_Ret intro: frame)

lemma safe_qmp_call_within [safe_intro]: "safe I (qmp_call_within timeout sock c a)"
  unfolding qmp_call_within_def
  by (intro safe_intro safe_Await safe_suspend)
    (auto simp: Let_def intro: safe_Ret frame split: prod.split)

lemma safe_qmp_call [safe_intro]: "safe I (qmp_call sock c a)"
  unfolding qmp_call_def by (rule safe_qmp_call_within)

lemma safe_gdb_call [safe_intro]: "safe I (gdb_call timed g m)"
  unfolding gdb_call_def
  by (rule safe_suspend) (auto simp: Let_def split: option.splits prod.splits)

lemma safe_gdb_close [safe_intro]: "safe I (gdb_close g)"
  unfolding gdb_close_def by (rule safe_suspend) auto

lemma safe_record_ev [safe_intro]: "safe I (record_ev en sid cat ty src data)"
  unfolding record_ev_def
  by (rule safe_session_do) (simp add: fst_to_result recording)

lemma safe_append_act [safe_intro]: "safe I (append_act en sid a)"
  unfolding append_act_def
  by (rule safe_session_do) (auto split: sum.split dest: appending setting)

lemma safe_remove_files [safe_intro]: "safe I (remove_session_files sid)"
  unfolding remove_session_files_def by (intro safe_intro safe_frame_change) simp

lemma safe_unlink_path [safe_intro]: "safe I (unlink_path p)"
  unfolding unlink_path_def by (rule safe_frame_attempt) (auto split: sum.splits)

lemma safe_publish_now [safe_intro]: "safe I (publish_now sid item)"
  unfolding publish_now_def by (intro safe_change publishing)

lemma safe_clear_private [safe_intro]: "safe I (clear_private sid)"
  unfolding clear_private_def on_session_def by (intro safe_change clearing)

lemma safe_update_worker [safe_intro]: "safe I (change (update_worker pid f))"
  by (rule safe_frame_change) (simp add: update_worker_def)

lemma safe_wait_process [safe_intro]: "safe I (wait_process pid)"
  unfolding wait_process_def by (rule safe_suspend) simp

lemma safe_stop_process [safe_intro]: "safe I (stop_process pid)"
  unfolding stop_process_def by (intro safe_intro safe_suspend) auto

lemma safe_join_other [safe_intro]: "safe I (join_other t)"
  unfolding join_other_def by (intro safe_intro)

lemmas quiet_simps = quiet_def recording_of_def

lemma safe_close_debugger [safe_intro]: "safe I (close_debugger sid)"
  unfolding close_debugger_def by (intro safe_intro) (auto simp: quiet_simps)

lemma safe_terminate_worker [safe_intro]: "safe I (terminate_worker sid)"
  unfolding terminate_worker_def by (intro safe_intro safe_session_set) (auto simp: quiet_simps)

lemma safe_trace_loop: "safe I (trace_loop en sid fails n lines)"
  by (induction lines arbitrary: n)
    (auto intro!: safe_intro safe_session_do simp: fst_to_result tracing)

lemma safe_read_worker_trace [safe_intro]: "safe I (read_worker_trace en sid pid)"
  unfolding read_worker_trace_def by (intro safe_intro safe_trace_loop)

lemma safe_take_chunk [safe_intro]: "safe I (change (take_chunk sid pid chunk))"
  unfolding take_chunk_def by (intro safe_change) (auto intro: publishing buffering split: option.split)

lemma safe_serial_loop: "safe I at_end \<Longrightarrow> safe I (serial_loop sid pid at_end cs)"
  by (induction sid pid at_end cs rule: serial_loop.induct) (auto intro!: safe_intro)

lemma safe_worker_exited [safe_intro]: "safe I (worker_exited en sid pid)"
  unfolding worker_exited_def by (intro safe_intro) (auto simp: quiet_simps)

lemma safe_read_serial [safe_intro]: "safe I (read_serial en sid pid)"
  unfolding read_serial_def by (intro safe_intro safe_serial_loop)

lemma safe_new_worker [safe_intro]: "safe I new_worker"
  unfolding new_worker_def by (rule safe_suspend) (auto split: sum.splits)

lemma safe_start_process [safe_intro]: "safe I (start_process en sid)"
proof -
  have "safe I (log_launch en sid)" unfolding log_launch_def
    by (rule safe_attempt) (auto split: option.splits dest: launching)
  then show ?thesis unfolding start_process_def by (intro safe_intro)
qed

lemma safe_qmp_running_loop: "safe I (qmp_running_loop n d sock pid)"
  by (induction n d sock pid rule: qmp_running_loop.induct) (auto intro!: safe_intro)

lemma safe_startup_check [safe_intro]: "safe I (startup_check en sid pid)"
  unfolding startup_check_def wait_for_qmp_running_def by (intro safe_intro safe_qmp_running_loop)

lemma safe_launch [safe_intro]: "safe I (launch en sid)"
  unfolding launch_def validate_config_def by (intro safe_intro) (auto simp: quiet_simps)

lemma safe_worker_is_ready [safe_intro]: "safe I (worker_is_ready en)"
  unfolding worker_is_ready_def by (intro safe_intro safe_suspend) simp

lemma safe_start [safe_intro]: "safe I (start en n)"
  unfolding start_def
  by (intro safe_intro safe_frame_change safe_frame_attempt) (auto split: sum.splits)

lemma safe_first_launch [safe_intro]: "safe I (first_launch en sid)"
  unfolding first_launch_def
  by (intro safe_intro safe_session_set) (auto simp: quiet_simps)

lemma safe_admit [safe_intro]: "safe I (Do (\<lambda>w. case admit en board upload w of (w', r) \<Rightarrow> (w', Ret r)))"
  by (rule safe_Do) (auto intro: safe_Ret dest: admitting [of _ board upload] split: prod.split)

lemma safe_create [safe_intro]: "safe I (create en board upload)"
  unfolding create_def create_then_def by (intro safe_intro)

lemma safe_stop [safe_intro]: "safe I (stop en sid expired)"
  unfolding stop_def by (intro safe_intro) (auto simp: quiet_simps)

lemma safe_cleanup_loop [safe_intro]: "safe I (cleanup_loop en n)"
  by (induction n) (auto intro!: safe_intro)

lemma safe_close [safe_intro]: "safe I (close en)"
  unfolding close_def by (intro safe_intro)

lemma safe_sum_task [safe_intro]: "safe I (sum_task r)"
  unfolding sum_task_def by (rule safe_Ret)

lemma safe_record_input [safe_intro]: "safe I (record_input en sid a data)"
  unfolding record_input_def offset_then_def by (intro safe_intro)

lemma safe_serial_input [safe_intro]: "safe I (serial_input sid payload)"
  unfolding serial_input_def stdin_send_def by (intro safe_intro safe_suspend) simp

lemma safe_session_qmp [safe_intro]: "safe I (session_qmp sid c a)"
  unfolding session_qmp_def by (intro safe_intro)

lemmas input_defs = require_board_input_def require_live_input_def require_qmp_def offset_then_def

lemma safe_inputs [safe_intro]:
  "safe I (write_serial en sid payload)" "safe I (send_key en sid key pressed)"
  "safe I (send_button en sid button pressed)" "safe I (set_imu_sample en sid a v)"
  "safe I (set_power_state en sid b i c)"
  unfolding write_serial_def send_key_def send_button_def set_imu_sample_def set_power_state_def input_defs
  by (intro safe_intro; auto simp: quiet_simps)+

lemma safe_refresh_state [safe_intro]: "safe I (refresh_state en sid)"
  unfolding refresh_state_def by (intro safe_intro) (auto simp: quiet_simps)

lemma safe_pause [safe_intro]: "safe I (pause en sid)"
  unfolding pause_def wait_shielded_def drop_debugger_def input_defs
  by (intro safe_intro safe_suspend) (auto simp: quiet_simps)

lemma safe_resume_session [safe_intro]: "safe I (resume_session en sid)"
  unfolding resume_session_def input_defs by (intro safe_intro) (auto simp: quiet_simps)

lemma safe_reset [safe_intro]: "safe I (reset en sid)"
  unfolding reset_def input_defs by (intro safe_intro)

lemma safe_power_off_worker [safe_intro]: "safe I (power_off_worker sid)"
  unfolding power_off_worker_def by (intro safe_intro) (auto simp: quiet_simps)

lemma safe_unlink_runtime_files [safe_intro]: "safe I (unlink_runtime_files sid)"
  unfolding unlink_runtime_files_def by (intro safe_intro)

lemma safe_power_on_reset [safe_intro]: "safe I (change (update_session sid power_on_reset))"
  by (intro safe_change powering)

lemma safe_power_on_worker [safe_intro]: "safe I (power_on_worker en sid)"
  unfolding power_on_worker_def restore_virtual_environment_def by (intro safe_intro) (auto simp: quiet_simps)

lemma safe_power [safe_intro]: "safe I (power_off en sid)" "safe I (power_on en sid)"
  unfolding power_off_def power_on_def input_defs by (intro safe_intro)+

lemma safe_debug_session [safe_intro]: "safe I (require_paused_debug_session en sid)"
  unfolding require_paused_debug_session_def by (intro safe_intro)

lemma safe_debug_client [safe_intro]: "safe I (debug_client sid)"
  unfolding debug_client_def
  by (intro safe_intro safe_suspend) (auto simp: quiet_simps split: sum.splits)

lemma safe_debugging [safe_intro]:
  "safe I (debug_registers en sid)" "safe I (debug_read_memory en sid address n)"
  "safe I (debug_set_breakpoint en sid address on)" "safe I (debug_step en sid)"
  unfolding debug_registers_def debug_read_memory_def debug_set_breakpoint_def debug_step_def
  by (intro safe_intro; auto simp: quiet_simps)+

lemma safe_continue_under_debugger [safe_intro]: "safe I (continue_under_debugger en sid)"
  unfolding continue_under_debugger_def by (intro safe_intro) (auto simp: quiet_simps)

lemma safe_capture_framebuffer [safe_intro]: "safe I (capture_framebuffer en sid)"
proof -
  have k: "safe I (case k of Regular bs \<Rightarrow> sum_task (f bs) | _ \<Rightarrow> raising e)" for k e and f :: "bytes \<Rightarrow> exn + 'a"
    by (cases k) (auto intro: safe_intro)
  show ?thesis
    unfolding capture_framebuffer_def
    by (intro safe_intro safe_frame_change safe_suspend k) (auto simp: write_screen_def split: option.splits)
qed

lemma safe_framebuffer_rounds: "safe I (framebuffer_rounds en sid n previous sequence)"
  by (induction n arbitrary: previous sequence) (auto intro!: safe_intro)

lemma safe_subscribe_framebuffer [safe_intro]: "safe I (subscribe_framebuffer en sid n)"
  unfolding subscribe_framebuffer_def by (intro safe_intro safe_framebuffer_rounds)

lemma safe_serial_backlog: "safe I (serial_backlog sid version cs)"
  by (induction sid version cs rule: serial_backlog.induct) (auto intro!: safe_intro)

lemma safe_serial_consume: "safe I (serial_consume q n)"
proof (induction n)
  case 0
  then show ?case by (simp add: safe_return)
next
  case (Suc n)
  have "safe I (serial_next q)"
    unfolding serial_next_def suspend_def
    by (rule safe_Await) (auto intro: safe_Ret taking frame)
  with Suc show ?case by (auto intro!: safe_intro)
qed

lemma safe_register_queue [safe_intro]: "safe I (register_queue sid)"
  unfolding register_queue_def
  by (intro safe_intro safe_change queueing) (auto simp: quiet_simps)

lemma safe_subscribe_serial [safe_intro]: "safe I (subscribe_serial sid n)"
  unfolding subscribe_serial_def serial_subscribe_def serial_unsubscribe_def
  by (intro safe_intro safe_serial_backlog safe_serial_consume) (auto simp: quiet_simps)

lemma safe_receive_serial [safe_intro]: "safe I (receive_serial en sid payloads)"
  by (induction payloads) (auto intro!: safe_intro)

lemma safe_session_serial [safe_intro]: "safe I (session_serial en sid n payloads)"
  unfolding session_serial_def admit_socket_def first_of_both_def
  by (intro safe_intro safe_suspend) simp_all

lemma safe_start_replay [safe_intro]: "safe I (start_replay en sid speed)"
  unfolding start_replay_def by (intro safe_intro) (auto simp: quiet_simps)

lemma safe_apply_action: "safe I (apply_action en sid s a)"
  unfolding replay_qmp_def
  by (cases a) (auto intro!: safe_intro simp: quiet_simps replay_qmp_def)

lemma safe_replay_loop: "safe I (replay_loop en sid speed started actions)"
  by (induction actions)
    (auto intro!: safe_intro safe_apply_action simp: apply_replay_action_def split: prod.split)

lemma safe_replay_body [safe_intro]: "safe I (replay_body en sid actions speed)"
proof -
  have "safe I (session_do sid (\<lambda>w s. (replay_reset (clock_ns w) s, Inr ())))"
    by (intro safe_session_do) (simp add: replaying)
  then show ?thesis
    unfolding replay_body_def replay_prepare_def
    by (intro safe_intro safe_frame_attempt safe_replay_loop) (auto simp: quiet_simps split: sum.splits)
qed

lemma safe_run_replay [safe_intro]: "safe I (run_replay en sid actions speed)"
  unfolding run_replay_def replay_failed_def
  by (intro safe_intro safe_session_set) (auto simp: quiet_simps)

lemma safe_request: "safe I (request_body en rq)"
  by (cases rq) (auto intro!: safe_intro simp: ignoring_def)

lemma safe_task: "safe I (task_body en code)"
  by (cases code) (auto intro!: safe_intro)

subsection \<open>Every reachable state obeys the law\<close>

lemma conclude_law:
  assumes "I w" "safe I p" "\<forall>(t, q)\<in>set others. safe I q"
  shows "I (world_of (conclude t (w, p) others)) \<and> (\<forall>(t, q)\<in>set (pool (conclude t (w, p) others)). safe I q)"
  using assms by (cases p) (auto simp: end_task_def intro: frame)

lemma event_law:
  assumes "I (world_of sys)" "\<forall>(t, q)\<in>set (pool sys). safe I q"
  shows "I (world_of (apply_event en ev sys)) \<and> (\<forall>(t, q)\<in>set (pool (apply_event en ev sys)). safe I q)"
proof (cases ev)
  case (Arrive rq i)
  let ?w = "(begin_turn i (next_ref (world_of sys)) (world_of sys))\<lparr>next_ref := Suc (next_ref (world_of sys))\<rparr>"
  have "I ?w" by (rule frame [OF assms(1)]) (simp_all add: begin_turn_def)
  from safe_settle [OF safe_request this, of rq] show ?thesis
    using conclude_law [OF _ _ assms(2)] unfolding Arrive apply_event.simps Let_def
    by (metis prod.collapse)
next
  case (Begin t i)
  show ?thesis
  proof (cases "map_of (spawned (world_of sys)) t")
    case None
    with Begin assms show ?thesis by (simp add: Let_def)
  next
    case (Some code)
    let ?w = "(begin_turn i t (world_of sys))\<lparr>spawned := without t (spawned (world_of sys))\<rparr>"
    have w: "I ?w" by (rule frame [OF assms(1)]) (simp_all add: begin_turn_def)
    have e: "I (end_task t r ?w)" for r by (rule frame [OF w]) (simp_all add: end_task_def)
    obtain w' p where r: "settle (task_body en code) ?w = (w', p)" by (cases "settle (task_body en code) ?w")
    from safe_settle [OF safe_task w, of code] have "I w'" "safe I p" by (simp_all add: r)
    from conclude_law [OF this assms(2), of t] e assms(2) Some r show ?thesis
      by (simp add: Begin Let_def)
  qed
next
  case (Resume t i)
  show ?thesis
  proof (cases "map_of (pool sys) t")
    case None
    with Resume assms show ?thesis by simp
  next
    case (Some p)
    then have p: "safe I p" using assms(2) map_of_SomeD by fastforce
    have w: "I (begin_turn i t (world_of sys))"
      by (rule frame [OF assms(1)]) (simp_all add: begin_turn_def)
    have o: "\<forall>(t, q)\<in>set (without t (pool sys)). safe I q" using assms(2) by (auto simp: without_def)
    obtain w' q where r: "resume p i (begin_turn i t (world_of sys)) = (w', q)"
      by (cases "resume p i (begin_turn i t (world_of sys))")
    from safe_resume [OF p w, of i] have "I w'" "safe I q" by (simp_all add: r)
    from conclude_law [OF this o, of t] Some r assms show ?thesis
      by (simp add: Resume Let_def)
  qed
next
  case (ProcessExit pid code)
  with assms show ?thesis by (auto simp: update_worker_def intro: frame)
next
  case (CancelRequest t)
  with assms show ?thesis by (auto intro: frame)
qed

lemma reachable_law:
  assumes "reachable en sys" "\<And>fs clock utc. I (initial_world fs clock utc)"
  shows "I (world_of sys)"
proof -
  have "I (world_of sys) \<and> (\<forall>(t, q)\<in>set (pool sys). safe I q)"
    using assms(1)
  proof induction
    case (reachable_start fs clock utc)
    show ?case by (simp add: assms(2))
  next
    case (reachable_step sys ev)
    then show ?case using event_law by blast
  qed
  then show ?thesis ..
qed

end

end
