(* ===== verification/Session_Invariants.thy ===== *)
theory Session_Invariants
  imports Session_System
begin

section \<open>What holds of every session under every interleaving\<close>

text \<open>
  The laws of \<open>Session_System\<close> for predicates on sessions: \<open>recording_law\<close> asks that a predicate on the
  recording fields survives each operation on them, and yields a law of the world.  It is
  interpreted for the event log and replay recording, for the trace counters and for the serial
  buffer; the bound of the subscriber queues is a law of the world of its own.
\<close>

definition all_sessions :: "(session \<Rightarrow> bool) \<Rightarrow> world \<Rightarrow> bool" where
  "all_sessions P w = list_all (\<lambda>(k, s). P s) (sessions w)"

lemma all_sessions_find: "all_sessions P w \<Longrightarrow> find_session w sid = Some s \<Longrightarrow> P s"
  by (auto simp: all_sessions_def find_session_def list_all_iff dest: map_of_SomeD)

lemma all_sessions_update:
  "all_sessions P w \<Longrightarrow> (\<And>s. P s \<Longrightarrow> P (f s)) \<Longrightarrow> all_sessions P (update_session sid f w)"
  by (fastforce simp: all_sessions_def update_session_def list_all_iff)

lemma all_sessions_put: "list_all (\<lambda>(k, s). P s) xs \<Longrightarrow> P s \<Longrightarrow> list_all (\<lambda>(k, s). P s) (put sid s xs)"
  by (induction xs) auto

locale recording_law =
  fixes en :: env and P :: "session \<Rightarrow> bool"
  assumes respects: "P s \<Longrightarrow> recording_of t = recording_of s \<Longrightarrow> P t"
    and fresh: "P (new_session en w board flash metadata)"
    and event: "P s \<Longrightarrow> P (fst (record_event (cfg en) now cat ty src data s))"
    and append_law: "P s \<Longrightarrow> append_replay_action (cfg en) a s = Inr s' \<Longrightarrow> P s'"
    and trace_law: "P s \<Longrightarrow> P (fst (handle_trace (cfg en) now n ty data s))"
    and cleared: "P s \<Longrightarrow> P (clear_private_session_data s)"
    and chunk_law: "P s \<Longrightarrow> P (append_serial_chunk chunk s)"
    and powered: "P s \<Longrightarrow> P (power_on_reset s)"
    and replayed: "P s \<Longrightarrow> P (replay_reset now s)"

sublocale recording_law \<subseteq> world_law en "all_sessions P"
proof
  show "all_sessions P w \<Longrightarrow> sessions w' = sessions w \<Longrightarrow> queues w' = queues w \<Longrightarrow> launches w' = launches w \<Longrightarrow>
      all_sessions P w'" for w w'
    by (simp add: all_sessions_def)
  show "all_sessions P w \<Longrightarrow> find_session w sid = Some s \<Longrightarrow> launch_request en s = Inr r \<Longrightarrow>
      all_sessions P (w\<lparr>launches := launches w @ [(sid, r)]\<rparr>)" for w sid s r
    by (simp add: all_sessions_def)
  show "all_sessions P w \<Longrightarrow> quiet f \<Longrightarrow> all_sessions P (update_session sid f w)" for w f sid
    by (auto simp: quiet_def intro!: all_sessions_update elim: respects)
  show "all_sessions P w \<Longrightarrow> find_session w sid = Some s \<Longrightarrow> recording_of s' = recording_of s \<Longrightarrow>
      all_sessions P (update_session sid (\<lambda>_. s') w)" for w sid s s'
    by (auto intro!: all_sessions_update elim: respects dest: all_sessions_find)
  show "all_sessions P w \<Longrightarrow> find_session w sid = Some s \<Longrightarrow>
      all_sessions P (update_session sid (\<lambda>_. fst (record_event (cfg en) now cat ty src data s)) w)"
    for w sid s now cat ty src data
    by (auto intro!: all_sessions_update event dest: all_sessions_find)
  show "all_sessions P w \<Longrightarrow> find_session w sid = Some s \<Longrightarrow> append_replay_action (cfg en) a s = Inr s' \<Longrightarrow>
      all_sessions P (update_session sid (\<lambda>_. s') w)" for w sid s a s'
    by (auto intro!: all_sessions_update intro: append_law dest: all_sessions_find)
  show "all_sessions P w \<Longrightarrow> find_session w sid = Some s \<Longrightarrow>
      all_sessions P (update_session sid (\<lambda>_. fst (handle_trace (cfg en) now n ty data s)) w)"
    for w sid s now n ty data
    by (auto intro!: all_sessions_update trace_law dest: all_sessions_find)
  show "all_sessions P w \<Longrightarrow> all_sessions P (update_session sid clear_private_session_data w)" for w sid
    by (auto intro!: all_sessions_update cleared)
  show "all_sessions P w \<Longrightarrow> all_sessions P (update_session sid (append_serial_chunk chunk) w)" for w sid chunk
    by (auto intro!: all_sessions_update chunk_law)
  show "all_sessions P w \<Longrightarrow> all_sessions P (update_session sid power_on_reset w)" for w sid
    by (auto intro!: all_sessions_update powered)
  show "all_sessions P w \<Longrightarrow> find_session w sid = Some s \<Longrightarrow>
      all_sessions P (update_session sid (\<lambda>_. replay_reset now s) w)" for w sid s now
    by (auto intro!: all_sessions_update replayed dest: all_sessions_find)
  show "all_sessions P w \<Longrightarrow> all_sessions P (publish sid item w)" for w sid item
  proof -
    assume a: "all_sessions P w"
    have "all_sessions P (update_session sid (\<lambda>s. s\<lparr>subscribers := g s\<rparr>) w)" for g
      using a by (intro all_sessions_update) (auto elim!: respects simp: recording_of_def)
    with a show ?thesis by (auto simp: publish_def all_sessions_def split: option.split)
  qed
  show "all_sessions P w \<Longrightarrow> all_sessions P (w\<lparr>queues := (queues w)(q := []), next_ref := r\<rparr>)" for w q r
    by (simp add: all_sessions_def)
  show "all_sessions P w \<Longrightarrow> all_sessions P (w\<lparr>queues := (queues w)(q := tl (queues w q))\<rparr>)" for w q
    by (simp add: all_sessions_def)
  show "all_sessions P w \<Longrightarrow> all_sessions P (fst (admit en board upload w))" for w board upload
    by (auto simp: admit_def Let_def all_sessions_def intro!: all_sessions_put fresh split: sum.split prod.split)
qed

subsection \<open>The event log and the replay recording\<close>

text \<open>
  Where the recordings have room for an entry: the log is bounded and holds exactly the events
  numbered after the dropped ones up to the last recorded, their generations never decrease and
  never exceed the session's, and the replay recording is bounded.
\<close>

definition log_ok :: "settings \<Rightarrow> session \<Rightarrow> bool" where
  "log_ok st s \<longleftrightarrow>
     (1 \<le> max_recording_events st \<longrightarrow>
        int (length (events s)) \<le> max_recording_events st
        \<and> map ev_sequence (events s) = [Suc (events_dropped s)..<next_event_sequence s]
        \<and> events_dropped s < next_event_sequence s
        \<and> sorted (map ev_generation (events s))
        \<and> (\<forall>e\<in>set (events s). ev_generation e \<le> generation s \<and> 0 \<le> ev_offset_ms e)
        \<and> int (length (replay_actions s)) \<le> max_recording_events st)"

lemma log_ok_recording: "log_ok st s \<Longrightarrow> recording_of t = recording_of s \<Longrightarrow> log_ok st t"
  by (simp add: log_ok_def recording_of_def)

lemma positive_limit: "1 \<le> max_recording_events st \<Longrightarrow> \<exists>n. max_recording_events st = int (Suc n)"
  by (rule exI [of _ "nat (max_recording_events st) - 1"]) simp

lemma record_event_positive:
  assumes "max_recording_events st = int (Suc n)"
  shows "record_event st now cat ty src data s =
    (add_event (Suc n) (new_event now cat ty src data s) (s\<lparr>next_event_sequence := Suc (next_event_sequence s)\<rparr>), None)"
  by (simp add: record_event_def assms bounded_push_Suc add_event_def del: of_nat_Suc)

lemma log_ok_event:
  assumes "log_ok st s"
  shows "log_ok st (fst (record_event st now cat ty src data s))"
proof (cases "1 \<le> max_recording_events st")
  case False
  then show ?thesis by (simp add: log_ok_def)
next
  case True
  then obtain n where n: "max_recording_events st = int (Suc n)" using positive_limit by blast
  let ?e = "new_event now cat ty src data s" and ?full = "Suc n \<le> length (events s)"
  have ok: "length (events s) \<le> Suc n" "map ev_sequence (events s) = [Suc (events_dropped s)..<next_event_sequence s]"
      "events_dropped s < next_event_sequence s" "sorted (map ev_generation (events s))"
      "\<forall>e\<in>set (events s). ev_generation e \<le> generation s \<and> 0 \<le> ev_offset_ms e"
      "length (replay_actions s) \<le> Suc n"
    using assms True n by (auto simp: log_ok_def)
  have f: "events (fst (record_event st now cat ty src data s)) = (if ?full then tl (events s) else events s) @ [?e]"
    "events_dropped (fst (record_event st now cat ty src data s)) = (if ?full then Suc (events_dropped s) else events_dropped s)"
    "next_event_sequence (fst (record_event st now cat ty src data s)) = Suc (next_event_sequence s)"
    "generation (fst (record_event st now cat ty src data s)) = generation s"
    "replay_actions (fst (record_event st now cat ty src data s)) = replay_actions s"
    by (simp_all add: record_event_positive [OF n] add_event_def bounded_push_Suc del: of_nat_Suc)
  have len: "length (events s) = next_event_sequence s - Suc (events_dropped s)"
    using arg_cong [OF ok(2), of length] by simp
  have seqs: "map ev_sequence ((if ?full then tl (events s) else events s) @ [?e])
      = [Suc (if ?full then Suc (events_dropped s) else events_dropped s)..<Suc (next_event_sequence s)]"
  proof (cases ?full)
    case t: True
    then have "Suc (events_dropped s) < next_event_sequence s" using len by simp
    then show ?thesis using t ok(2) by (simp add: map_tl new_event_def upt_rec [of "Suc (events_dropped s)"])
  next
    case False
    then show ?thesis using ok(2,3) by (simp add: new_event_def)
  qed
  have gens: "sorted (map ev_generation ((if ?full then tl (events s) else events s) @ [?e]))"
    using ok(4,5) by (cases "events s") (auto simp: sorted_append new_event_def)
  have all: "\<forall>e\<in>set ((if ?full then tl (events s) else events s) @ [?e]). ev_generation e \<le> generation s \<and> 0 \<le> ev_offset_ms e"
    using ok(5) by (cases "events s") (auto simp: new_event_def)
  have bound: "length ((if ?full then tl (events s) else events s) @ [?e]) \<le> Suc n"
    using ok(1) by (cases "events s") auto
  show ?thesis
    unfolding log_ok_def f n
    using seqs gens all bound ok(3,6) len by (simp del: of_nat_Suc map_append) 
qed

lemma log_ok_action:
  assumes "log_ok st s" "append_replay_action st a s = Inr s'"
  shows "log_ok st s'"
proof (cases "1 \<le> max_recording_events st")
  case False
  then show ?thesis by (simp add: log_ok_def)
next
  case True
  then obtain n where n: "max_recording_events st = int (Suc n)" using positive_limit by blast
  have "length (replay_actions s) \<le> Suc n" using assms(1) n by (auto simp: log_ok_def)
  then show ?thesis
    using assms n
    by (cases "replay_actions s")
      (auto simp: append_replay_action_def log_ok_def bounded_push_def split: if_splits)
qed

lemma log_ok_reset: "log_ok st s \<Longrightarrow> log_ok st (replay_reset now s)"
  by (auto simp: log_ok_def replay_reset_def clear_serial_buffer_def)

lemma log_ok_trace: "log_ok st s \<Longrightarrow> log_ok st (fst (handle_trace st now n ty data s))"
proof -
  assume a: "log_ok st s"
  have r: "log_ok st (fst (record_event st now c t sr d x))"
      if "recording_of x = recording_of s \<or> log_ok st x" for c t sr d x
    using that a by (intro log_ok_event) (auto intro: log_ok_recording)
  have b: "log_ok st (s\<lparr>trace_event_counts := y\<rparr>)" "log_ok st (s\<lparr>trace_event_counts := y, trace_events_recorded := z\<rparr>)"
    for y z using a by (simp_all add: log_ok_def)
  have up: "log_ok st x \<Longrightarrow> log_ok st (x\<lparr>trace_events_dropped := y\<rparr>)"
    "log_ok st x \<Longrightarrow> log_ok st (x\<lparr>trace_truncation_reported := u, trace_events_dropped := y\<rparr>)" for x y u
    by (simp_all add: log_ok_def)
  have r1: "log_ok st (fst (record_event st now c t sr d (s\<lparr>trace_event_counts := y\<rparr>)))" for c t sr d y
    using r b by blast
  have r2: "log_ok st (fst (record_event st now c t sr d (s\<lparr>trace_event_counts := y, trace_events_recorded := z\<rparr>)))"
    for c t sr d y z using r b by blast
  have r3: "record_event st now c t sr d (s\<lparr>trace_event_counts := y\<rparr>) = (s2, x) \<Longrightarrow> log_ok st s2" for c t sr d y s2 x
    using r1 [of c t sr d y] by simp
  show ?thesis
    unfolding handle_trace_def Let_def
    by (auto simp: b up r2 split: trace_verdict.split prod.split option.split intro!: up dest!: r3)
qed

interpretation log_law: recording_law en "log_ok (cfg en)" for en
proof
  show "log_ok (cfg en) (new_session en w board flash metadata)" for w board flash metadata
    by (simp add: log_ok_def new_session_def Let_def)
  show "log_ok (cfg en) s \<Longrightarrow> log_ok (cfg en) (clear_private_session_data s)" for s
    by (auto simp: log_ok_def clear_private_session_data_def)
  show "log_ok (cfg en) s \<Longrightarrow> log_ok (cfg en) (append_serial_chunk chunk s)" for s chunk
    by (auto simp: log_ok_def append_serial_chunk_def)
  show "log_ok (cfg en) s \<Longrightarrow> log_ok (cfg en) (power_on_reset s)" for s
    by (auto simp: log_ok_def power_on_reset_def clear_serial_buffer_def)
qed (fact log_ok_recording log_ok_event log_ok_action log_ok_trace log_ok_reset)+

subsection \<open>Trace counters and the serial buffer\<close>

text \<open>
  Every counted trace line of the generation was either recorded or dropped, no more than the
  generation's limit were recorded, and the serial buffer keeps at most its number of chunks.
\<close>

definition counters_ok :: "settings \<Rightarrow> session \<Rightarrow> bool" where
  "counters_ok st s \<longleftrightarrow>
     (1 \<le> max_recording_events st \<longrightarrow>
        distinct (map fst (trace_event_counts s))
        \<and> sum_list (map snd (trace_event_counts s)) = trace_events_recorded s + trace_events_dropped s)
     \<and> int (trace_events_recorded s) \<le> max 0 (max_trace_events_per_generation st)
     \<and> length (serial_buffer s) \<le> SERIAL_BUFFER_CHUNKS"

lemma map_fst_put: "map fst (put k v xs) = (if k \<in> set (map fst xs) then map fst xs else map fst xs @ [k])"
  by (induction xs) auto

lemma sum_put:
  "distinct (map fst xs) \<Longrightarrow> sum_list (map snd (put k (Suc (count_of xs k)) xs)) = Suc (sum_list (map snd xs))"
proof (induction xs)
  case Nil
  then show ?case by (simp add: count_of_def)
next
  case (Cons x xs)
  then show ?case by (cases "fst x = k") (auto simp: count_of_def)
qed

lemma record_event_keeps:
  "trace_event_counts (fst (record_event st now c t sr d s)) = trace_event_counts s"
  "trace_events_recorded (fst (record_event st now c t sr d s)) = trace_events_recorded s"
  "trace_events_dropped (fst (record_event st now c t sr d s)) = trace_events_dropped s"
  "serial_buffer (fst (record_event st now c t sr d s)) = serial_buffer s"
  by (simp_all add: record_event_def Let_def split: sum.split prod.split)

lemma record_event_returns: "1 \<le> max_recording_events st \<Longrightarrow> snd (record_event st now c t sr d s) = None"
  using positive_limit [of st] record_event_positive [of st] by fastforce

lemma counters_ok_trace:
  assumes "counters_ok st s"
  shows "counters_ok st (fst (handle_trace st now n ty data s))"
proof -
  let ?s1 = "s\<lparr>trace_event_counts := put n (Suc (count_of (trace_event_counts s) n)) (trace_event_counts s)\<rparr>"
  let ?x = "fst (handle_trace st now n ty data s)"
  have k: "record_event st now c t sr d y = (z, None) \<Longrightarrow> trace_event_counts z = trace_event_counts y
      \<and> trace_events_recorded z = trace_events_recorded y \<and> trace_events_dropped z = trace_events_dropped y
      \<and> serial_buffer z = serial_buffer y" for c t sr d y z
    using record_event_keeps [of st now c t sr d y] by simp
  have e: "record_event st now c t sr d y = (z, Some e) \<Longrightarrow> \<not> 1 \<le> max_recording_events st
      \<and> trace_events_recorded z = trace_events_recorded y \<and> serial_buffer z = serial_buffer y" for c t sr d y z e
    using record_event_returns [of st now c t sr d y] record_event_keeps [of st now c t sr d y] by auto
  have counts: "1 \<le> max_recording_events st \<longrightarrow> distinct (map fst (trace_event_counts ?s1))
      \<and> sum_list (map snd (trace_event_counts ?s1)) = Suc (trace_events_recorded s + trace_events_dropped s)"
    using assms sum_put [of "trace_event_counts s" n] by (auto simp: counters_ok_def map_fst_put)
  have "serial_buffer ?x = serial_buffer s"
    by (auto simp: handle_trace_def Let_def record_event_keeps split: trace_verdict.split prod.split option.split
        dest: k e)
  moreover have "int (trace_events_recorded ?x) \<le> max 0 (max_trace_events_per_generation st)"
    using assms
    by (auto simp: handle_trace_def judge_trace_def counters_ok_def Let_def record_event_keeps
        split: trace_verdict.splits prod.splits option.splits if_splits dest: k e)
  moreover have "1 \<le> max_recording_events st \<longrightarrow> trace_event_counts ?x = trace_event_counts ?s1
      \<and> trace_events_recorded ?x + trace_events_dropped ?x = Suc (trace_events_recorded s + trace_events_dropped s)"
    by (auto simp: handle_trace_def Let_def record_event_keeps split: trace_verdict.split prod.split option.split
        dest: k e)
  ultimately show ?thesis using assms counts by (auto simp: counters_ok_def)
qed

interpretation counters_law: recording_law en "counters_ok (cfg en)" for en
proof
  show "counters_ok (cfg en) s \<Longrightarrow> recording_of t = recording_of s \<Longrightarrow> counters_ok (cfg en) t" for s t
    by (simp add: counters_ok_def recording_of_def)
  show "counters_ok (cfg en) (new_session en w board flash metadata)" for w board flash metadata
    by (simp add: counters_ok_def new_session_def Let_def)
  show "counters_ok (cfg en) s \<Longrightarrow> counters_ok (cfg en) (fst (record_event (cfg en) now cat ty src data s))"
    for s now cat ty src data
    by (simp add: counters_ok_def record_event_keeps)
  show "counters_ok (cfg en) s \<Longrightarrow> append_replay_action (cfg en) a s = Inr s' \<Longrightarrow> counters_ok (cfg en) s'" for s a s'
    by (auto simp: counters_ok_def append_replay_action_def split: sum.splits)
  show "counters_ok (cfg en) s \<Longrightarrow> counters_ok (cfg en) (clear_private_session_data s)" for s
    by (auto simp: counters_ok_def clear_private_session_data_def)
  show "counters_ok (cfg en) s \<Longrightarrow> counters_ok (cfg en) (append_serial_chunk chunk s)" for s chunk
    by (auto simp: counters_ok_def append_serial_chunk_def)
  show "counters_ok (cfg en) s \<Longrightarrow> counters_ok (cfg en) (power_on_reset s)" for s
    by (auto simp: counters_ok_def power_on_reset_def clear_serial_buffer_def)
  show "counters_ok (cfg en) s \<Longrightarrow> counters_ok (cfg en) (replay_reset now s)" for s now
    by (auto simp: counters_ok_def replay_reset_def clear_serial_buffer_def)
qed (fact counters_ok_trace)+

subsection \<open>Subscriber queues\<close>

definition queues_ok :: "world \<Rightarrow> bool" where
  "queues_ok w \<longleftrightarrow> (\<forall>q. length (queues w q) \<le> SUBSCRIBER_QUEUE_SIZE)"

interpretation queue_law: world_law en queues_ok for en
proof
  show "queues_ok w \<Longrightarrow> queues_ok (publish sid item w)" for w sid item
    by (auto simp: queues_ok_def publish_def Let_def split: option.split)
  show "queues_ok w \<Longrightarrow> queues_ok (w\<lparr>queues := (queues w)(q := tl (queues w q))\<rparr>)" for w q
    by (auto simp: queues_ok_def intro: le_trans [OF diff_le_self])
  show "queues_ok w \<Longrightarrow> queues_ok (fst (admit en board upload w))" for w board upload
    by (auto simp: admit_def queues_ok_def Let_def split: sum.split prod.split)
qed (simp_all add: queues_ok_def update_session_def)

end
