(* ===== verification/Session_Properties.thy ===== *)
theory Session_Properties
  imports Session_Invariants
begin

section \<open>Properties of the session manager\<close>

subsection \<open>A small service for the examples\<close>

definition sample_settings :: settings where
  "sample_settings = (default_settings (Abs [''run'']) (Abs [''qemu'']) (Abs [''rom'']))\<lparr>native_workers_enabled := True\<rparr>"

definition sample_env :: env where
  "sample_env = \<lparr>cfg = sample_settings, cwd = [], os_id = \<lparr>my_uid = 1, my_gid = 1, umask = 18\<rparr>,
     xml_parser = (\<lambda>_. None), unicode_int = (\<lambda>_. None)\<rparr>"

definition sample_files :: filesys where
  "sample_files = (\<lambda>_. None)
     (Abs [''qemu''] \<mapsto> \<lparr>kind = Regular [], mode = 493, uid = 0, gid = 0\<rparr>,
      Abs [''rom''] \<mapsto> \<lparr>kind = Directory, mode = 493, uid = 0, gid = 0\<rparr>,
      Abs [''run''] \<mapsto> \<lparr>kind = Directory, mode = 448, uid = 1, gid = 1\<rparr>)"

definition quiet_worker :: worker where
  "quiet_worker = \<lparr>returncode = None, has_stdin = True, has_stderr = False, stdout_chunks = [],
     stderr_lines = [], stderr_fails = None, stdin_written = [], terminated = False, killed = False\<rparr>"

definition sample_input :: input where
  "sample_input = \<lparr>i_clock = 0, i_utc = 0, i_uuid = ''s1'', i_peer = sample_peer, i_timeout = False,
     i_drain = None, i_worker = Inr quiet_worker, i_gdb_attempts = [], i_gdb_bytes = [], i_gdb_end = Silent,
     i_probe = True, i_screen = None, i_stuck = (\<lambda>_. False)\<rparr>"

definition empty_system :: system where
  "empty_system = \<lparr>world_of = initial_world sample_files 0 0, pool = []\<rparr>"

definition created_system :: system where
  "created_system = run_events sample_env [Arrive (CreateSession tiny_board sample_image) sample_input] empty_system"

lemma created_reachable: "reachable sample_env created_system"
  unfolding created_system_def empty_system_def
  by (intro reachable_run reachable_start)

text \<open>A session once in the table stays there.\<close>

lemma find_queues [simp]: "find_session (w\<lparr>queues := x\<rparr>) sid = find_session w sid"
  "find_session (w\<lparr>queues := x, next_ref := y\<rparr>) sid = find_session w sid"
  "find_session (w\<lparr>launches := z\<rparr>) sid = find_session w sid"
  by (simp_all add: find_session_def)

lemma find_publish: "find_session (publish k item w) sid \<noteq> None \<longleftrightarrow> find_session w sid \<noteq> None"
  by (auto simp: publish_def Let_def split: option.split)

interpretation kept_law: world_law en "\<lambda>w. find_session w sid \<noteq> None" for en sid
proof
  show "find_session w sid \<noteq> None \<Longrightarrow> sessions w' = sessions w \<Longrightarrow> queues w' = queues w \<Longrightarrow> launches w' = launches w \<Longrightarrow>
      find_session w' sid \<noteq> None" for w w'
    by (simp add: find_session_def)
  show "find_session w sid \<noteq> None \<Longrightarrow> find_session (fst (admit en board upload w)) sid \<noteq> None" for w board upload
  proof -
    assume a: "find_session w sid \<noteq> None"
    have "map_of xs sid \<noteq> None \<Longrightarrow> map_of (put k v xs) sid \<noteq> None" for k xs and v :: session
      by (induction xs) auto
    with a show ?thesis
      by (auto simp: admit_def Let_def find_session_def split: sum.split prod.split)
  qed
qed (use find_publish in \<open>auto simp: find_publish\<close>)

lemma create_settles:
  assumes "worker_ready en w" "worker_sandbox_mode (cfg en) \<noteq> OCI_BROKER" "ManagerLock \<notin> set (held w)"
    and "admit en board upload (w\<lparr>held := ManagerLock # held w\<rparr>) = (w2, Inr sid)"
  shows "settle (create en board upload) w
       = settle (first_launch en sid) (w2\<lparr>held := removeAll ManagerLock (held w2)\<rparr>)"
  using assms
  by (simp add: create_def create_then_def worker_is_ready_def locked_def acquire_def release_def run_simps settle_outcome)

lemma map_of_put: "map_of (put k v xs) j = (if j = k then Some v else map_of xs j)"
  by (induction xs) auto

lemma write_private_flash_image_keeps:
  "fs (parent p) = None \<Longrightarrow> \<exists>fs'. write_private_flash_image i p bs dm fm g fs = Inr fs'
     \<and> (\<forall>q. q \<noteq> p \<longrightarrow> q \<noteq> parent p \<longrightarrow> fs' q = fs q)"
  by (cases g) (auto simp: write_private_flash_image_def make_dir_def chmod_def chgrp_def write_bytes_def Let_def
      split: option.split)

lemma admit_accepts:
  assumes "int (active_count w) < max_concurrent_sessions (cfg en)"
    and "validate_and_pad_firmware upload board = Inr (flash, metadata)"
    and "files w (child (runtime_root (cfg en)) (fresh_uuid w)) = None"
  shows "\<exists>fs. admit en board upload w = (w\<lparr>files := fs,
     sessions := put (fresh_uuid w) (new_session en w board flash metadata) (sessions w)\<rparr>, Inr (fresh_uuid w))
     \<and> (\<forall>q. \<not> is_relative_to q (child (runtime_root (cfg en)) (fresh_uuid w)) \<longrightarrow> fs q = files w q)"
proof -
  let ?d = "child (runtime_root (cfg en)) (fresh_uuid w)"
  let ?s = "new_session en w board flash metadata"
  have s: "flash_path ?s = child ?d ''flash.bin''" "session_id ?s = fresh_uuid w" by (simp_all add: new_session_def Let_def)
  have p: "files w (parent (child ?d ''flash.bin'')) = None" using assms(3) by simp
  obtain fs where fs: "write_private_flash_image (os_id en) (flash_path ?s) flash
        (if shared_gid (cfg en) \<noteq> None then octal [2, 7, 7, 0] else octal [7, 0, 0])
        (if shared_gid (cfg en) \<noteq> None then octal [6, 6, 0] else octal [6, 0, 0]) (shared_gid (cfg en)) (files w) = Inr fs"
    and keep: "\<forall>q. q \<noteq> child ?d ''flash.bin'' \<longrightarrow> q \<noteq> ?d \<longrightarrow> fs q = files w q"
    using write_private_flash_image_keeps [where fs = "files w", OF p] unfolding s(1) parent_child by blast
  have "admit en board upload w = (w\<lparr>files := fs, sessions := put (fresh_uuid w) ?s (sessions w)\<rparr>, Inr (fresh_uuid w))"
    using assms(1,2) fs by (simp add: admit_def Let_def s(2))
  moreover have "\<forall>q. \<not> is_relative_to q ?d \<longrightarrow> fs q = files w q"
    using keep is_relative_to_child [of ?d "''flash.bin''"] is_relative_to_refl [of ?d] by metis
  ultimately show ?thesis by blast
qed

text \<open>The state in which the first launch of the example begins.\<close>

lemma created_first:
  "\<exists>w2 s. created_system = conclude 0 (settle (first_launch sample_env ''s1'') w2) []
     \<and> find_session w2 ''s1'' = Some s \<and> session_board s = tiny_board \<and> launches w2 = []
     \<and> is_ok (validate_worker_config (files w2) (worker_config sample_settings))"
proof -
  have v: "is_ok (validate_worker_config fs (worker_config sample_settings))"
    if "fs (Abs [''qemu'']) = sample_files (Abs [''qemu''])" "fs (Abs [''rom'']) = sample_files (Abs [''rom''])" for fs
    using that by (simp add: validate_worker_config_def worker_config_def sample_settings_def default_settings_def
        is_file_def is_directory_def access_x_def follow_def sample_files_def)
  let ?w = "(begin_turn sample_input 0 (initial_world sample_files 0 0))\<lparr>next_ref := 1\<rparr>"
  let ?v = "?w\<lparr>held := ManagerLock # held ?w\<rparr>"
  have r: "worker_ready sample_env ?w" "worker_sandbox_mode (cfg sample_env) \<noteq> OCI_BROKER" "ManagerLock \<notin> set (held ?w)"
    using v [of sample_files] by (simp_all add: worker_ready_def sample_env_def begin_turn_def initial_world_def
        sample_settings_def default_settings_def)
  have q: "int (active_count ?v) < max_concurrent_sessions (cfg sample_env)"
    "files ?v (child (runtime_root (cfg sample_env)) (fresh_uuid ?v)) = None" "fresh_uuid ?v = ''s1''"
    "child (runtime_root (cfg sample_env)) ''s1'' = Abs [''run'', ''s1'']" "files ?v = sample_files"
    by (simp_all add: active_count_def begin_turn_def initial_world_def sample_env_def sample_settings_def
        default_settings_def sample_files_def sample_input_def)
  obtain m where m: "validate_and_pad_firmware sample_image tiny_board
      = Inr (ljust sample_image (flash_size_bytes tiny_board) 0xff, m)"
    using validate_acceptable [OF sample_acceptable] by blast
  let ?S = "new_session sample_env ?v tiny_board (ljust sample_image (flash_size_bytes tiny_board) 0xff) m"
  obtain fs where a: "admit sample_env tiny_board sample_image ?v =
      (?v\<lparr>files := fs, sessions := put ''s1'' ?S (sessions ?v)\<rparr>, Inr ''s1'')"
    and fs: "\<forall>q. \<not> is_relative_to q (Abs [''run'', ''s1'']) \<longrightarrow> fs q = sample_files q"
    using admit_accepts [OF q(1) m q(2)] unfolding q(3-5) by blast
  let ?w2 = "(?v\<lparr>files := fs, sessions := put ''s1'' ?S (sessions ?v)\<rparr>)
    \<lparr>held := removeAll ManagerLock (held (?v\<lparr>files := fs, sessions := put ''s1'' ?S (sessions ?v)\<rparr>))\<rparr>"
  have "created_system = conclude 0 (settle (first_launch sample_env ''s1'') ?w2) []"
    using create_settles [OF r a]
    by (simp add: created_system_def run_events_def empty_system_def Let_def initial_world_def [of _ 0 0])
  moreover have "find_session ?w2 ''s1'' = Some ?S" by (simp add: find_session_def map_of_put)
  moreover have "session_board ?S = tiny_board" by (simp add: new_session_def Let_def)
  moreover have "launches ?w2 = []" by (simp add: begin_turn_def initial_world_def)
  moreover have "is_ok (validate_worker_config (files ?w2) (worker_config sample_settings))"
    using fs by (intro v) simp_all
  ultimately show ?thesis by blast
qed

lemma world_of_conclude:
  "sessions (world_of (conclude t (w, q) ps)) = sessions w" "launches (world_of (conclude t (w, q) ps)) = launches w"
  by (cases q; simp add: end_task_def)+

lemma created_session: "\<exists>s. find_session (world_of created_system) ''s1'' = Some s"
proof -
  obtain w2 s where c: "created_system = conclude 0 (settle (first_launch sample_env ''s1'') w2) []"
    and f: "find_session w2 ''s1'' = Some s" using created_first by blast
  obtain w3 p where w3: "settle (first_launch sample_env ''s1'') w2 = (w3, p)"
    by (cases "settle (first_launch sample_env ''s1'') w2")
  have "safe (\<lambda>w. find_session w ''s1'' \<noteq> None) (first_launch sample_env ''s1'')"
    by (rule kept_law.safe_first_launch)
  from safe_settle [OF this, of w2] f have "find_session w3 ''s1'' \<noteq> None" by (simp add: w3)
  then show ?thesis unfolding c w3 by (simp add: find_session_def world_of_conclude)
qed

subsection \<open>Recordings under every interleaving\<close>

text \<open>
  C1. Under every interleaving of requests, worker output, replays, timeouts, exits and
  cancellations, the event log of every session is bounded and gapless: it holds exactly the
  events numbered from the first undropped one to the last recorded, so dropped and kept events
  together are all the events ever recorded; generations never decrease along it, and the replay
  recording is bounded too.
\<close>

theorem event_log_any_interleaving:
  assumes "reachable en sys" "1 \<le> max_recording_events (cfg en)"
    and "find_session (world_of sys) sid = Some s"
  shows "int (length (events s)) \<le> max_recording_events (cfg en)
    \<and> map ev_sequence (events s) = [Suc (events_dropped s)..<next_event_sequence s]
    \<and> events_dropped s + length (events s) = next_event_sequence s - 1
    \<and> sorted (map ev_generation (events s))
    \<and> (\<forall>e\<in>set (events s). ev_generation e \<le> generation s \<and> 0 \<le> ev_offset_ms e)
    \<and> int (length (replay_actions s)) \<le> max_recording_events (cfg en)"
proof -
  have "all_sessions (log_ok (cfg en)) (world_of sys)"
    using assms(1) by (rule log_law.reachable_law) (simp add: all_sessions_def initial_world_def)
  from all_sessions_find [OF this assms(3)] assms(2)
  have ok: "log_ok (cfg en) s" and seqs: "map ev_sequence (events s) = [Suc (events_dropped s)..<next_event_sequence s]"
    and "events_dropped s < next_event_sequence s" by (simp_all add: log_ok_def)
  moreover have "length (events s) = next_event_sequence s - Suc (events_dropped s)"
    using seqs by (metis length_map length_upt)
  ultimately have "events_dropped s + length (events s) = next_event_sequence s - 1" by simp
  with ok assms(2) show ?thesis by (simp add: log_ok_def)
qed

lemma sample_limit: "1 \<le> max_recording_events (cfg sample_env)"
  by (simp add: sample_env_def sample_settings_def default_settings_def)

theorem event_log_any_interleaving_witness:
  "\<exists>s. find_session (world_of created_system) ''s1'' = Some s
     \<and> map ev_sequence (events s) = [Suc (events_dropped s)..<next_event_sequence s]"
  using created_session event_log_any_interleaving [OF created_reachable sample_limit] by blast

text \<open>
  C29. Trace sampling never loses count: under every interleaving the trace lines counted by name in a
  generation are exactly those recorded plus those reported as dropped, at most the configured
  number per generation is recorded, and the serial buffer never exceeds its 256 chunks.
\<close>

theorem trace_counters_any_interleaving:
  assumes "reachable en sys" "1 \<le> max_recording_events (cfg en)"
    and "find_session (world_of sys) sid = Some s"
  shows "sum_list (map snd (trace_event_counts s)) = trace_events_recorded s + trace_events_dropped s
    \<and> int (trace_events_recorded s) \<le> max 0 (max_trace_events_per_generation (cfg en))
    \<and> length (serial_buffer s) \<le> 256"
proof -
  have "all_sessions (counters_ok (cfg en)) (world_of sys)"
    using assms(1)
    by (rule counters_law.reachable_law) (simp add: all_sessions_def initial_world_def)
  from all_sessions_find [OF this assms(3)] assms(2) show ?thesis
    by (simp add: counters_ok_def SERIAL_BUFFER_CHUNKS_def)
qed

theorem trace_counters_any_interleaving_witness:
  "\<exists>s. find_session (world_of created_system) ''s1'' = Some s
     \<and> int (trace_events_recorded s) \<le> 2048"
proof -
  obtain s where s: "find_session (world_of created_system) ''s1'' = Some s" using created_session by blast
  from trace_counters_any_interleaving [OF created_reachable sample_limit s] s show ?thesis
    by (auto simp: sample_env_def sample_settings_def default_settings_def)
qed

text \<open>
  No subscriber can make the service buffer without bound: under every interleaving every
  subscriber queue holds at most 128 items.
\<close>

theorem subscriber_queues_bounded:
  assumes "reachable en sys"
  shows "length (queues (world_of sys) q) \<le> 128"
proof -
  have "queues_ok (world_of sys)"
    using assms by (rule queue_law.reachable_law) (simp add: queues_ok_def initial_world_def)
  then show ?thesis by (simp add: queues_ok_def SUBSCRIBER_QUEUE_SIZE_def)
qed

theorem subscriber_queues_bounded_witness:
  "length (queues (world_of created_system) 0) \<le> 128"
  using subscriber_queues_bounded [OF created_reachable] .

end
