(* ===== verification/Session_Outcomes.thy ===== *)
theory Session_Outcomes
  imports Session_Properties
begin

section \<open>What an operation has achieved when it ends\<close>

text \<open>
  Postconditions of the operations that hold whatever the other tasks of the service do at every
  suspension: weakest preconditions of the session primitives, rules that forget what happened
  before the last suspension, and the theorems over \<open>ends\<close>.  "Gone" means of files what it can: all but
  the paths of \<open>stuck\<close>, which the operating system does not remove.
\<close>

subsection \<open>Weakest preconditions of the session primitives\<close>

lemma wp_session [simp]:
  "wp R (with_session sid f) Q w = (case find_session w sid of
     None \<Rightarrow> Q (Inl (SessionNotFoundError sid)) w | Some s \<Rightarrow> wp R (f s) Q w)"
  "wp R (on_session sid h) Q1 w = Q1 (Inr ()) (update_session sid h w)"
  "wp R (guard b e) Q1 w = Q1 (if b then Inr () else Inl e) w"
  by (simp_all add: with_session_def on_session_def guard_def wp_simps split: option.split)

lemma wp_session_do [simp]:
  "wp R (session_do sid f) Q w = (case find_session w sid of
     None \<Rightarrow> Q (Inl (SessionNotFoundError sid)) w
   | Some s \<Rightarrow> Q (snd (f w s)) (update_session sid (\<lambda>_. fst (f w s)) w))"
  by (simp add: session_do_def split: option.split prod.split)

lemma wp_suspend:
  "wp R (suspend b f) Q w \<longleftrightarrow> (\<forall>u i. R w u \<longrightarrow> b u \<or> cancel_pending u \<longrightarrow>
     (if cancel_pending u then Q (Inl CancelledError) (u\<lparr>cancels := removeAll (me u) (cancels u)\<rparr>)
      else Q (snd (f i u)) (fst (f i u))))"
  by (simp add: suspend_def split_beta if_distrib [of "map_prod id (wp R)"] cong: if_cong)

lemma wp_locked_any:
  assumes "\<And>u. wp R p (\<lambda>r v. Q r (v\<lparr>held := removeAll l (held v)\<rparr>)) u" "\<And>e u. Q (Inl e) u"
  shows "wp R (locked l p) Q w"
proof -
  have "wp R (seq a (always p (release l))) Q w" for a :: "unit task"
    unfolding wp_simps release_def
    by (rule wp_any) (auto simp: wp_simps assms split: sum.split)
  then show ?thesis by (simp add: locked_def)
qed

lemma wp_seq_any: "(\<And>u. wp R q Q u) \<Longrightarrow> (\<And>e u. Q (Inl e) u) \<Longrightarrow> wp R (seq p q) Q w"
  unfolding wp_simps by (rule wp_any) (auto split: sum.split)

lemma wp_then_do_any: "(\<And>x u. wp R (f x) Q u) \<Longrightarrow> (\<And>e u. Q (Inl e) u) \<Longrightarrow> wp R (then_do p f) Q w"
  unfolding wp_simps by (rule wp_any) (auto split: sum.split)

lemma wp_seq_from:
  "wp R p P w \<Longrightarrow> (\<And>x u. P (Inr x) u \<Longrightarrow> wp R q Q u) \<Longrightarrow> (\<And>e u. Q (Inl e) u) \<Longrightarrow> wp R (seq p q) Q w"
  unfolding wp_simps by (erule wp_mono) (auto split: sum.split)

lemma wp_on_error: "wp R p Q w \<Longrightarrow> (\<And>e u. wp R (h e) Q u) \<Longrightarrow> wp R (on_error p h) Q w"
  unfolding wp_simps by (erule wp_mono) (auto split: sum.split)

lemma wp_on_error_any: "(\<And>x u. Q (Inr x) u) \<Longrightarrow> (\<And>e u. wp R (h e) Q u) \<Longrightarrow> wp R (on_error p h) Q w"
  unfolding wp_simps by (rule wp_any) (auto split: sum.split)

lemma wp_with_session_any:
  "(\<And>s. find_session w sid = Some s \<Longrightarrow> wp R (f s) Q w) \<Longrightarrow> (\<And>e u. Q (Inl e) u) \<Longrightarrow> wp R (with_session sid f) Q w"
  by (simp split: option.split)

lemma record_event_shape:
  "\<exists>n evs d. fst (record_event st now c t sr x s) = s\<lparr>next_event_sequence := n, events := evs, events_dropped := d\<rparr>"
  by (cases s) (auto simp: record_event_def Let_def split: sum.split prod.split)

lemma record_event_same [simp]:
  "state (fst (record_event st now c t sr x s)) = state s"
  "initial_flash_image (fst (record_event st now c t sr x s)) = initial_flash_image s"
  "replay_actions (fst (record_event st now c t sr x s)) = replay_actions s"
  "serial_buffer (fst (record_event st now c t sr x s)) = serial_buffer s"
  "virtual_imu_state (fst (record_event st now c t sr x s)) = virtual_imu_state s"
  "virtual_power_state (fst (record_event st now c t sr x s)) = virtual_power_state s"
  "runtime_directory (fst (record_event st now c t sr x s)) = runtime_directory s"
  "process (fst (record_event st now c t sr x s)) = process s"
  "accept_live_input (fst (record_event st now c t sr x s)) = accept_live_input s"
  "exit_code (fst (record_event st now c t sr x s)) = exit_code s"
  "replay_status (fst (record_event st now c t sr x s)) = replay_status s"
  using record_event_shape [of st now c t sr x s] by auto

lemma record_event_last:
  "snd (record_event st now c t sr x s) = None \<Longrightarrow>
     events (fst (record_event st now c t sr x s)) \<noteq> []
     \<and> last (events (fst (record_event st now c t sr x s))) = new_event now c t sr x s"
  by (auto simp: record_event_def Let_def bounded_push_def split: list.splits if_splits)

lemma record_event_works: "1 \<le> max_recording_events st \<Longrightarrow> snd (record_event st now c t sr x s) = None"
  by (auto simp: record_event_def Let_def bounded_push_def split: list.split)

lemma record_event_room:
  "int (length (events s)) < max_recording_events st \<Longrightarrow> record_event st now c t sr x s =
     (s\<lparr>next_event_sequence := Suc (next_event_sequence s), events := events s @ [new_event now c t sr x s],
        events_dropped := events_dropped s\<rparr>, None)"
  by (simp add: record_event_def Let_def bounded_push_def)

lemma update_session_frame [simp]:
  "held (update_session sid f w) = held w" "cancels (update_session sid f w) = cancels w"
  "me (update_session sid f w) = me w" "files (update_session sid f w) = files w"
  "procs (update_session sid f w) = procs w" "queues (update_session sid f w) = queues w"
  "clock_ns (update_session sid f w) = clock_ns w" "stuck (update_session sid f w) = stuck w"
  "spawned (update_session sid f w) = spawned w" "qmp_log (update_session sid f w) = qmp_log w"
  "next_ref (update_session sid f w) = next_ref w"
  by (simp_all add: update_session_def)

lemma record_event_recorded:
  assumes "1 \<le> max_recording_events st"
  shows "events (fst (record_event st now c t sr x s)) \<noteq> []"
    "last (events (fst (record_event st now c t sr x s))) = new_event now c t sr x s"
    "snd (record_event st now c t sr x s) = None"
  using record_event_works [OF assms] record_event_last by blast+

lemma wp_record_ev [simp]:
  "wp R (record_ev en sid c t sr x) Q w = (case find_session w sid of
     None \<Rightarrow> Q (Inl (SessionNotFoundError sid)) w
   | Some s \<Rightarrow> Q (case snd (record_event (cfg en) (clock_ns w) c t sr x s) of None \<Rightarrow> Inr () | Some e \<Rightarrow> Inl e)
       (update_session sid (\<lambda>_. fst (record_event (cfg en) (clock_ns w) c t sr x s)) w))"
  by (auto simp: record_ev_def to_result_def split: option.splits prod.split)

lemma wp_small [simp]:
  "wp R (clear_private sid) Q w = Q (Inr ()) (update_session sid clear_private_session_data w)"
  "wp R (publish_now sid item) Q w = Q (Inr ()) (publish sid item w)"
  "wp R (remove_session_files sid) Q w = (case find_session w sid of
     None \<Rightarrow> Q (Inl (SessionNotFoundError sid)) w
   | Some s \<Rightarrow> Q (Inr ()) (w\<lparr>files := rmtree (stuck w) (runtime_directory s) (files w)\<rparr>))"
  by (simp_all add: clear_private_def publish_now_def remove_session_files_def wp_simps split: option.split)

lemma wp_unlink_path [simp]:
  "wp R (unlink_path p) Q w =
     (if unlink_refused (stuck w) p (files w) then Q (Inl (OSError (str_path p))) w
      else Q (Inr ()) (w\<lparr>files := (files w)(p := None)\<rparr>))"
  by (simp add: unlink_path_def unlink_missing_ok_def wp_simps)

lemma find_frame [simp]:
  "find_session (files_update f1 w) sid = find_session w sid"
  "find_session (held_update f2 w) sid = find_session w sid"
  "find_session (cancels_update f3 w) sid = find_session w sid"
  "find_session (procs_update f4 w) sid = find_session w sid"
  "find_session (spawned_update f5 w) sid = find_session w sid"
  "find_session (next_ref_update f6 w) sid = find_session w sid"
  "find_session (launches_update f7 w) sid = find_session w sid"
  "find_session (qmp_log_update f8 w) sid = find_session w sid"
  by (simp_all add: find_session_def)

lemma cancel_pending_frame [simp]:
  "cancel_pending (files_update f1 w) = cancel_pending w" "cancel_pending (held_update f2 w) = cancel_pending w"
  "cancel_pending (procs_update f4 w) = cancel_pending w" "cancel_pending (spawned_update f5 w) = cancel_pending w"
  "cancel_pending (next_ref_update f6 w) = cancel_pending w" "cancel_pending (launches_update f7 w) = cancel_pending w"
  "cancel_pending (qmp_log_update f8 w) = cancel_pending w" "cancel_pending (update_session sid f w) = cancel_pending w"
  "cancel_pending (sessions_update f9 w) = cancel_pending w"
  by (simp_all add: cancel_pending_def)

lemma find_publish_eq:
  "find_session (publish k item w) sid =
     (if sid = k then map_option (\<lambda>s. s\<lparr>subscribers := filter (\<lambda>q. length (queues w q) < SUBSCRIBER_QUEUE_SIZE) (subscribers s)\<rparr>) (find_session w k)
      else find_session w sid)"
  by (auto simp: publish_def Let_def split: option.split)

lemma publish_files [simp]: "files (publish sid item w) = files w" "stuck (publish sid item w) = stuck w"
    "procs (publish sid item w) = procs w"
  by (simp_all add: publish_def Let_def update_session_def split: option.split)

lemma clear_private_fields [simp]:
  "initial_flash_image (clear_private_session_data s) = []"
  "replay_actions (clear_private_session_data s) = []"
  "serial_buffer (clear_private_session_data s) = []"
  "virtual_imu_state (clear_private_session_data s) = None"
  "virtual_power_state (clear_private_session_data s) = None"
  "state (clear_private_session_data s) = state s"
  "runtime_directory (clear_private_session_data s) = runtime_directory s"
  "process (clear_private_session_data s) = process s"
  "events (clear_private_session_data s) = events s"
  "replay_status (clear_private_session_data s) = replay_status s"
  by (simp_all add: clear_private_session_data_def)

text \<open>A task that settles at once ends so whatever the others may do.\<close>

lemma ends_settled: "settle p w = (w', Ret r) \<Longrightarrow> ends R p w r w'"
proof (induction p arbitrary: w)
  case (Ret x)
  then show ?case by (simp add: ends_Ret)
next
  case (Do g)
  obtain u q where g: "g w = (u, q)" by (cases "g w")
  then have "settle q u = (w', Ret r)" using Do.prems by simp
  then have "ends R q u r w'" using Do.IH [OF rangeI [of g w], of q u] g by (simp add: snds.simps)
  then show ?case using g by (intro ends_Do) simp
next
  case (Await b g)
  then show ?case by simp
qed

lemma ends_settle: "settle p w = (u, q) \<Longrightarrow> ends R q u r w' \<Longrightarrow> ends R p w r w'"
proof (induction p arbitrary: w)
  case (Ret x)
  then show ?case by simp
next
  case (Do g)
  obtain v p where g: "g w = (v, p)" by (cases "g w")
  then have "settle p v = (u, q)" using Do.prems by simp
  then have "ends R p v r w'" using Do.IH [OF rangeI [of g w], of p v] Do.prems g by (simp add: snds.simps)
  then show ?case using g by (intro ends_Do) simp
next
  case (Await b g)
  then show ?case by simp
qed

text \<open>A task run alone with a list of inputs ends so among quiet neighbours.\<close>

lemma ends_alone: "alone is (settle p w) = (w', Ret r) \<Longrightarrow> ends (=) p w r w'"
proof (induction "is" arbitrary: p w)
  case Nil
  then show ?case by (simp add: ends_settled)
next
  case (Cons i "is")
  obtain u q where s: "settle p w = (u, q)" by (cases "settle p w")
  have "ends (=) q u r w'"
  proof (cases "runnable q u")
    case False
    then show ?thesis using Cons.prems s by (auto intro: ends_Ret)
  next
    case True
    then obtain b g where q: "q = Await b g" "b u" by (cases q) auto
    obtain v p' where g: "g i u = (v, p')" by (cases "g i u")
    have "alone is (settle p' v) = (w', Ret r)" using Cons.prems s q g by simp
    then have "ends (=) p' v r w'" by (rule Cons.IH)
    then show ?thesis unfolding q(1) using q(2) g by (intro ends_Await [where i = i and u = u]) auto
  qed
  then show ?case by (rule ends_settle [OF s])
qed

lemma ends_settled_iff: "settle p w = (u, Ret x) \<Longrightarrow> ends R p w r w' \<longleftrightarrow> r = x \<and> w' = u"
proof -
  assume s: "settle p w = (u, Ret x)"
  have "wp R p (\<lambda>r' v. r' = x \<and> v = u) w"
    using s
  proof (induction p arbitrary: w)
    case (Ret y)
    then show ?case by simp
  next
    case (Do g)
    obtain v q where g: "g w = (v, q)" by (cases "g w")
    then have "settle q v = (u, Ret x)" using Do.prems by simp
    then show ?case using Do.IH [OF rangeI [of g w], of q v] g by (simp add: snds.simps)
  next
    case (Await b g)
    then show ?case by simp
  qed
  from wp_sound [OF _ this] ends_settled [OF s] show ?thesis by blast
qed

subsection \<open>Private data\<close>

text \<open>
  Nothing private is left of a session, neither in its record nor, save for what the operating system
  refuses to remove, in its directory.
\<close>

definition private_data_gone :: "session \<Rightarrow> world \<Rightarrow> bool" where
  "private_data_gone s w \<longleftrightarrow>
     initial_flash_image s = [] \<and> replay_actions s = [] \<and> serial_buffer s = []
     \<and> virtual_imu_state s = None \<and> virtual_power_state s = None
     \<and> (\<forall>p. is_relative_to p (runtime_directory s) \<longrightarrow> files w p = None \<or> stuck w p)"

subsection \<open>The end of a worker\<close>

text \<open>
  Other tasks \<open>keep\<close> the worker of a session when they neither start nor take one away; the invariant
  of a piece of code then says which worker the session has and which workers are over.
\<close>

definition session_worker :: "world \<Rightarrow> string \<Rightarrow> nat option" where
  "session_worker w sid = (case find_session w sid of None \<Rightarrow> None | Some s \<Rightarrow> process s)"

definition keeps_workers :: "string \<Rightarrow> (world \<Rightarrow> world \<Rightarrow> bool) \<Rightarrow> bool" where
  "keeps_workers sid R \<longleftrightarrow> (\<forall>u v. R u v \<longrightarrow>
     session_worker v sid = session_worker u sid \<and> (\<forall>pid. exited pid u \<longrightarrow> exited pid v))"

definition worker_is :: "string \<Rightarrow> nat option \<Rightarrow> nat option \<Rightarrow> world \<Rightarrow> bool" where
  "worker_is sid pr over w \<longleftrightarrow> session_worker w sid = pr \<and> (\<forall>pid. over = Some pid \<longrightarrow> exited pid w)"

lemma session_worker_frame [simp]:
  "session_worker (cancels_update f1 w) sid = session_worker w sid"
  "session_worker (held_update f2 w) sid = session_worker w sid"
  "session_worker (files_update f3 w) sid = session_worker w sid"
  "session_worker (gdbs_update f4 w) sid = session_worker w sid"
  "session_worker (update_worker pid f5 w) sid = session_worker w sid"
  "session_worker (publish k item w) sid = session_worker w sid"
  by (auto simp: session_worker_def find_session_def find_publish_eq [unfolded find_session_def] update_worker_def
      split: option.split)

lemma exited_frame [simp]:
  "exited pid (cancels_update f1 w) = exited pid w" "exited pid (held_update f2 w) = exited pid w"
  "exited pid (files_update f3 w) = exited pid w" "exited pid (gdbs_update f4 w) = exited pid w"
  "exited pid (update_session sid f w) = exited pid w" "exited pid (publish k item w) = exited pid w"
  by (simp_all add: exited_def)

lemma wp_worker_is:
  assumes "safe (worker_is sid pr over) p" "keeps_workers sid R" "worker_is sid pr over w"
  shows "wp R p (\<lambda>r u. worker_is sid pr over u) w"
  by (rule wp_safe [OF assms(1) _ assms(3)]) (use assms(2) in \<open>auto simp: keeps_workers_def worker_is_def\<close>)

lemma safe_worker_change:
  "(\<And>w. session_worker (f w) sid = session_worker w sid \<and> (\<forall>pid. exited pid w \<longrightarrow> exited pid (f w))) \<Longrightarrow>
     safe (worker_is sid pr over) (change f)"
  by (rule safe_change) (auto simp: worker_is_def)

lemma safe_worker_suspend:
  "(\<And>i w. session_worker (fst (f i w)) sid = session_worker w sid \<and> (\<forall>pid. exited pid w \<longrightarrow> exited pid (fst (f i w)))) \<Longrightarrow>
     safe (worker_is sid pr over) (suspend b f)"
  unfolding suspend_def
  by (rule safe_Await) (auto simp: worker_is_def split_beta intro: safe_Ret)

lemma worker_update_session:
  "(\<And>s. find_session w k = Some s \<Longrightarrow> process (f s) = process s) \<Longrightarrow>
     session_worker (update_session k f w) sid = session_worker w sid"
  by (auto simp: session_worker_def split: option.split)

lemma safe_worker_with [safe_intro]:
  "(\<And>s. safe (worker_is sid pr over) (f s)) \<Longrightarrow> safe (worker_is sid pr over) (with_session k f)"
  unfolding with_session_def by (intro safe_intro)

lemma safe_worker_do:
  assumes "\<And>w s. find_session w k = Some s \<Longrightarrow> process (fst (f w s)) = process s"
  shows "safe (worker_is sid pr over) (session_do k f)"
  unfolding session_do_def
proof (rule safe_Do)
  fix w
  assume I: "worker_is sid pr over w"
  show "worker_is sid pr over (fst (case find_session w k of None \<Rightarrow> (w, Ret (Inl (SessionNotFoundError k)))
        | Some s \<Rightarrow> (case f w s of (s', r) \<Rightarrow> (update_session k (\<lambda>_. s') w, Ret r))))
      \<and> safe (worker_is sid pr over) (snd (case find_session w k of None \<Rightarrow> (w, Ret (Inl (SessionNotFoundError k)))
        | Some s \<Rightarrow> (case f w s of (s', r) \<Rightarrow> (update_session k (\<lambda>_. s') w, Ret r))))"
  proof (cases "find_session w k")
    case None
    then show ?thesis using I by (simp add: safe_Ret)
  next
    case (Some s)
    have "session_worker (update_session k (\<lambda>_. fst (f w s)) w) sid = session_worker w sid"
      by (rule worker_update_session) (use assms [OF Some] Some in auto)
    then show ?thesis using I Some by (simp add: worker_is_def split_beta safe_Ret)
  qed
qed

lemma safe_worker_on [safe_intro]:
  "(\<And>s. process (f s) = process s) \<Longrightarrow> safe (worker_is sid pr over) (on_session k f)"
  unfolding on_session_def by (rule safe_worker_change) (simp add: worker_update_session)

lemma safe_worker_steps [safe_intro]:
  "safe (worker_is sid pr over) (cancel_task t)" "safe (worker_is sid pr over) (gdb_close g)"
  "safe (worker_is sid pr over) (wait_process pid)" "safe (worker_is sid pr over) (publish_now k item)"
  "safe (worker_is sid pr over) (release l)" "safe (worker_is sid pr over) (change (update_worker pid (\<lambda>k. k\<lparr>terminated := True\<rparr>)))"
  "safe (worker_is sid pr over) (change (update_worker pid (\<lambda>k. k\<lparr>killed := True\<rparr>)))"
  unfolding cancel_task_def gdb_close_def wait_process_def publish_now_def release_def
  by (auto intro!: safe_worker_change safe_worker_suspend simp: exited_def update_worker_def split: option.splits)
    (simp_all add: session_worker_def find_session_def)

lemma safe_worker_gather [safe_intro]: "safe (worker_is sid pr over) (gather_task t)"
  unfolding gather_task_def
  by (intro safe_Await) (auto intro!: safe_Await safe_Ret simp: worker_is_def)

lemma safe_worker_acquire [safe_intro]: "safe (worker_is sid pr over) (acquire l)"
  unfolding acquire_def by (intro safe_intro safe_worker_change safe_worker_suspend) simp_all

lemma safe_worker_record [safe_intro]:
  "safe (worker_is sid pr over) (record_ev en k c t sr x)" "safe (worker_is sid pr over) (clear_private k)"
  "safe (worker_is sid pr over) (remove_session_files k)"
  unfolding record_ev_def clear_private_def remove_session_files_def
  by (intro safe_intro safe_worker_do safe_worker_change; simp add: fst_to_result)+

lemma safe_stop_parts [safe_intro]:
  "safe (worker_is sid pr over) (join_other t)" "safe (worker_is sid pr over) (close_debugger k)"
  "safe (worker_is sid pr over) (stop_process pid)"
  unfolding join_other_def close_debugger_def stop_process_def
  by (intro safe_intro safe_worker_suspend; simp)+

lemma wp_stop_process:
  assumes "keeps_workers sid R" "worker_is sid None None w"
  shows "wp R (stop_process pid) (\<lambda>r u. \<forall>x. r = Inr x \<longrightarrow> worker_is sid None (Some pid) u) w"
proof -
  have exit: "wp R (stop_process pid) (\<lambda>r u. \<forall>x. r = Inr x \<longrightarrow> exited pid u) w"
    by (simp add: stop_process_def wait_process_def wp_simps(1-4,6-8) wp_suspend)
  have "wp R (stop_process pid) (\<lambda>r u. worker_is sid None None u) w"
    by (rule wp_worker_is [OF _ assms]) (intro safe_intro)
  with exit show ?thesis
    by (intro wp_complete) (simp add: worker_is_def, blast dest: wp_sound)
qed

lemma wp_terminate_worker:
  assumes "keeps_workers sid R" "worker_is sid pr None w"
  shows "wp R (terminate_worker sid) (\<lambda>r u. \<forall>x. r = Inr x \<longrightarrow> worker_is sid None pr u) w"
  unfolding terminate_worker_def
proof (rule wp_seq_from [OF wp_worker_is [OF _ assms]])
  show "safe (worker_is sid pr None) (close_debugger sid)" by (intro safe_intro)
next
  fix u
  assume u: "worker_is sid pr None u"
  show "wp R (with_session sid (\<lambda>s.
       seq (on_session sid (\<lambda>s. s\<lparr>process := None, reader_task := None, trace_reader_task := None\<rparr>))
      (seq (case process s of None \<Rightarrow> return () | Some pid \<Rightarrow> stop_process pid)
      (seq (join_other (reader_task s))
      (seq (join_other (trace_reader_task s))
        (case process s of None \<Rightarrow> return ()
         | Some pid \<Rightarrow> session_do sid (\<lambda>w s. (s\<lparr>exit_code := exit_status pid w\<rparr>, Inr ()))))))))
      (\<lambda>r u. \<forall>x. r = Inr x \<longrightarrow> worker_is sid None pr u) u"
  proof (rule wp_with_session_any)
    fix s
    assume s: "find_session u sid = Some s"
    then have pr: "process s = pr" using u by (simp add: worker_is_def session_worker_def)
    let ?v = "update_session sid (\<lambda>s. s\<lparr>process := None, reader_task := None, trace_reader_task := None\<rparr>) u"
    have v: "worker_is sid None None ?v" using s by (simp add: worker_is_def session_worker_def)
    have stopped: "wp R (case process s of None \<Rightarrow> return () | Some pid \<Rightarrow> stop_process pid)
        (\<lambda>r u. \<forall>x. r = Inr x \<longrightarrow> worker_is sid None pr u) ?v"
      using v wp_stop_process [OF assms(1) v] by (auto simp: pr wp_simps(1) split: option.split)
    have rest: "wp R (seq (join_other (reader_task s)) (seq (join_other (trace_reader_task s))
        (case process s of None \<Rightarrow> return ()
         | Some pid \<Rightarrow> session_do sid (\<lambda>w s. (s\<lparr>exit_code := exit_status pid w\<rparr>, Inr ())))))
        (\<lambda>r u. \<forall>x. r = Inr x \<longrightarrow> worker_is sid None pr u) t" if "worker_is sid None pr t" for t
    proof (rule wp_mono [OF wp_worker_is [OF _ assms(1) that]])
      show "safe (worker_is sid None pr) (seq (join_other (reader_task s)) (seq (join_other (trace_reader_task s))
        (case process s of None \<Rightarrow> return ()
         | Some pid \<Rightarrow> session_do sid (\<lambda>w s. (s\<lparr>exit_code := exit_status pid w\<rparr>, Inr ())))))"
        by (intro safe_intro safe_worker_do) simp
    qed simp
    show "wp R (seq (on_session sid (\<lambda>s. s\<lparr>process := None, reader_task := None, trace_reader_task := None\<rparr>))
      (seq (case process s of None \<Rightarrow> return () | Some pid \<Rightarrow> stop_process pid)
      (seq (join_other (reader_task s))
      (seq (join_other (trace_reader_task s))
        (case process s of None \<Rightarrow> return ()
         | Some pid \<Rightarrow> session_do sid (\<lambda>w s. (s\<lparr>exit_code := exit_status pid w\<rparr>, Inr ())))))))
      (\<lambda>r u. \<forall>x. r = Inr x \<longrightarrow> worker_is sid None pr u) u"
      unfolding wp_simps(7) [of R "on_session _ _"] wp_session sum.case
      by (rule wp_seq_from [OF stopped]) (use rest in auto)
  qed simp
qed simp

lemma wp_locked_from:
  assumes "wp R (acquire l) P w"
    and "\<And>u. P (Inr ()) u \<Longrightarrow> wp R p (\<lambda>r v. Q r (v\<lparr>held := removeAll l (held v)\<rparr>)) u"
    and "\<And>e u. Q (Inl e) u"
  shows "wp R (locked l p) Q w"
  unfolding locked_def
  by (rule wp_seq_from [OF assms(1)]) (use assms(2,3) in \<open>simp_all add: wp_simps release_def\<close>)

lemma wp_acquire_calm:
  "(\<And>u. Q (Inr ()) u) \<Longrightarrow> (\<And>u. Q (Inl CancelledError) u) \<Longrightarrow> wp R (acquire l) Q w"
  by (auto simp: acquire_def wp_simps wp_suspend)

lemma wp_locked_calm:
  assumes "\<And>u. wp R p (\<lambda>r v. Q r (v\<lparr>held := removeAll l (held v)\<rparr>)) u" "\<And>u. Q (Inl CancelledError) u"
  shows "wp R (locked l p) Q w"
  unfolding locked_def wp_simps(7)
  by (rule wp_acquire_calm) (use assms in \<open>simp_all add: wp_simps release_def\<close>)

lemma wp_stop_worker:
  assumes "keeps_workers sid R" "worker_is sid pr None w"
  shows "wp R (stop en sid expired) (\<lambda>r u. \<forall>x. r = Inr x \<longrightarrow> worker_is sid None pr u) w"
  unfolding stop_def
proof (rule wp_with_session_any, rule wp_seq_from [OF wp_worker_is [OF _ assms]])
  show "safe (worker_is sid pr None) (on_session sid (\<lambda>s. s\<lparr>replay_task := None\<rparr>))" by (intro safe_intro) simp
next
  fix s u
  assume u: "worker_is sid pr None u"
  let ?rest = "seq (clear_private sid) (seq (on_session sid (\<lambda>s. s\<lparr>state := if expired then EXPIRED else STOPPED\<rparr>))
      (seq (record_ev en sid Lifecycle (if expired then ''session.expired'' else ''session.stopped'') Service no_data)
      (seq (publish_now sid None) (remove_session_files sid))))"
  have rest: "wp R ?rest (\<lambda>r v. \<forall>x. r = Inr x \<longrightarrow> worker_is sid None pr (v\<lparr>held := h v\<rparr>)) v"
    if "worker_is sid None pr v" for v h
  proof (rule wp_mono [OF wp_worker_is [OF _ assms(1) that]])
    show "safe (worker_is sid None pr) ?rest" by (intro safe_intro) simp
  qed (simp add: worker_is_def)
  have body: "wp R (locked (LifecycleLock sid) (seq (terminate_worker sid) ?rest))
      (\<lambda>r u. \<forall>x. r = Inr x \<longrightarrow> worker_is sid None pr u) v" if "worker_is sid pr None v" for v
    by (rule wp_locked_from [OF wp_worker_is [OF safe_worker_acquire assms(1) that]],
        rule wp_seq_from [OF wp_terminate_worker [OF assms(1)]]) (use rest in auto)
  show "wp R (seq (case replay_task s of None \<Rightarrow> return ()
            | Some t \<Rightarrow> look (\<lambda>w. if t = me w then return () else seq (cancel_task t) (gather_task t)))
        (locked (LifecycleLock sid) (seq (terminate_worker sid) ?rest)))
      (\<lambda>r u. \<forall>x. r = Inr x \<longrightarrow> worker_is sid None pr u) u"
    by (rule wp_seq_from [OF wp_worker_is [OF _ assms(1) u]]) (intro safe_intro, use body in auto)
qed simp_all

subsection \<open>Stopping\<close>

lemma wp_stop:
  "wp R (stop en sid expired) (\<lambda>r u. r = Inr () \<longrightarrow> (\<exists>s. find_session u sid = Some s
     \<and> state s = (if expired then EXPIRED else STOPPED) \<and> private_data_gone s u \<and> events s \<noteq> []
     \<and> ev_type (last (events s)) = (if expired then ''session.expired'' else ''session.stopped''))) w"
  unfolding stop_def
  by (rule wp_with_session_any, rule wp_seq_any, rule wp_seq_any, rule wp_locked_any, rule wp_seq_any)
    (auto simp: wp_simps private_data_gone_def find_publish_eq new_event_def split: option.split dest!: record_event_last)

text \<open>
  C7. A stop that returns has stopped: whatever other tasks did meanwhile, the session is then
  \<open>STOPPED\<close> (or \<open>EXPIRED\<close>), its firmware image, recorded input, serial output and virtual sensor
  states are erased from its record, of its directory no more is left than the operating system
  refuses to remove, and the last event of its log says so.  If the others neither started nor took
  away a worker of the session, it has none and the one it had has exited.
\<close>

theorem stop_erases:
  assumes "ends R (stop en sid expired) w (Inr ()) w'"
  shows "\<exists>s. find_session w' sid = Some s \<and> state s = (if expired then EXPIRED else STOPPED)
    \<and> private_data_gone s w' \<and> events s \<noteq> []
    \<and> ev_type (last (events s)) = (if expired then ''session.expired'' else ''session.stopped'')
    \<and> (keeps_workers sid R \<longrightarrow> process s = None \<and> (\<forall>pid. session_worker w sid = Some pid \<longrightarrow> exited pid w'))"
proof -
  from wp_sound [OF assms wp_stop] obtain s where s: "find_session w' sid = Some s" "state s = (if expired then EXPIRED else STOPPED)"
    "private_data_gone s w'" "events s \<noteq> []"
    "ev_type (last (events s)) = (if expired then ''session.expired'' else ''session.stopped'')" by auto
  have "worker_is sid None (session_worker w sid) w'" if "keeps_workers sid R"
    using wp_sound [OF assms wp_stop_worker [OF that, of "session_worker w sid"]] by (simp add: worker_is_def)
  with s show ?thesis by (auto simp: worker_is_def session_worker_def)
qed

text \<open>A session without a worker, for the examples.\<close>

definition idle_session :: "session_state \<Rightarrow> session" where
  "idle_session st = (new_session sample_env (initial_world sample_files 0 0) tiny_board [1, 2]
     \<lparr>source_size_bytes = 2, flash_image_size = 2, source_sha256 = [], flash_sha256 = [],
       segment_count = 0, flash_mode = 0\<rparr>)\<lparr>state := st, serial_buffer := [[7]]\<rparr>"

definition idle_world :: "session_state \<Rightarrow> world" where
  "idle_world st = (initial_world sample_files 0 0)\<lparr>sessions := [(''s1'', idle_session st)]\<rparr>"

lemma idle_simps [simp]:
  "find_session (idle_world st) sid = (if sid = ''s1'' then Some (idle_session st) else None)"
  "held (idle_world st) = []" "cancels (idle_world st) = []" "me (idle_world st) = 0"
  "state (idle_session st) = st" "process (idle_session st) = None" "reader_task (idle_session st) = None"
  "trace_reader_task (idle_session st) = None" "replay_task (idle_session st) = None"
  "gdb_ref (idle_session st) = None" "debug_run_task (idle_session st) = None"
  "\<not> cancel_pending (idle_world st)" "events (idle_session st) = []" "accept_live_input (idle_session st) = True"
  "max_recording_events (cfg sample_env) = 4096" "worker_qmp_enabled (cfg sample_env)"
  by (simp_all add: idle_world_def idle_session_def initial_world_def find_session_def new_session_def
      sample_env_def sample_settings_def default_settings_def Let_def cancel_pending_def)

lemma settle_unlink_path:
  "settle (unlink_path p) w =
     (if unlink_refused (stuck w) p (files w) then (w, Ret (Inl (OSError (str_path p))))
      else (w\<lparr>files := (files w)(p := None)\<rparr>, Ret (Inr ())))"
  by (simp add: unlink_path_def unlink_missing_ok_def attempt_def)

lemma settle_recording:
  "settle (session_do sid f) w = (case find_session w sid of
     None \<Rightarrow> (w, Ret (Inl (SessionNotFoundError sid)))
   | Some s \<Rightarrow> (update_session sid (\<lambda>_. fst (f w s)) w, Ret (snd (f w s))))"
  "settle (clear_private sid) w = (update_session sid clear_private_session_data w, Ret (Inr ()))"
  "settle (publish_now sid item) w = (publish sid item w, Ret (Inr ()))"
  "settle (remove_session_files sid) w = (case find_session w sid of
     None \<Rightarrow> (w, Ret (Inl (SessionNotFoundError sid)))
   | Some s \<Rightarrow> (w\<lparr>files := rmtree (stuck w) (runtime_directory s) (files w)\<rparr>, Ret (Inr ())))"
  by (simp_all add: session_do_def clear_private_def publish_now_def remove_session_files_def run_simps
      split: option.split prod.split)

text \<open>
  A suspended task that another step of the others lets go on.  In the example the session's worker
  exits while \<open>stop\<close> waits for it.
\<close>

lemma ends_resumed:
  assumes "settle p w = (u, q)" "runnable q v" "R u v" "resume q i v = (w', Ret r)"
  shows "ends R p w r w'"
proof (rule ends_settle [OF assms(1)])
  obtain b g where q: "q = Await b g" "b v" using assms(2) by (cases q) auto
  obtain x p' where g: "g i v = (x, p')" by (cases "g i v")
  then have "ends R p' x r w'" using assms(4) q by (auto intro: ends_settled)
  with g show "ends R q u r w'" unfolding q(1) by (intro ends_Await [where u = v and i = i]) (use assms(3) q in auto)
qed

definition working_world :: world where
  "working_world = (idle_world RUNNING)\<lparr>sessions := [(''s1'', (idle_session RUNNING)\<lparr>process := Some 5\<rparr>)],
     procs := (\<lambda>_. None)(5 \<mapsto> quiet_worker)\<rparr>"

definition worker_exits :: "world \<Rightarrow> world" where
  "worker_exits = update_worker 5 (\<lambda>k. k\<lparr>returncode := Some 0\<rparr>)"

lemma keeps_exits: "keeps_workers sid (\<lambda>u v. v = worker_exits u)"
  by (auto simp: keeps_workers_def worker_exits_def exited_def update_worker_def session_worker_def find_session_def
      split: option.splits)

theorem stop_erases_witness:
  "\<exists>w' s. find_session w' ''s1'' = Some s \<and> state s = STOPPED \<and> private_data_gone s w' \<and> exited 5 w'"
proof -
  have "\<exists>u q w'. settle (stop sample_env ''s1'' False) working_world = (u, q) \<and> runnable q (worker_exits u)
      \<and> resume q sample_input (worker_exits u) = (w', Ret (Inr ()))"
    by (simp add: stop_def terminate_worker_def close_debugger_def locked_def acquire_def working_world_def
        release_def run_simps settle_recording record_ev_def record_event_room to_result_def join_other_def find_publish_eq
        stop_process_def exited_def worker_exits_def update_worker_def quiet_worker_def find_session_def [of "sessions_update _ _"])
  then obtain u q w' where r: "settle (stop sample_env ''s1'' False) working_world = (u, q)" "runnable q (worker_exits u)"
    "resume q sample_input (worker_exits u) = (w', Ret (Inr ()))" by blast
  have "ends (\<lambda>u v. v = worker_exits u) (stop sample_env ''s1'' False) working_world (Inr ()) w'"
    by (rule ends_resumed [OF r(1,2) refl r(3)])
  from stop_erases [OF this] keeps_exits show ?thesis
    by (auto simp: session_worker_def working_world_def find_session_def)
qed

subsection \<open>The end of a replay\<close>

definition replay_over :: "string \<Rightarrow> exn + unit \<Rightarrow> world \<Rightarrow> bool" where
  "replay_over sid r u \<longleftrightarrow> (\<forall>s. find_session u sid = Some s \<longrightarrow>
     accept_live_input s \<and> replay_task s \<noteq> Some (me u) \<and> events s \<noteq> []
     \<and> ev_type (last (events s)) = ''replay.'' @ replay_status s
     \<and> (case r of Inr _ \<Rightarrow> replay_status s \<in> {''completed'', ''failed''}
        | Inl e \<Rightarrow> e = CancelledError \<and> replay_status s = ''cancelled''))"

lemma replay_handlers:
  assumes "1 \<le> max_recording_events (cfg en)"
  shows "wp R (if e = CancelledError
         then seq (on_session sid (\<lambda>s. s\<lparr>replay_status := ''cancelled'', replay_error := None\<rparr>))
           (seq (record_ev en sid Replay ''replay.cancelled'' Service no_data) (raising e))
         else replay_failed en sid)
       (\<lambda>r u. wp R (session_do sid (\<lambda>w s. (s\<lparr>accept_live_input := True,
          replay_task := (if replay_task s = Some (me w) then None else replay_task s)\<rparr>, Inr ())))
         (\<lambda>r' v. case r' of Inl x \<Rightarrow> replay_over sid (Inl x) v | Inr y \<Rightarrow> replay_over sid r v) u) w"
  using assms
  by (auto simp: wp_simps replay_failed_def replay_over_def record_event_recorded new_event_def
      split: option.split)

definition completed_replay :: "string \<Rightarrow> exn + unit \<Rightarrow> world \<Rightarrow> bool" where
  "completed_replay sid r u \<longleftrightarrow> (\<forall>x s. r = Inr x \<longrightarrow> find_session u sid = Some s \<longrightarrow>
     replay_status s = ''completed'' \<and> events s \<noteq> [] \<and> ev_type (last (events s)) = ''replay.completed'')"

lemma replay_body_completes:
  assumes "1 \<le> max_recording_events (cfg en)"
  shows "wp R (replay_body en sid actions speed) (completed_replay sid) w"
  unfolding replay_body_def
  by (rule wp_seq_any, rule wp_seq_any, rule wp_seq_any, rule wp_seq_any)
    (use assms in \<open>auto simp: wp_simps completed_replay_def record_event_recorded new_event_def split: option.split\<close>)

text \<open>
  C13. A replay that has begun never leaves a session deaf: however it ends, whatever other tasks did
  meanwhile, live input is accepted again, the session no longer names the replay task, its status
  says how the replay ended (cancelled exactly when the task was cancelled), and the last event
  of the log is the one of that status.  A replay task that is cancelled before its first step, as
  a stop right after the request does, runs none of this: its only turn ends it and leaves every
  session as it was, status \<open>queued\<close> and live input off.
\<close>

theorem replay_gives_input_back:
  assumes "ends R (run_replay en sid actions speed) w r w'" "1 \<le> max_recording_events (cfg en)"
    and "find_session w' sid = Some s"
  shows "accept_live_input s \<and> replay_task s \<noteq> Some (me w')
     \<and> (r = Inr () \<and> replay_status s \<in> {''completed'', ''failed''}
        \<or> r = Inl CancelledError \<and> replay_status s = ''cancelled'')
     \<and> events s \<noteq> [] \<and> ev_type (last (events s)) = ''replay.'' @ replay_status s
     \<and> (map_of (spawned (world_of sys)) t = Some (RunReplay sid actions speed) \<longrightarrow> t \<in> set (cancels (world_of sys)) \<longrightarrow>
          sessions (world_of (apply_event en (Begin t i) sys)) = sessions (world_of sys)
          \<and> is_done t (world_of (apply_event en (Begin t i) sys))
          \<and> map_of (spawned (world_of (apply_event en (Begin t i) sys))) t = None)"
proof -
  have "wp R (run_replay en sid actions speed) (replay_over sid) w"
    unfolding run_replay_def wp_simps(7-9) wp_session sum.case
  proof (rule wp_mono [OF replay_body_completes [OF assms(2)]])
    fix r u
    assume c: "completed_replay sid r u"
    show "case r of Inl e \<Rightarrow> wp R (if e = CancelledError
           then seq (on_session sid (\<lambda>s. s\<lparr>replay_status := ''cancelled'', replay_error := None\<rparr>))
             (seq (record_ev en sid Replay ''replay.cancelled'' Service no_data) (raising e))
           else replay_failed en sid)
         (\<lambda>r u. wp R (session_do sid (\<lambda>w s. (s\<lparr>accept_live_input := True,
            replay_task := (if replay_task s = Some (me w) then None else replay_task s)\<rparr>, Inr ())))
           (\<lambda>r' v. case r' of Inl x \<Rightarrow> replay_over sid (Inl x) v | Inr y \<Rightarrow> replay_over sid r v) u) u
       | Inr x \<Rightarrow> wp R (session_do sid (\<lambda>w s. (s\<lparr>accept_live_input := True,
            replay_task := (if replay_task s = Some (me w) then None else replay_task s)\<rparr>, Inr ())))
           (\<lambda>r' v. case r' of Inl y \<Rightarrow> replay_over sid (Inl y) v | Inr y \<Rightarrow> replay_over sid (Inr x) v) u"
    proof (cases r)
      case (Inl e)
      show ?thesis unfolding Inl sum.case by (rule replay_handlers [OF assms(2)])
    next
      case (Inr x)
      then show ?thesis using c by (simp add: replay_over_def completed_replay_def split: option.split)
    qed
  qed
  from wp_sound [OF assms(1) this] assms(3) have over: "accept_live_input s \<and> replay_task s \<noteq> Some (me w')
     \<and> (r = Inr () \<and> replay_status s \<in> {''completed'', ''failed''}
        \<or> r = Inl CancelledError \<and> replay_status s = ''cancelled'')
     \<and> events s \<noteq> [] \<and> ev_type (last (events s)) = ''replay.'' @ replay_status s"
    by (auto simp: replay_over_def split: sum.splits)
  have "map_of (without t xs) t = None" for xs :: "(nat \<times> task_code) list"
    by (simp add: without_def map_of_eq_None_iff image_iff)
  then have "sessions (world_of (apply_event en (Begin t i) sys)) = sessions (world_of sys)
      \<and> is_done t (world_of (apply_event en (Begin t i) sys))
      \<and> map_of (spawned (world_of (apply_event en (Begin t i) sys))) t = None"
    if "map_of (spawned (world_of sys)) t = Some (RunReplay sid actions speed)" "t \<in> set (cancels (world_of sys))"
    using that by (simp add: end_task_def begin_turn_def is_done_def Let_def)
  with over show ?thesis by blast
qed

text \<open>A replay whose directory cannot be made fails at once.\<close>

definition blocked_world :: world where
  "blocked_world = (idle_world RUNNING)\<lparr>files := (\<lambda>_. Some \<lparr>kind = Regular [], mode = 0, uid = 0, gid = 0\<rparr>)\<rparr>"

definition cancelled_system :: system where
  "cancelled_system = \<lparr>world_of = (idle_world RUNNING)\<lparr>spawned := [(1, RunReplay ''s1'' [] NaN)], cancels := [1]\<rparr>, pool = []\<rparr>"

theorem replay_gives_input_back_witness:
  "(\<exists>w' s. find_session w' ''s1'' = Some s \<and> accept_live_input s \<and> replay_status s = ''failed'')
   \<and> sessions (world_of (apply_event sample_env (Begin 1 sample_input) cancelled_system)) = sessions (world_of cancelled_system)"
proof -
  have "\<exists>w'. settle (run_replay sample_env ''s1'' [] NaN) blocked_world = (w', Ret (Inr ()))
      \<and> (\<exists>s. find_session w' ''s1'' = Some s \<and> replay_status s = ''failed'')"
    by (simp add: run_replay_def replay_body_def replay_prepare_def terminate_worker_def close_debugger_def
        run_simps settle_recording record_ev_def record_event_room to_result_def join_other_def
        restore_flash_def blocked_world_def attempt_def replay_failed_def is_directory_def follow_def)
  then obtain w' s where w: "settle (run_replay sample_env ''s1'' [] NaN) blocked_world = (w', Ret (Inr ()))"
    and s: "find_session w' ''s1'' = Some s" "replay_status s = ''failed''" by blast
  have "1 \<le> max_recording_events (cfg sample_env)" by simp
  from replay_gives_input_back [OF ends_settled [OF w, of "\<lambda>u v. True"] this s(1), of cancelled_system 1 sample_input] s
  show ?thesis by (auto simp: cancelled_system_def simp del: apply_event.simps)
qed

subsection \<open>Launching and powering on\<close>

lemma wp_startup_check:
  "wp R (startup_check en sid pid) (\<lambda>r u. r = Inr () \<longrightarrow>
     (\<exists>s. find_session u sid = Some s \<and> process s = Some pid \<and> \<not> exited pid u)) w"
  unfolding startup_check_def
  by (rule wp_seq_any) (auto simp: wp_simps split: option.split)

text \<open>
  C10. A worker is only ever reported as running when it runs: a launch that returns, whatever other
  tasks did while it waited, leaves the session \<open>RUNNING\<close> with a worker process that has not
  exited.
\<close>

theorem launch_runs:
  assumes "ends R (launch en sid) w (Inr ()) w'"
  shows "\<exists>s pid. find_session w' sid = Some s \<and> state s = RUNNING \<and> process s = Some pid \<and> \<not> exited pid w'"
proof -
  let ?Q = "\<lambda>r u. r = Inr () \<longrightarrow> (\<exists>s pid. find_session u sid = Some s \<and> state s = RUNNING
      \<and> process s = Some pid \<and> \<not> exited pid u)"
  have checked: "wp R (on_error (startup_check en sid pid) (\<lambda>e.
            if is_qmp_error e \<or> is_worker_unavailable e
            then seq (terminate_worker sid)
              (raising (WorkerUnavailableError ''simulator worker failed its startup readiness check''))
            else raising e)) (\<lambda>r u. r = Inr () \<longrightarrow>
       (\<exists>s. find_session u sid = Some s \<and> process s = Some pid \<and> \<not> exited pid u)) u" for pid u
    by (rule wp_on_error [OF wp_startup_check]) (auto simp: wp_simps(2) intro!: wp_seq_any)
  have "wp R (seq (on_error (startup_check en sid pid) (\<lambda>e.
            if is_qmp_error e \<or> is_worker_unavailable e
            then seq (terminate_worker sid)
              (raising (WorkerUnavailableError ''simulator worker failed its startup readiness check''))
            else raising e)) (on_session sid (\<lambda>s. s\<lparr>state := RUNNING\<rparr>))) ?Q u" for pid u
    by (rule wp_seq_from [OF checked]) (auto simp: exited_def)
  then have "wp R (launch en sid) ?Q w"
    unfolding launch_def
    by (intro wp_seq_any [where p = "validate_config en"] wp_seq_any [where p = "on_session _ _"]
        wp_seq_any [where p = "spawn _ _"] wp_seq_any [where p = "look _"] wp_then_do_any) simp_all
  from wp_sound [OF assms this] show ?thesis by simp
qed

subsection \<open>Only cancellation stops a termination\<close>

definition calm :: "string \<Rightarrow> exn + 'a \<Rightarrow> world \<Rightarrow> bool" where
  "calm sid r u \<longleftrightarrow> (\<forall>e. r = Inl e \<longrightarrow> e = CancelledError \<or> e = SessionNotFoundError sid \<and> find_session u sid = None)"

lemma calm_Inr [simp]: "calm sid (Inr x) u"
  by (simp add: calm_def)

lemma wp_calm_seq:
  "(\<And>u. wp R p (calm sid) u) \<Longrightarrow> (\<And>u. wp R q (calm sid) u) \<Longrightarrow> wp R (seq p q) (calm sid) w"
  unfolding wp_simps by (rule wp_mono, assumption) (auto simp: calm_def split: sum.split)

lemma wp_calm_then_do:
  "(\<And>u. wp R p (calm sid) u) \<Longrightarrow> (\<And>x u. wp R (f x) (calm sid) u) \<Longrightarrow> wp R (then_do p f) (calm sid) w"
  unfolding wp_simps by (rule wp_mono, assumption) (auto simp: calm_def split: sum.split)

lemma wp_calm_session: "(\<And>s. wp R (f s) (calm sid) w) \<Longrightarrow> wp R (with_session sid f) (calm sid) w"
  by (auto simp: calm_def split: option.split)

lemma wp_calm_suspend: "(\<And>i u x. snd (f i u) \<noteq> Inl x) \<Longrightarrow> wp R (suspend b f) (calm sid) w"
  unfolding wp_suspend by (auto simp: calm_def)

lemma calm_process [simp]:
  "wp R (wait_process pid) (calm sid) w" "wp R (gdb_close g) (calm sid) w"
  unfolding wait_process_def gdb_close_def by (rule wp_calm_suspend; simp)+

lemma calm_gather [simp]: "wp R (gather_task t) (calm sid) w"
  by (simp add: gather_task_def calm_def)

lemma calm_stop_process: "wp R (stop_process pid) (calm sid) w"
proof -
  have "wp R (on_error (suspend (\<lambda>w. True) (\<lambda>i w. (w, if exited pid w then Inr () else Inl TimeoutError)))
         (\<lambda>e. if e = TimeoutError
              then seq (change (update_worker pid (\<lambda>k. k\<lparr>killed := True\<rparr>)))
                (then_do (wait_process pid) (\<lambda>_. return ()))
              else raising e)) (calm sid) u" for u
  proof -
    have "wp R (seq (change (update_worker pid (\<lambda>k. k\<lparr>killed := True\<rparr>)))
                (then_do (wait_process pid) (\<lambda>_. return ()))) (calm sid) v" for v
      by (intro wp_calm_seq wp_calm_then_do) (simp_all add: wp_simps)
    then show ?thesis by (simp add: wp_simps(8) wp_suspend calm_def [of _ "Inl CancelledError"] wp_simps(2))
  qed
  then show ?thesis unfolding stop_process_def wp_simps(4)
    by (simp add: wp_simps(1)) (intro impI wp_calm_seq, simp_all add: wp_simps)
qed

lemma calm_join: "wp R (join_other t) (calm sid) w"
  by (simp add: join_other_def wp_simps split: option.split)

lemma calm_terminate: "wp R (terminate_worker sid) (calm sid) w"
  unfolding terminate_worker_def close_debugger_def
  by (intro wp_calm_seq wp_calm_session)
    (auto simp: wp_simps calm_stop_process calm_join cancel_task_def calm_def split: option.split intro!: wp_calm_seq)

definition no_qmp_env :: env where
  "no_qmp_env = sample_env\<lparr>cfg := sample_settings\<lparr>worker_qmp_enabled := False\<rparr>\<rparr>"

lemma no_qmp_simps [simp]:
  "worker_qmp_enabled (cfg no_qmp_env) = False" "max_recording_events (cfg no_qmp_env) = 4096"
  "worker_sandbox_mode (cfg no_qmp_env) \<noteq> OCI_BROKER"
  by (simp_all add: no_qmp_env_def sample_env_def sample_settings_def default_settings_def)

lemma sample_config_valid: "validate_worker_config sample_files (worker_config (cfg no_qmp_env)) = Inr ()"
  by (simp add: validate_worker_config_def worker_config_def sample_settings_def default_settings_def no_qmp_env_def
      sample_env_def is_file_def is_directory_def access_x_def follow_def sample_files_def)

lemma sample_command: "\<exists>argv. local_command no_qmp_env s = Inr argv"
  by (simp add: local_command_def build_qemu_command_def worker_config_def no_qmp_env_def sample_env_def
      sample_settings_def default_settings_def Let_def)

theorem launch_runs_witness:
  "\<exists>w' s. find_session w' ''s1'' = Some s \<and> state s = RUNNING"
proof -
  obtain argv where "local_command no_qmp_env (idle_session STARTING) = Inr argv"
    using sample_command by blast
  then obtain request where a: "launch_request no_qmp_env (idle_session STARTING) = Inr request"
    by (simp add: launch_request_def local_worker_def)
  have f: "files (idle_world STARTING) = sample_files" by (simp add: idle_world_def initial_world_def)
  have "\<exists>w'. alone [sample_input] (settle (launch no_qmp_env ''s1'') (idle_world STARTING)) = (w', Ret (Inr ()))"
    by (simp add: launch_def validate_config_def start_process_def log_launch_def attempt_def new_worker_def startup_check_def spawn_def
        run_simps a f sample_config_valid sample_input_def quiet_worker_def exited_def)
  then obtain w' where "alone [sample_input] (settle (launch no_qmp_env ''s1'') (idle_world STARTING)) = (w', Ret (Inr ()))"
    by blast
  from launch_runs [OF ends_alone [OF this]] show ?thesis by blast
qed

text \<open>Powering on, once the lock is taken and the guards have passed.\<close>

definition runtime_paths :: "session \<Rightarrow> path set" where
  "runtime_paths s = {qmp_socket_path s, gdb_socket_path s, child (runtime_directory s) ''framebuffer.ppm''}"

definition unlink_failed :: "session \<Rightarrow> exn \<Rightarrow> world \<Rightarrow> bool" where
  "unlink_failed s e w \<longleftrightarrow> (\<exists>p\<in>runtime_paths s. unlink_refused (stuck w) p (files w) \<and> e = OSError (str_path p))"

lemma wp_unlink_runtime_files:
  assumes "find_session w sid = Some s0" "\<And>u. Q (Inr ()) u"
    and "\<And>e u. find_session u sid = Some s0 \<Longrightarrow> unlink_failed s0 e u \<Longrightarrow> Q (Inl e) u"
  shows "wp R (unlink_runtime_files sid) Q w"
  unfolding unlink_runtime_files_def wp_session assms(1) option.case wp_simps(7) wp_unlink_path
  by (auto simp: assms(1,2) unlink_failed_def runtime_paths_def intro!: assms(3))

lemma wp_power_on_worker:
  assumes "find_session w sid = Some s0"
  shows "wp R (power_on_worker en sid) (\<lambda>r u. \<forall>e s. r = Inl e \<longrightarrow> is_exception e \<longrightarrow> find_session u sid = Some s \<longrightarrow>
     state s = FAILED \<and> private_data_gone s u \<or> s = s0 \<and> unlink_failed s e u) w"
proof -
  let ?Q = "\<lambda>r u. \<forall>e s. r = Inl e \<longrightarrow> is_exception e \<longrightarrow> find_session u sid = Some s \<longrightarrow>
     state s = FAILED \<and> private_data_gone s u \<or> s = s0 \<and> unlink_failed s e u"
  let ?tail = "\<lambda>e. seq (on_session sid (\<lambda>s. s\<lparr>state := FAILED\<rparr>)) (seq (clear_private sid)
      (seq (remove_session_files sid) (seq (publish_now sid None) (raising e))))"
  have tail: "wp R (?tail e) ?Q u" for e :: exn and u
    by (auto simp: wp_simps private_data_gone_def find_publish_eq split: option.split)
  have after: "wp R (seq (terminate_worker sid) (?tail e)) ?Q u" for e :: exn and u
    unfolding wp_simps(7) [of R "terminate_worker sid"]
    by (rule wp_mono [OF calm_terminate]) (use tail in \<open>auto simp: calm_def split: sum.split\<close>)
  have handler: "wp R (if is_exception e then seq (terminate_worker sid) (?tail e) else raising e) ?Q u" for e and u
  proof (cases "is_exception e")
    case True
    then show ?thesis using after by (simp only: if_True)
  qed (simp add: wp_simps(2))
  have main: "wp R (on_error (seq (launch en sid) (restore_virtual_environment en sid))
      (\<lambda>e. if is_exception e then seq (terminate_worker sid) (?tail e) else raising e)) ?Q u" for u
    by (rule wp_on_error_any) (simp, rule handler)
  show ?thesis
    unfolding power_on_worker_def wp_simps(7) [of R "unlink_runtime_files sid"]
    by (rule wp_unlink_runtime_files [OF assms])
      (simp_all only: sum.case wp_simps(7) [of R "change _"] wp_simps(3) main simp_thms, simp)
qed

lemma wp_offset_then [simp]:
  "wp R (offset_then sid f) Q w = (case find_session w sid of
     None \<Rightarrow> Q (Inl (SessionNotFoundError sid)) w | Some s \<Rightarrow> wp R (f (now_offset_ms w s)) Q w)"
  by (simp add: offset_then_def wp_simps)

lemma append_replay_action_works: "1 \<le> max_recording_events st \<Longrightarrow> \<exists>s'. append_replay_action st a s = Inr s'"
  by (auto simp: append_replay_action_def bounded_push_def split: list.split)

lemma wp_append_act:
  assumes "1 \<le> max_recording_events (cfg en)" "\<And>u. Q (Inr ()) u"
    and "find_session w sid = None \<Longrightarrow> Q (Inl (SessionNotFoundError sid)) w"
  shows "wp R (append_act en sid a) Q w"
proof (cases "find_session w sid")
  case (Some s)
  then show ?thesis using append_replay_action_works [OF assms(1), of a s] assms(2) by (auto simp: append_act_def)
qed (simp add: append_act_def assms(3))

text \<open>
  C18. A session that cannot be powered on is failed and forgotten: when the handler raises an
  exception, whatever other tasks did meanwhile, the session is \<open>FAILED\<close> and nothing private is left of
  it, in memory or, save for what the operating system refuses to remove, on disk.  There are only
  two kinds of exception.  A refusal: live input is off or the session is not powered off, and then
  the error says so.  And, before the worker is asked for, a left-over socket or screen
  file that cannot be unlinked: then the session stays powered off and is not forgotten.
\<close>

theorem power_on_failure_erases:
  assumes "ends R (power_on en sid) w (Inl e) w'" "is_exception e" "1 \<le> max_recording_events (cfg en)"
    and "find_session w' sid = Some s"
  shows "state s = FAILED \<and> private_data_gone s w'
    \<or> \<not> accept_live_input s \<and> e = RuntimeError ''live input is disabled while a replay is running''
    \<or> state s \<noteq> POWERED_OFF \<and> e = transition_error ''power on'' (state s)
    \<or> state s = POWERED_OFF \<and> unlink_failed s e w'"
proof -
  let ?D = "\<lambda>e s u. state s = FAILED \<and> private_data_gone s u
    \<or> \<not> accept_live_input s \<and> e = RuntimeError ''live input is disabled while a replay is running''
    \<or> state s \<noteq> POWERED_OFF \<and> e = transition_error ''power on'' (state s)
    \<or> state s = POWERED_OFF \<and> unlink_failed s e u"
  let ?Q = "\<lambda>r u. \<forall>e s. r = Inl e \<longrightarrow> is_exception e \<longrightarrow> find_session u sid = Some s \<longrightarrow> ?D e s u"
  let ?rec = "\<lambda>t. seq (append_act en sid \<lparr>ra_offset_ms = t, ra_action = PowerOnAction\<rparr>)
         (record_ev en sid Control ''session.powered_on'' User no_data)"
  have held: "?Q r u \<Longrightarrow> ?Q r (u\<lparr>held := h\<rparr>)" for r :: "exn + unit" and u h
    by (simp add: private_data_gone_def unlink_failed_def)
  have recorded: "wp R (?rec t) ?Q u" for t u
    unfolding wp_simps(7)
    by (rule wp_append_act [OF assms(3)]) (auto simp: record_event_recorded [OF assms(3)] split: option.split)
  have on: "wp R (seq (power_on_worker en sid) (?rec t)) ?Q u" if "find_session u sid = Some s0" "state s0 = POWERED_OFF" for u s0 t
    unfolding wp_simps(7) [of R "power_on_worker en sid"]
    by (rule wp_mono [OF wp_power_on_worker [OF that(1)]]) (use recorded that(2) in \<open>auto split: sum.split\<close>)
  have body: "wp R (with_session sid (\<lambda>s. seq (require_live_input s)
     (seq (guard (state s = POWERED_OFF) (transition_error ''power on'' (state s)))
     (offset_then sid (\<lambda>t. seq (power_on_worker en sid) (?rec t)))))) ?Q u" for u
    using on by (auto simp: wp_simps(7) [of R "require_live_input _"] wp_simps(7) [of R "guard _ _"] require_live_input_def split: option.split)
  have "wp R (power_on en sid) ?Q w"
  proof (cases "find_session w sid")
    case (Some s)
    show ?thesis unfolding power_on_def wp_session Some option.case
      by (rule wp_locked_calm, rule wp_mono [OF body], rule held) simp_all
  qed (simp add: power_on_def)
  from wp_sound [OF assms(1) this] assms(2,4) show ?thesis by blast
qed


text \<open>The example: an executable that is missing.\<close>

theorem power_on_failure_erases_witness:
  "\<exists>w' s. find_session w' ''s1'' = Some s \<and> state s = FAILED \<and> private_data_gone s w'"
proof -
  let ?w = "(idle_world POWERED_OFF)\<lparr>files := (\<lambda>_. None)\<rparr>"
  have v: "validate_worker_config fs (worker_config (cfg sample_env)) = Inl (FileNotFoundError (''QEMU executable not found: '' @ str_path (Abs [''qemu''])))"
    if "fs (Abs [''qemu'']) = None" for fs
    using that by (simp add: validate_worker_config_def worker_config_def sample_settings_def default_settings_def
      sample_env_def is_file_def follow_def)
  have "\<exists>w' e s. settle (power_on sample_env ''s1'') ?w = (w', Ret (Inl e)) \<and> is_exception e
      \<and> find_session w' ''s1'' = Some s \<and> accept_live_input s \<and> state s = FAILED
      \<and> e = FileNotFoundError (''QEMU executable not found: '' @ str_path (Abs [''qemu'']))"
    by (simp add: power_on_def locked_def acquire_def release_def require_live_input_def offset_then_def
        power_on_worker_def unlink_runtime_files_def settle_unlink_path unlink_refused_def launch_def validate_config_def
        terminate_worker_def close_debugger_def run_simps settle_recording join_other_def power_on_reset_def
        clear_serial_buffer_def v find_publish_eq clear_private_session_data_def)
  then obtain w' e s where w: "settle (power_on sample_env ''s1'') ?w = (w', Ret (Inl e))" "is_exception e"
    and s: "find_session w' ''s1'' = Some s" "accept_live_input s" "state s = FAILED"
    and e: "e = FileNotFoundError (''QEMU executable not found: '' @ str_path (Abs [''qemu'']))" by blast
  have "1 \<le> max_recording_events (cfg sample_env)" by simp
  from power_on_failure_erases [OF ends_settled [OF w(1), of "\<lambda>u v. True"] w(2) this s(1)] s
  have "private_data_gone s w'" by (auto simp: e transition_error_def)
  then show ?thesis using s by blast
qed

end
