(* ===== verification/Session_Guards.thy ===== *)
theory Session_Guards
  imports Session_Outcomes
begin

section \<open>Guards of the session operations and the paging of events\<close>

text \<open>
  What the operations refuse at once: the wrong state, live input during a replay, a full service.
  Then the paging of the event log, and schedules that the guards do not cover.
\<close>

subsection \<open>Refusals\<close>

definition live_input_error :: exn where
  "live_input_error = RuntimeError ''live input is disabled while a replay is running''"

lemma removeAll_fresh: "l \<notin> set ls \<Longrightarrow> removeAll l (l # ls) = ls"
  by simp

lemma held_restored: "w\<lparr>held := held w\<rparr> = w" "w\<lparr>held := x, held := held w\<rparr> = w"
  by simp_all

lemmas guard_defs = pause_def resume_session_def reset_def power_off_def power_on_def require_live_input_def
  require_qmp_def locked_def acquire_def release_def

text \<open>
  The state machine refuses what the state does not allow, at once and without a trace: with the
  locks free, pausing a session that is not running, resuming one that is not paused, resetting or
  powering off one that is neither, and powering on one that is not powered off raise the
  transition error of that state and leave the world as it was, so nothing reaches the worker.
\<close>

theorem wrong_state_refused:
  assumes "find_session w sid = Some s" "accept_live_input s" "worker_qmp_enabled (cfg en)"
    and "QmpLock sid \<notin> set (held w)" "LifecycleLock sid \<notin> set (held w)"
  shows "(state s \<noteq> RUNNING \<longrightarrow> settle (pause en sid) w = (w, Ret (Inl (transition_error ''pause'' (state s)))))
    \<and> (state s \<noteq> PAUSED \<longrightarrow> settle (resume_session en sid) w = (w, Ret (Inl (transition_error ''resume'' (state s)))))
    \<and> (state s \<notin> {RUNNING, PAUSED} \<longrightarrow> settle (reset en sid) w = (w, Ret (Inl (transition_error ''reset'' (state s)))))
    \<and> (state s \<notin> {RUNNING, PAUSED} \<longrightarrow> settle (power_off en sid) w = (w, Ret (Inl (transition_error ''power off'' (state s)))))
    \<and> (state s \<noteq> POWERED_OFF \<longrightarrow> settle (power_on en sid) w = (w, Ret (Inl (transition_error ''power on'' (state s)))))"
  using assms by (intro conjI impI; simp add: guard_defs run_simps)

theorem wrong_state_refused_witness:
  "settle (pause sample_env ''s1'') (idle_world PAUSED)
     = (idle_world PAUSED, Ret (Inl (SessionTransitionError ''cannot pause session in paused state'')))"
  using wrong_state_refused [of "idle_world PAUSED" "''s1''" "idle_session PAUSED" sample_env]
  by (simp add: transition_error_def)

lemma live_input_refused:
  assumes "find_session w sid = Some s" "\<not> accept_live_input s" "LifecycleLock sid \<notin> set (held w)"
    and "req \<in> {PauseSession sid, ResumeSession sid, ResetSession sid, PowerOffSession sid, PowerOnSession sid,
      WriteSerial sid payload, SendKey sid key pressed, SendButton sid key pressed, SetImu sid a v,
      SetPower sid b m c}"
  shows "settle (request_body en req) w = (w, Ret (Inl live_input_error))"
  using assms
  by (auto simp: guard_defs run_simps live_input_error_def write_serial_def send_key_def send_button_def
      set_imu_sample_def set_power_state_def require_board_input_def)

lemma start_replay_started:
  assumes "settle (start_replay en sid speed) w = (w', Ret (Inr ()))"
  shows "\<exists>s. find_session w' sid = Some s \<and> \<not> accept_live_input s \<and> replay_status s = ''queued''
    \<and> (\<exists>t actions. replay_task s = Some t \<and> (t, RunReplay sid actions speed) \<in> set (spawned w'))"
proof -
  have r: "to_result x = (fst x, case snd x of None \<Rightarrow> Inr () | Some e \<Rightarrow> Inl e)" for x :: "session \<times> exn option"
    by (simp add: to_result_def split: prod.split option.split)
  show ?thesis using assms
    by (auto simp: start_replay_def spawn_def run_simps record_ev_def settle_recording r
        split: option.splits if_splits)
qed

text \<open>
  C24. A request that arrives while a session's live input is off reaches nothing: with the lifecycle
  lock free, every live input and every control operation raises the live input error at once and
  leaves the world as it was.  A replay puts it off in the very step that accepts the replay: when
  \<open>start_replay\<close> returns, the replay task exists, the flag is down, and all these requests are refused
  so.  (A request that passed the guard before and waits for the worker's lock is not called back,
  see \<open>waiting_input_overtaken\<close>.)
\<close>

theorem live_input_refused_during_replay:
  assumes "req \<in> {PauseSession sid, ResumeSession sid, ResetSession sid, PowerOffSession sid, PowerOnSession sid,
      WriteSerial sid payload, SendKey sid key pressed, SendButton sid key pressed, SetImu sid a v,
      SetPower sid b m c}"
    and "LifecycleLock sid \<notin> set (held w)"
  shows "(find_session w sid = Some s \<longrightarrow> \<not> accept_live_input s \<longrightarrow>
       settle (request_body en req) w = (w, Ret (Inl live_input_error)))
    \<and> (settle (start_replay en sid speed) w0 = (w, Ret (Inr ())) \<longrightarrow>
       settle (request_body en req) w = (w, Ret (Inl live_input_error))
       \<and> (\<exists>s t actions. find_session w sid = Some s \<and> replay_task s = Some t \<and> \<not> accept_live_input s
            \<and> (t, RunReplay sid actions speed) \<in> set (spawned w)))"
  using live_input_refused [OF _ _ assms(2,1)] by (blast dest: start_replay_started)

definition replaying_world :: world where
  "replaying_world = (initial_world sample_files 0 0)\<lparr>sessions :=
     [(''s1'', (idle_session RUNNING)\<lparr>accept_live_input := False\<rparr>)]\<rparr>"

theorem live_input_refused_during_replay_witness:
  "settle (write_serial sample_env ''s1'' [65]) replaying_world = (replaying_world, Ret (Inl live_input_error))"
proof -
  have "find_session replaying_world ''s1'' = Some ((idle_session RUNNING)\<lparr>accept_live_input := False\<rparr>)"
    "LifecycleLock ''s1'' \<notin> set (held replaying_world)"
    by (simp_all add: replaying_world_def find_session_def initial_world_def)
  from live_input_refused_during_replay [of "WriteSerial ''s1'' [65]" "''s1''" "[65]", OF _ this(2)] this(1) show ?thesis
    by simp
qed

subsection \<open>Paging the event log\<close>

lemma filter_after_last:
  assumes "sorted_wrt (\<lambda>x y. f x < (f y :: int)) (ys @ zs)" "ys \<noteq> []"
  shows "filter (\<lambda>x. f (last ys) < f x) (ys @ zs) = zs"
proof -
  from assms(2) obtain us u where ys: "ys = us @ [u]" by (metis rev_exhaust)
  with assms(1) show ?thesis by (force simp: sorted_wrt_append filter_empty_conv intro: filter_True)
qed

lemma filter_upt_greater: "sorted_wrt (\<lambda>x y. ev_sequence x < ev_sequence y) xs \<Longrightarrow>
    sorted_wrt (\<lambda>x y. int (ev_sequence x) < int (ev_sequence y)) (filter P xs)"
  by (induction xs) auto

text \<open>
  Paging loses and repeats nothing: from any cursor, the page returned and what lies beyond its
  \<open>next_after\<close> are together exactly the events after the cursor, in order; a page is at most the
  configured size and is empty only at the end; and the truncation flag is set exactly when an
  event after the cursor has been dropped.
\<close>

theorem paging_complete:
  assumes "map ev_sequence (events s) = [Suc (events_dropped s)..<next_event_sequence s]"
    and "1 \<le> max_event_page_size st" "events s \<noteq> []"
  shows "filter (\<lambda>e. after < int (ev_sequence e)) (events s)
       = page_events st s after lim @ filter (\<lambda>e. next_after st s after lim < int (ev_sequence e)) (events s)
    \<and> int (length (page_events st s after lim)) \<le> max_event_page_size st
    \<and> (page_events st s after lim = [] \<longleftrightarrow> (\<forall>e\<in>set (events s). int (ev_sequence e) \<le> after))
    \<and> (cursor_truncated s after \<longleftrightarrow> after < int (events_dropped s))"
proof -
  let ?F = "filter (\<lambda>e. after < int (ev_sequence e)) (events s)"
  define n where "n = nat (bounded_limit st lim)"
  have n: "1 \<le> n" "int n \<le> max_event_page_size st" using assms(2) by (simp_all add: n_def bounded_limit_def)
  have page: "page_events st s after lim = take n ?F"
    using n(1) by (auto simp: page_events_def slice_to_def n_def)
  have "sorted_wrt (<) (map ev_sequence (events s))" unfolding assms(1) by (rule sorted_wrt_upt)
  then have sorted: "sorted_wrt (\<lambda>x y. int (ev_sequence x) < int (ev_sequence y)) ?F"
    by (intro filter_upt_greater) (simp add: sorted_wrt_map)
  have "?F = take n ?F @ filter (\<lambda>e. next_after st s after lim < int (ev_sequence e)) (events s)"
  proof (cases "?F = []")
    case True
    then show ?thesis by (simp add: next_after_def page Let_def)
  next
    case False
    then have ne: "take n ?F \<noteq> []" using n by (simp add: take_eq_Nil)
    then have na: "next_after st s after lim = int (ev_sequence (last (take n ?F)))"
      by (simp add: next_after_def page Let_def)
    have "last (take n ?F) \<in> set ?F" using last_in_set [OF ne] by (meson in_set_takeD)
    then have "after < next_after st s after lim" by (simp add: na)
    then have "filter (\<lambda>e. next_after st s after lim < int (ev_sequence e)) (events s)
        = filter (\<lambda>e. next_after st s after lim < int (ev_sequence e)) ?F"
      by (auto simp: conj_commute intro!: filter_cong)
    also have "\<dots> = drop n ?F"
      using filter_after_last [of "\<lambda>e. int (ev_sequence e)" "take n ?F" "drop n ?F"] sorted ne by (simp add: na)
    finally show ?thesis by simp
  qed
  moreover have "int (length (take n ?F)) \<le> max_event_page_size st" using n by simp
  moreover have "take n ?F = [] \<longleftrightarrow> (\<forall>e\<in>set (events s). int (ev_sequence e) \<le> after)"
    using n by (auto simp: take_eq_Nil filter_empty_conv not_less)
  moreover have "cursor_truncated s after \<longleftrightarrow> after < int (events_dropped s)"
  proof -
    obtain e es where e: "events s = e # es" using assms(3) by (cases "events s") auto
    then have "[Suc (events_dropped s)..<next_event_sequence s] = ev_sequence e # map ev_sequence es"
      using assms(1) by simp
    then have "ev_sequence e = Suc (events_dropped s)" by (simp add: upt_eq_Cons_conv)
    then show ?thesis by (simp add: cursor_truncated_def e)
  qed
  ultimately show ?thesis unfolding page by blast
qed

theorem paging_complete_witness:
  "\<exists>s. events s \<noteq> [] \<and> cursor_truncated s 0 = (0 < events_dropped s)
     \<and> page_events sample_settings s 0 1 \<noteq> []"
proof -
  let ?s = "fst (record_event sample_settings 0 Lifecycle ''session.started'' Service no_data (idle_session RUNNING))"
  have m: "max_recording_events sample_settings = 4096" "1 \<le> max_event_page_size sample_settings"
    by (simp_all add: sample_settings_def default_settings_def)
  have n: "next_event_sequence (idle_session RUNNING) = 1" "events_dropped (idle_session RUNNING) = 0"
    by (simp_all add: idle_session_def new_session_def Let_def)
  have e: "events ?s \<noteq> []" "map ev_sequence (events ?s) = [Suc (events_dropped ?s)..<next_event_sequence ?s]"
    by (simp_all add: record_event_room m new_event_def n)
  from paging_complete [OF e(2) m(2) e(1), of 0 1] have
    "page_events sample_settings ?s 0 1 = [] \<longleftrightarrow> (\<forall>x\<in>set (events ?s). int (ev_sequence x) \<le> 0)"
    "cursor_truncated ?s 0 \<longleftrightarrow> 0 < int (events_dropped ?s)" by blast+
  then show ?thesis using e by (intro exI [of _ ?s]) (auto simp: record_event_room m new_event_def n)
qed


subsection \<open>Two schedules the guards do not cover\<close>

text \<open>The guest runs, and a neighbour stops the session at every suspension.\<close>

definition running_peer :: qmp_peer where
  "running_peer = \<lparr>peer_attempts = (\<lambda>k. (0, None)), peer_lines = map (ascii \<circ> quoted)
     [''{`QMP`:{}}'', ''{`id`:`capabilities`,`return`:{}}'', ''{`id`:`command`,`return`:{`running`:true}}''],
     peer_end = Eof\<rparr>"

definition stopped_by_others :: "string \<Rightarrow> world \<Rightarrow> world \<Rightarrow> bool" where
  "stopped_by_others sid w u \<longleftrightarrow> u = update_session sid (\<lambda>s. s\<lparr>state := STOPPED\<rparr>) w"

lemma direct_reply:
  assumes "snd (peer_attempts peer 0) = None" "peer_lines peer = [l0, l1, l2]"
    and "\<not> blank l0" "loads l0 = Inr greeting" "is_obj greeting" "jhas greeting ''QMP''"
    and "\<not> blank l1" "loads l1 = Inr caps" "is_obj caps" "jget caps ''id'' = jstr ''capabilities''" "\<not> truthy (jget caps ''error'')"
    and "\<not> blank l2" "loads l2 = Inr reply" "is_obj reply" "jget reply ''id'' = jstr ''command''" "\<not> truthy (jget reply ''error'')"
  shows "\<exists>sent. sent \<noteq> [] \<and> execute_qmp peer sp cmd args = (Inr (jget reply ''return''), sent)"
  using assms
  by (cases "peer_attempts peer 0")
    (simp add: execute_qmp_def execute_qmp_within_def Let_def read_response_answer [OF assms(7-10)] read_response_answer [OF assms(12-15)])

lemma running_peer_reply:
  "\<exists>sent. sent \<noteq> [] \<and> execute_qmp running_peer sp cmd args = (Inr (jobj [(''running'', JBool True)]), sent)"
proof -
  have l: "loads (ascii (quoted ''{`QMP`:{}}'')) = Inr (jobj [(''QMP'', jobj [])])"
    "loads (ascii (quoted ''{`id`:`capabilities`,`return`:{}}''))
       = Inr (jobj [(''id'', jstr ''capabilities''), (''return'', jobj [])])"
    "loads (ascii (quoted ''{`id`:`command`,`return`:{`running`:true}}''))
       = Inr (jobj [(''id'', jstr ''command''), (''return'', jobj [(''running'', JBool True)])])"
    by code_simp+
  have b: "\<not> blank (ascii (quoted (CHR ''{'' # s)))" for s
    by (simp add: blank_def quoted_def)
  have "\<exists>sent. sent \<noteq> [] \<and> execute_qmp running_peer sp cmd args
      = (Inr (jget (jobj [(''id'', jstr ''command''), (''return'', jobj [(''running'', JBool True)])]) ''return''), sent)"
    by (rule direct_reply [OF _ _ b l(1) _ _ b l(2) _ _ _ b l(3)]) (simp_all add: running_peer_def jobj_def jstr_def)
  then show ?thesis by (simp add: jobj_def jstr_def)
qed

lemma ends_unless: "\<not> wp R p (\<lambda>r u. \<not> P r u) w \<Longrightarrow> \<exists>r w'. ends R p w r w' \<and> P r w'"
  by (metis (no_types, lifting) wp_complete)

lemma wp_qmp_call:
  "wp R (qmp_call sock cmd args) Q w \<longleftrightarrow> (\<forall>u (i :: input). R w u \<longrightarrow>
     (case execute_qmp (i_peer i) (str_path sock) cmd args of (r, sent) \<Rightarrow>
        let u' = u\<lparr>qmp_log := qmp_log u @ map (Pair sock) sent\<rparr> in
        if cancel_pending u then Q (Inl CancelledError) (u'\<lparr>cancels := removeAll (me u) (cancels u)\<rparr>)
        else wp R (suspend (\<lambda>w. True) (\<lambda>i w. (w, r))) Q u'))"
  by (simp add: qmp_call_def qmp_call_within_def execute_qmp_def wp_simps Let_def split_beta if_distrib [of "map_prod id (wp R)"] cong: if_cong)

text \<open>
  A status refresh can bring a stopped session back: the state is checked before the worker is
  asked and written after it answered, so when another task stops the session while the query is
  under way and the answer says the guest runs, the refresh ends with the session \<open>RUNNING\<close>.
\<close>

theorem refresh_revives_stopped:
  "\<exists>w' s. ends (stopped_by_others ''s1'') (refresh_state sample_env ''s1'') (idle_world RUNNING) (Inr ()) w'
     \<and> find_session w' ''s1'' = Some s \<and> state s = RUNNING"
proof -
  obtain sent where reply: "execute_qmp running_peer (str_path (qmp_socket_path (idle_session RUNNING))) ''query-status'' None
      = (Inr (jobj [(''running'', JBool True)]), sent)" using running_peer_reply by blast
  let ?i = "sample_input\<lparr>i_peer := running_peer\<rparr>"
  have "\<not> wp (stopped_by_others ''s1'') (refresh_state sample_env ''s1'')
     (\<lambda>r u. \<not> (r = Inr () \<and> (\<exists>s. find_session u ''s1'' = Some s \<and> state s = RUNNING))) (idle_world RUNNING)"
    by (simp add: refresh_state_def session_qmp_def wp_simps locked_def acquire_def release_def wp_qmp_call wp_suspend
        stopped_by_others_def) (rule exI [of _ ?i], simp add: reply Let_def)
  from ends_unless [OF this] show ?thesis by auto
qed

text \<open>
  An input that passed its guard and waits for the lock of the worker's socket is not called back when a
  replay starts meanwhile: it is sent to the worker during the replay, and recorded.
\<close>

definition replay_starts :: "string \<Rightarrow> world \<Rightarrow> world \<Rightarrow> bool" where
  "replay_starts sid w u \<longleftrightarrow> u = update_session sid (\<lambda>s. s\<lparr>accept_live_input := False, replay_status := ''running''\<rparr>)
     (w\<lparr>held := removeAll (QmpLock sid) (held w)\<rparr>)"

theorem waiting_input_overtaken:
  "\<exists>w' s. ends (replay_starts ''s1'') (send_button sample_env ''s1'' ''a'' True)
       ((idle_world RUNNING)\<lparr>held := [QmpLock ''s1'']\<rparr>) (Inr ()) w'
     \<and> find_session w' ''s1'' = Some s \<and> \<not> accept_live_input s \<and> qmp_log w' \<noteq> [] \<and> replay_actions s \<noteq> []"
proof -
  obtain args where args: "qmp_button_event tiny_board ''a'' True = Inr args"
    by (simp add: qmp_button_event_def tiny_board_def STICKS3_def STICKS3_BUTTONS_def)
  have b: "session_board (idle_session RUNNING) = tiny_board" "replay_actions (idle_session RUNNING) = []"
    by (simp_all add: idle_session_def new_session_def Let_def)
  obtain sent where reply: "sent \<noteq> []" "execute_qmp running_peer (str_path (qmp_socket_path (idle_session RUNNING))) ''qom-set'' (Some args)
      = (Inr (jobj [(''running'', JBool True)]), sent)" using running_peer_reply by blast
  let ?i = "sample_input\<lparr>i_peer := running_peer\<rparr>"
  have "\<not> wp (replay_starts ''s1'') (send_button sample_env ''s1'' ''a'' True)
     (\<lambda>r u. \<not> (r = Inr () \<and> (\<exists>s. find_session u ''s1'' = Some s \<and> \<not> accept_live_input s \<and> qmp_log u \<noteq> [] \<and> replay_actions s \<noteq> [])))
     ((idle_world RUNNING)\<lparr>held := [QmpLock ''s1'']\<rparr>)"
    by (simp add: send_button_def require_board_input_def require_live_input_def sum_task_def record_input_def b args
        session_qmp_def wp_simps locked_def acquire_def release_def wp_qmp_call wp_suspend replay_starts_def)
      (rule exI [of _ ?i], simp add: reply Let_def wp_simps append_act_def append_replay_action_def bounded_push_def
        record_event_room split: list.split)
  from ends_unless [OF this] show ?thesis by auto
qed

end
