(* ===== verification/Session_Refinement.thy ===== *)
theory Session_Refinement
  imports Session_Guards
begin

section \<open>The event log as an abstract history\<close>

text \<open>
  What the log promises its clients, without the bound: a \<open>history\<close> numbers the events of a session
  from one and never forgets.  The session's bounded log is a window on it; recording an event in
  the session is recording it in the history, and a client whose cursor is not flagged as truncated
  cannot tell the two apart.
\<close>

type_synonym history = "session_event list"

text \<open>The specification: an event gets the next number and stays.\<close>

definition extend :: "session_event \<Rightarrow> history \<Rightarrow> history" where
  "extend e h = h @ [e\<lparr>ev_sequence := Suc (length h)\<rparr>]"

definition history_page :: "int \<Rightarrow> nat \<Rightarrow> history \<Rightarrow> session_event list" where
  "history_page after n h = take n (drop (nat after) h)"

definition window :: "settings \<Rightarrow> history \<Rightarrow> session \<Rightarrow> bool" where
  "window st h s \<longleftrightarrow> (let n = nat (max_recording_events st) in
     map ev_sequence h = [1..<Suc (length h)] \<and> next_event_sequence s = Suc (length h)
     \<and> events s = drop (length h - n) h \<and> events_dropped s = length h - n)"

lemma extend_numbered:
  "map ev_sequence h = [1..<Suc (length h)] \<Longrightarrow> map ev_sequence (extend e h) = [1..<Suc (length (extend e h))]"
  by (simp add: extend_def)

lemma window_record:
  assumes "window st h s" "1 \<le> max_recording_events st"
  shows "window st (extend (new_event now cat ty src data s) h) (fst (record_event st now cat ty src data s))"
proof -
  obtain n where n: "max_recording_events st = int (Suc n)"
    using assms(2) by (intro that [of "nat (max_recording_events st - 1)"]) simp
  let ?e = "new_event now cat ty src data s"
  from assms(1) have w: "map ev_sequence h = [1..<Suc (length h)]" "next_event_sequence s = Suc (length h)"
    "events s = drop (length h - Suc n) h" "events_dropped s = length h - Suc n"
    by (simp_all add: window_def n nat_add_distrib)
  have e: "?e\<lparr>ev_sequence := Suc (length h)\<rparr> = ?e" by (simp add: new_event_def w(2))
  have r: "record_event st now cat ty src data s = (s\<lparr>next_event_sequence := Suc (next_event_sequence s),
      events := (if Suc n \<le> length (events s) then tl (events s) else events s) @ [?e],
      events_dropped := (if Suc n \<le> length (events s) then Suc (events_dropped s) else events_dropped s)\<rparr>, None)"
    unfolding record_event_def n bounded_push_Suc by (simp add: Let_def)
  show ?thesis
  proof (cases "Suc n \<le> length h")
    case True
    then have "length (events s) = Suc n" by (simp add: w(3))
    moreover from True have "tl (events s) = drop (length h - n) h"
      unfolding w(3) tl_drop drop_Suc [symmetric] by (simp add: Suc_diff_Suc Suc_le_eq)
    ultimately have "length (events s) = Suc n" "tl (events s) = drop (length h - n) h" by blast+
    with True w extend_numbered [OF w(1), of ?e] show ?thesis
      by (simp add: window_def n r extend_def e Suc_diff_le nat_add_distrib Let_def)
  next
    case False
    with w extend_numbered [OF w(1), of ?e] show ?thesis
      by (simp add: window_def n r extend_def e nat_add_distrib Let_def)
  qed
qed

lemma upt_first: "[Suc k..<Suc (k + Suc n)] = Suc k # [Suc (Suc k)..<Suc (Suc k + n)]"
  by (subst upt_conv_Cons) (simp_all del: upt_Suc)

lemma filter_numbered:
  "map ev_sequence xs = [Suc k..<Suc (k + length xs)] \<Longrightarrow> k \<le> c \<Longrightarrow>
     filter (\<lambda>e. int c < int (ev_sequence e)) xs = drop (c - k) xs"
proof (induction xs arbitrary: k)
  case (Cons x xs)
  from Cons.prems(1) have x: "ev_sequence x = Suc k" and xs: "map ev_sequence xs = [Suc (Suc k)..<Suc (Suc k + length xs)]"
    unfolding list.size(4) Suc_eq_plus1 [symmetric] add_Suc_right list.map
    by (simp_all add: upt_first [unfolded add_Suc_right] del: upt_Suc)
  show ?case
  proof (cases "k = c")
    case True
    have "\<forall>e\<in>set xs. k < ev_sequence e"
    proof
      fix e assume "e \<in> set xs"
      then have "ev_sequence e \<in> set [Suc (Suc k)..<Suc (Suc k + length xs)]" unfolding xs [symmetric] by simp
      then show "k < ev_sequence e" by (simp del: upt_Suc)
    qed
    with True x show ?thesis by (simp add: filter_True)
  next
    case False
    then show ?thesis using Cons.IH [OF xs] Cons.prems(2) x by (simp add: Suc_diff_Suc [symmetric])
  qed
qed simp

lemma window_page:
  assumes "window st h s" "1 \<le> max_recording_events st" "1 \<le> max_event_page_size st"
    and "0 \<le> after" "\<not> cursor_truncated s after"
  shows "page_events st s after lim = history_page after (nat (bounded_limit st lim)) h"
proof -
  define k where "k = length h - nat (max_recording_events st)"
  from assms(1) have w: "map ev_sequence h = [1..<Suc (length h)]" "events s = drop k h"
    by (simp_all add: window_def Let_def k_def)
  have seqs: "map ev_sequence (events s) = [Suc k..<Suc (k + length (events s))]"
    unfolding w(2) drop_map [symmetric] w(1) by (auto simp: k_def)
  have c: "k \<le> nat after"
  proof (cases "events s")
    case Nil
    then show ?thesis using assms(2) by (simp add: w(2) k_def)
  next
    case (Cons e es)
    with seqs have "ev_sequence e = Suc k" by (simp add: upt_first [unfolded add_Suc_right] del: upt_Suc)
    with assms(4,5) Cons show ?thesis by (simp add: cursor_truncated_def)
  qed
  have "filter (\<lambda>e. after < int (ev_sequence e)) (events s) = drop (nat after - k) (events s)"
    using filter_numbered [OF seqs c] assms(4) by simp
  also have "\<dots> = drop (nat after) h" using c by (simp add: w(2))
  finally have f: "filter (\<lambda>e. after < int (ev_sequence e)) (events s) = drop (nat after) h" .
  have "0 \<le> bounded_limit st lim" using assms(3) by (auto simp: bounded_limit_def)
  then show ?thesis by (simp add: page_events_def history_page_def slice_to_def f)
qed

text \<open>
  C2. The bounded event log refines the unbounded history: a new session is a window on the empty
  history, recording an event is recording it in the history, and a page asked for from any cursor
  that is not flagged as truncated is the page of the whole history.
\<close>

theorem log_refines_history:
  assumes "1 \<le> max_recording_events (cfg en)" "1 \<le> max_event_page_size (cfg en)"
  shows "window (cfg en) [] (new_session en w board flash metadata)
    \<and> (window (cfg en) h s \<longrightarrow>
      window (cfg en) (extend (new_event now cat ty src data s) h) (fst (record_event (cfg en) now cat ty src data s))
      \<and> snd (record_event (cfg en) now cat ty src data s) = None
      \<and> (0 \<le> after \<and> \<not> cursor_truncated s after \<longrightarrow>
          page_events (cfg en) s after lim = history_page after (nat (bounded_limit (cfg en) lim)) h))"
proof -
  have "window (cfg en) [] (new_session en w board flash metadata)"
    by (simp add: window_def new_session_def Let_def)
  then show ?thesis using assms window_record window_page record_event_works by blast
qed

theorem log_refines_history_witness:
  "window sample_settings [] (idle_session STARTING)
     \<and> page_events sample_settings (idle_session STARTING) 0 7 = history_page 0 7 []"
proof -
  have s: "1 \<le> max_recording_events (cfg sample_env)" "1 \<le> max_event_page_size (cfg sample_env)" "cfg sample_env = sample_settings"
    "nat (bounded_limit sample_settings 7) = 7"
    by (simp_all add: sample_env_def sample_settings_def default_settings_def bounded_limit_def)
  have w: "window sample_settings [] (idle_session STARTING)" "\<not> cursor_truncated (idle_session STARTING) 0"
    by (simp_all add: window_def idle_session_def new_session_def Let_def cursor_truncated_def)
  then show ?thesis using log_refines_history [OF s(1,2), of _ _ _ _ "[]" "idle_session STARTING" _ _ _ _ _ 0 7] s(3,4) by simp
qed

end
