(* ===== verification/Session_Launches.thy ===== *)
theory Session_Launches
  imports Session_Properties
begin

section \<open>What the manager starts\<close>

text \<open>
  Every worker the manager ever asks for, in any interleaving of its tasks: the fixed fields of a session
  are those its id gives it, and a launch is determined by the settings, the session's id and a board.
\<close>

subsection \<open>The fixed fields of a session\<close>

definition fixed_of :: "session \<Rightarrow> _" where
  "fixed_of s = (session_id s, session_board s, runtime_directory s, flash_path s, qmp_socket_path s, gdb_socket_path s)"

lemma fixed_of_recording: "recording_of t = recording_of s \<Longrightarrow> fixed_of t = fixed_of s"
  by (simp add: recording_of_def fixed_of_def)

lemma fixed_of_record_event [simp]: "fixed_of (fst (record_event st now c t sr d s)) = fixed_of s"
  by (simp add: record_event_def fixed_of_def Let_def split: sum.split prod.split)

lemma record_event_result: "record_event st now c t sr d x = (z, e) \<Longrightarrow> fixed_of z = fixed_of x"
  using fixed_of_record_event [of st now c t sr d x] by simp

lemma fixed_of_handle_trace [simp]: "fixed_of (fst (handle_trace st now n ty data s)) = fixed_of s"
proof -
  have u: "fixed_of (x\<lparr>trace_event_counts := a\<rparr>) = fixed_of x" "fixed_of (x\<lparr>trace_events_recorded := b\<rparr>) = fixed_of x"
    "fixed_of (x\<lparr>trace_events_dropped := c\<rparr>) = fixed_of x" "fixed_of (x\<lparr>trace_truncation_reported := d\<rparr>) = fixed_of x"
    for x :: session and a b c d by (simp_all add: fixed_of_def)
  have v: "fixed_of (x\<lparr>trace_event_counts := a, trace_events_recorded := b\<rparr>) = fixed_of x"
    "fixed_of (x\<lparr>trace_event_counts := a, trace_events_dropped := c\<rparr>) = fixed_of x"
    "fixed_of (x\<lparr>trace_truncation_reported := d, trace_events_dropped := c\<rparr>) = fixed_of x"
    for x :: session and a b c d by (simp_all add: fixed_of_def)
  show ?thesis
    by (auto simp: handle_trace_def Let_def u v split: trace_verdict.split prod.split option.split
        dest!: record_event_result)
qed

lemma fixed_of_resets [simp]:
  "fixed_of (clear_private_session_data s) = fixed_of s" "fixed_of (append_serial_chunk chunk s) = fixed_of s"
  "fixed_of (power_on_reset s) = fixed_of s" "fixed_of (replay_reset now s) = fixed_of s"
  "fixed_of (s\<lparr>subscribers := q\<rparr>) = fixed_of s"
  by (simp_all add: fixed_of_def clear_private_session_data_def append_serial_chunk_def power_on_reset_def
      replay_reset_def clear_serial_buffer_def)

lemma fixed_of_action: "append_replay_action st a s = Inr s' \<Longrightarrow> fixed_of s' = fixed_of s"
  by (auto simp: append_replay_action_def fixed_of_def split: sum.splits)

text \<open>The paths of a session are those its id gives it.\<close>

definition placed :: "env \<Rightarrow> string \<Rightarrow> session \<Rightarrow> bool" where
  "placed en k s \<longleftrightarrow> (let d = child (runtime_root (cfg en)) k in
     session_id s = k \<and> runtime_directory s = d \<and> flash_path s = child d ''flash.bin''
     \<and> qmp_socket_path s = child d ''qmp.sock'' \<and> gdb_socket_path s = child d ''gdb.sock'')"

lemma placed_fixed: "fixed_of t = fixed_of s \<Longrightarrow> placed en k t = placed en k s"
  by (simp add: placed_def fixed_of_def Let_def)

subsection \<open>Launches\<close>

text \<open>What a launch for the session \<open>k\<close> may be: a function of the settings, the id and a board.\<close>

definition launch_of :: "env \<Rightarrow> string \<Rightarrow> board_profile \<Rightarrow> exn + launch_record" where
  "launch_of en k board =
     (let st = cfg en; d = child (runtime_root st) k in
      if worker_sandbox_mode st = OCI_BROKER
      then sum_bind (StartRequest (lit k) (lit (board_id board))) (Inr \<circ> BrokerRequest)
      else sum_bind (build_qemu_command (cwd en) (worker_config st) board (child d ''flash.bin'')
          (if worker_qmp_enabled st then Some (child d ''qmp.sock'') else None)
          (if worker_debug_enabled st \<and> worker_qmp_enabled st then Some (child d ''gdb.sock'') else None)
          (worker_trace_enabled st))
        (\<lambda>argv. Inr (LocalProcess \<lparr>spawn_argv = argv, spawn_cwd = d,
           spawn_env = [(''LANG'', ''C.UTF-8''), (''PATH'', ''/usr/bin:/bin'')], own_session = True,
           spawn_limits = limit_worker_resources (worker_memory_limit_mib st) (worker_cpu_limit_seconds st)\<rparr>)))"

lemma launch_request_placed: "placed en k s \<Longrightarrow> launch_request en s = launch_of en k (session_board s)"
  by (auto simp: launch_request_def launch_of_def local_worker_def local_command_def placed_def Let_def sum_bind_def
      split: sum.split)

definition launches_ok :: "env \<Rightarrow> world \<Rightarrow> bool" where
  "launches_ok en w \<longleftrightarrow> list_all (\<lambda>(k, s). placed en k s) (sessions w)
     \<and> list_all (\<lambda>(k, l). \<exists>board. launch_of en k board = Inr l) (launches w)"

lemma launches_ok_update:
  assumes "launches_ok en w" "\<And>s. placed en sid s \<Longrightarrow> placed en sid (f s)"
  shows "launches_ok en (update_session sid f w)"
proof -
  have "placed en k (if k = sid then f s else s)" if "placed en k s" for k s
    using that assms(2) [of s] by (cases "k = sid") simp_all
  then have "list_all (\<lambda>(k, s). placed en k s) (map (\<lambda>(k, s). (k, if k = sid then f s else s)) xs)"
    if "list_all (\<lambda>(k, s). placed en k s) xs" for xs
    using that by (induction xs) auto
  with assms(1) show ?thesis by (simp add: launches_ok_def update_session_def)
qed

lemma launches_ok_fixed:
  "launches_ok en w \<Longrightarrow> (\<And>s. fixed_of (f s) = fixed_of s) \<Longrightarrow> launches_ok en (update_session sid f w)"
  using placed_fixed launches_ok_update by blast

lemma launches_ok_find: "launches_ok en w \<Longrightarrow> find_session w sid = Some s \<Longrightarrow> placed en sid s"
  by (auto simp: launches_ok_def find_session_def list_all_iff dest: map_of_SomeD)

lemma launches_ok_set:
  assumes "launches_ok en w" "find_session w sid = Some s" "fixed_of s' = fixed_of s"
  shows "launches_ok en (update_session sid (\<lambda>_. s') w)"
proof (rule launches_ok_update [OF assms(1)])
  show "placed en sid s'" using launches_ok_find [OF assms(1,2)] placed_fixed [OF assms(3)] by blast
qed

lemma launches_ok_queues [simp]:
  "launches_ok en (w\<lparr>queues := x\<rparr>) = launches_ok en w" "launches_ok en (w\<lparr>queues := x, next_ref := n\<rparr>) = launches_ok en w"
  by (simp_all add: launches_ok_def)

lemma placed_put: "list_all (\<lambda>(k, s). placed en k s) xs \<Longrightarrow> placed en k s \<Longrightarrow> list_all (\<lambda>(k, s). placed en k s) (put k s xs)"
  by (induction xs) auto

interpretation launch_law: world_law en "launches_ok en" for en
proof
  show "launches_ok en w \<Longrightarrow> sessions w' = sessions w \<Longrightarrow> queues w' = queues w \<Longrightarrow> launches w' = launches w \<Longrightarrow>
      launches_ok en w'" for w w' by (simp add: launches_ok_def)
  show "launches_ok en w \<Longrightarrow> find_session w sid = Some s \<Longrightarrow> launch_request en s = Inr r \<Longrightarrow>
      launches_ok en (w\<lparr>launches := launches w @ [(sid, r)]\<rparr>)" for w sid s r
    using launches_ok_find [of en w sid s] launch_request_placed [of en sid s] by (auto simp: launches_ok_def)
  show "launches_ok en w \<Longrightarrow> quiet f \<Longrightarrow> launches_ok en (update_session sid f w)" for w f sid
    by (rule launches_ok_fixed) (auto simp: quiet_def intro: fixed_of_recording)
  show "launches_ok en w \<Longrightarrow> find_session w sid = Some s \<Longrightarrow> recording_of s' = recording_of s \<Longrightarrow>
      launches_ok en (update_session sid (\<lambda>_. s') w)" for w sid s s'
    by (rule launches_ok_set [OF _ _ fixed_of_recording])
  show "launches_ok en w \<Longrightarrow> find_session w sid = Some s \<Longrightarrow> append_replay_action (cfg en) a s = Inr s' \<Longrightarrow>
      launches_ok en (update_session sid (\<lambda>_. s') w)" for w sid s a s'
    by (rule launches_ok_set [OF _ _ fixed_of_action])
  show "launches_ok en w \<Longrightarrow> launches_ok en (publish sid item w)" for w sid item
  proof -
    assume "launches_ok en w"
    then have "launches_ok en (update_session sid (\<lambda>s. s\<lparr>subscribers := filter g (subscribers s)\<rparr>) w)" for g
      by (rule launches_ok_fixed) simp
    then show ?thesis using \<open>launches_ok en w\<close> by (auto simp: publish_def launches_ok_def Let_def split: option.split)
  qed
  show "launches_ok en w \<Longrightarrow> launches_ok en (fst (admit en board upload w))" for w board upload
  proof -
    assume "launches_ok en w"
    moreover have "session_id (new_session en w board fl md) = k \<Longrightarrow> placed en k (new_session en w board fl md)" for fl md k
      by (auto simp: placed_def new_session_def Let_def)
    ultimately show ?thesis
      by (auto simp: admit_def launches_ok_def Let_def intro!: placed_put split: sum.split prod.split)
  qed
qed (auto intro: launches_ok_fixed launches_ok_set)


subsection \<open>Every worker is confined\<close>

lemma launch_of_local:
  assumes "launch_of en k board = Inr (LocalProcess p)"
  shows "worker_sandbox_mode (cfg en) \<noteq> OCI_BROKER \<and> spawn_cwd p = child (runtime_root (cfg en)) k
    \<and> spawn_env p = [(''LANG'', ''C.UTF-8''), (''PATH'', ''/usr/bin:/bin'')] \<and> own_session p
    \<and> spawn_limits p = limit_worker_resources (worker_memory_limit_mib (cfg en)) (worker_cpu_limit_seconds (cfg en))
    \<and> (\<exists>qmp gdb tr. build_qemu_command (cwd en) (worker_config (cfg en)) board (child (spawn_cwd p) ''flash.bin'') qmp gdb tr
        = Inr (spawn_argv p))"
proof -
  let ?st = "cfg en" and ?d = "child (runtime_root (cfg en)) k"
  have m: "worker_sandbox_mode ?st \<noteq> OCI_BROKER"
    using assms by (auto simp: launch_of_def Let_def sum_bind_def split: if_splits sum.splits)
  define qmp where "qmp = (if worker_qmp_enabled ?st then Some (child ?d ''qmp.sock'') else None)"
  define gdb where "gdb = (if worker_debug_enabled ?st \<and> worker_qmp_enabled ?st then Some (child ?d ''gdb.sock'') else None)"
  obtain argv where argv: "build_qemu_command (cwd en) (worker_config ?st) board (child ?d ''flash.bin'') qmp gdb (worker_trace_enabled ?st) = Inr argv"
    and "p = \<lparr>spawn_argv = argv, spawn_cwd = ?d, spawn_env = [(''LANG'', ''C.UTF-8''), (''PATH'', ''/usr/bin:/bin'')],
      own_session = True, spawn_limits = limit_worker_resources (worker_memory_limit_mib ?st) (worker_cpu_limit_seconds ?st)\<rparr>"
    using assms m unfolding launch_of_def Let_def qmp_def [symmetric] gdb_def [symmetric]
    by (auto simp: sum_bind_def split: sum.splits)
  then show ?thesis using m by auto
qed

lemma launch_of_remote:
  assumes "launch_of en k board = Inr (BrokerRequest request)"
  shows "worker_sandbox_mode (cfg en) = OCI_BROKER \<and> req_session_id request = lit k
    \<and> fullmatch SESSION_ID_PATTERN (lit k) \<and> req_board_id request = lit (board_id board) \<and> known_board (req_board_id request)"
  using assms by (auto simp: launch_of_def Let_def sum_bind_def StartRequest_def split: if_splits sum.splits)

text \<open>
  C6. Whatever requests, exits and cancellations come in whatever order, every worker the manager has
  ever asked for is confined to its session.  A local one runs in the session's directory, in a process
  group of its own, with two fixed environment variables, under the configured limits of memory and
  processor time, 64 MiB per file, 64 open files and a private umask; its command line disables the
  network and ends with the session's own flash image, and under Bubblewrap mounts exactly what is
  requested, each path once and read-only, with the session's directory as the only writable bind.  In
  the broker mode no local process exists: the request names the session's valid id and a known board.
\<close>

theorem launches_confined:
  assumes "reachable en sys" "(sid, l) \<in> set (launches (world_of sys))"
  shows "case l of
      BrokerRequest request \<Rightarrow> worker_sandbox_mode (cfg en) = OCI_BROKER \<and> req_session_id request = lit sid
        \<and> fullmatch SESSION_ID_PATTERN (lit sid) \<and> known_board (req_board_id request)
    | LocalProcess p \<Rightarrow> worker_sandbox_mode (cfg en) \<noteq> OCI_BROKER \<and> spawn_cwd p = child (runtime_root (cfg en)) sid
        \<and> own_session p \<and> spawn_env p = [(''LANG'', ''C.UTF-8''), (''PATH'', ''/usr/bin:/bin'')]
        \<and> spawn_limits p = \<lparr>address_space = (worker_memory_limit_mib (cfg en) * 2 ^ 20, worker_memory_limit_mib (cfg en) * 2 ^ 20),
             cpu_seconds = (worker_cpu_limit_seconds (cfg en), worker_cpu_limit_seconds (cfg en) + 1),
             written_file_size = (2 ^ 26, 2 ^ 26), open_files = (64, 64), child_umask = 63\<rparr>
        \<and> (\<exists>pre post. spawn_argv p = pre @ [''-nic'', ''none''] @ post)
        \<and> (\<exists>pre. spawn_argv p = pre @ [''-drive'', ''file='' @ str_path (child (spawn_cwd p) ''flash.bin'') @ '',if=mtd,format=raw''])
        \<and> (worker_sandbox_mode (cfg en) = BUBBLEWRAP \<longrightarrow> (\<exists>opts mounts qemu.
             spawn_argv p = opts @ concat (map (\<lambda>d. [''--ro-bind'', str_path d, str_path d]) mounts)
               @ [''--bind'', str_path (spawn_cwd p), str_path (spawn_cwd p), ''--chdir'', str_path (spawn_cwd p), ''--''] @ qemu
             \<and> ''--bind'' \<notin> set (tl opts) \<and> ''--ro-bind'' \<notin> set (tl opts) \<and> ''--unshare-all'' \<in> set opts
             \<and> set mounts \<subseteq> absolute (cwd en) ` set (readonly_requests (worker_config (cfg en)))
             \<and> (\<forall>i j. i < j \<and> j < length mounts \<longrightarrow> \<not> is_relative_to (mounts ! j) (mounts ! i))))"
proof -
  have "launches_ok en (world_of sys)"
    using assms(1) by (rule launch_law.reachable_law) (simp add: launches_ok_def initial_world_def)
  then obtain board where l: "launch_of en sid board = Inr l"
    using assms(2) by (auto simp: launches_ok_def list_all_iff)
  show ?thesis
  proof (cases l)
    case (BrokerRequest request)
    show ?thesis unfolding BrokerRequest launch_record.case using launch_of_remote [OF l [unfolded BrokerRequest]] by blast
  next
    case (LocalProcess p)
    note o = launch_of_local [OF l [unfolded LocalProcess]]
    then obtain qmp gdb tr where c: "build_qemu_command (cwd en) (worker_config (cfg en)) board
        (child (spawn_cwd p) ''flash.bin'') qmp gdb tr = Inr (spawn_argv p)" by blast
    have m: "sandbox_mode (worker_config (cfg en)) = worker_sandbox_mode (cfg en)" by (simp add: worker_config_def)
    from worker_command_confined [where cwd = "cwd en" and cfg = "worker_config (cfg en)" and board = board
        and flash = "child (spawn_cwd p) ''flash.bin''" and qmp = qmp and gdb = gdb and tr = tr]
    have nic: "(\<exists>pre post. spawn_argv p = pre @ [''-nic'', ''none''] @ post)
        \<and> (\<exists>pre. spawn_argv p = pre @ [''-drive'', ''file='' @ str_path (child (spawn_cwd p) ''flash.bin'') @ '',if=mtd,format=raw''])"
      unfolding c by simp
    have box: "worker_sandbox_mode (cfg en) = BUBBLEWRAP \<longrightarrow> (\<exists>opts mounts qemu.
             spawn_argv p = opts @ concat (map (\<lambda>d. [''--ro-bind'', str_path d, str_path d]) mounts)
               @ [''--bind'', str_path (spawn_cwd p), str_path (spawn_cwd p), ''--chdir'', str_path (spawn_cwd p), ''--''] @ qemu
             \<and> ''--bind'' \<notin> set (tl opts) \<and> ''--ro-bind'' \<notin> set (tl opts) \<and> ''--unshare-all'' \<in> set opts
             \<and> set mounts \<subseteq> absolute (cwd en) ` set (readonly_requests (worker_config (cfg en)))
             \<and> (\<forall>i j. i < j \<and> j < length mounts \<longrightarrow> \<not> is_relative_to (mounts ! j) (mounts ! i)))"
      using sandbox_mounts [OF _ c] unfolding m parent_child by blast
    show ?thesis unfolding LocalProcess launch_record.case
      using o nic box by (simp add: limit_worker_resources_def Let_def)
  qed
qed

lemma update_session_logs: "files (update_session sid f w) = files w" "launches (update_session sid f w) = launches w"
  by (simp_all add: update_session_def)

lemma created_launch: "\<exists>l. (''s1'', l) \<in> set (launches (world_of created_system))"
proof -
  obtain w2 s where c: "created_system = conclude 0 (settle (first_launch sample_env ''s1'') w2) []"
    and s: "find_session w2 ''s1'' = Some s" and v: "is_ok (validate_worker_config (files w2) (worker_config sample_settings))"
    using created_first by blast
  have e: "cfg sample_env = sample_settings" by (simp add: sample_env_def)
  let ?s = "s\<lparr>generation_started_ns := clock_ns w2\<rparr>"
  obtain argv where a: "local_command sample_env ?s = Inr argv"
    by (simp add: local_command_def build_qemu_command_def worker_config_def sample_env_def
      sample_settings_def default_settings_def Let_def)
  have "worker_sandbox_mode sample_settings \<noteq> OCI_BROKER" by (simp add: sample_settings_def default_settings_def)
  then obtain l where l: "launch_request sample_env ?s = Inr l" using a by (simp add: launch_request_def local_worker_def e)
  obtain u where u: "validate_worker_config (files w2) (worker_config sample_settings) = Inr u" using v by (auto simp: is_ok_iff)
  have "\<exists>w3 p. settle (first_launch sample_env ''s1'') w2 = (w3, p) \<and> (''s1'', l) \<in> set (launches w3)"
    by (simp add: first_launch_def session_do_def launch_def validate_config_def start_process_def log_launch_def attempt_def
        new_worker_def run_simps s u l e update_session_logs)
  then show ?thesis unfolding c by (auto simp: world_of_conclude)
qed

theorem launches_confined_witness:
  "\<exists>l. (''s1'', l) \<in> set (launches (world_of created_system))
     \<and> (\<forall>p. l = LocalProcess p \<longrightarrow> spawn_cwd p = Abs [''run'', ''s1''] \<and> open_files (spawn_limits p) = (64, 64))"
proof -
  obtain l where l: "(''s1'', l) \<in> set (launches (world_of created_system))" using created_launch by blast
  from launches_confined [OF created_reachable this] l show ?thesis
    by (intro exI [of _ l]) (auto simp: sample_env_def sample_settings_def default_settings_def)
qed

end
