(* ===== verification/Session_Races.thy ===== *)
theory Session_Races
  imports Session_Launches Session_Outcomes
begin

section \<open>Schedules the session manager does not survive\<close>

text \<open>
  Outcomes that the code allows and does not mean to: a worker without a session, and two ends of a serial
  subscription.
\<close>

subsection \<open>A worker that outlives its session\<close>

text \<open>
  The readiness check terminates the new worker when it ends with a QMP error.  A line from QEMU that
  is not UTF-8 raises another exception (\<open>qmp_bad_utf8_escapes\<close>), and then nothing does: the upload fails,
  the session is \<open>FAILED\<close> and its data are gone, but its worker goes on.  Failed sessions do not count
  against the capacity and do not expire, so the worker keeps running until the session is stopped by hand
  or the service ends.
\<close>

lemma undecodable_status:
  assumes "peer_attempts peer = (\<lambda>k. (0, None))" "peer_lines peer = [[0x80]]" "0 < timeout"
  shows "execute_qmp_within timeout peer sp cmd args = (Inl UnicodeDecodeError, [])"
  using assms by (simp add: execute_qmp_within_def blank_def loads_def map_timeout_def)

theorem orphaned_worker:
  assumes "find_session w sid = Some s" "validate_worker_config (files w) (worker_config (cfg en)) = Inr ()"
    and "launch_request en s = Inr request" "i_worker j = Inr k" "returncode k = None"
    and "worker_qmp_enabled (cfg en)" "0 < worker_startup_timeout_ns (cfg en)" "cancels w = []"
    and "peer_attempts (i_peer i) = (\<lambda>k. (0, None))" "peer_lines (i_peer i) = [[0x80]]"
  shows "\<exists>w' s' pid. alone [j, i, i] (settle (first_launch en sid) w) = (w', Ret (Inl UnicodeDecodeError))
    \<and> find_session w' sid = Some s' \<and> state s' = FAILED \<and> private_data_gone s' w'
    \<and> process s' = Some pid \<and> \<not> exited pid w'"
proof -
  have r: "launch_request en (s\<lparr>generation_started_ns := t\<rparr>) = launch_request en s" for t
    by (simp add: launch_request_def local_worker_def local_command_def)
  obtain n where n: "startup_attempts (cfg en) = Suc n" by (simp add: startup_attempts_def)
  have q: "execute_qmp_within timeout (i_peer i) sp cmd args = (Inl UnicodeDecodeError, [])" if "0 < timeout" for timeout sp cmd args
    using undecodable_status assms(9,10) that by blast
  show ?thesis
    using assms
    by (simp add: first_launch_def launch_def validate_config_def start_process_def log_launch_def attempt_def new_worker_def
      startup_check_def wait_for_qmp_running_def n spawn_def qmp_call_within_def q r
      run_simps settle_recording update_session_logs cancel_pending_def private_data_gone_def clear_private_session_data_def exited_def)
qed

subsection \<open>Serial subscriptions\<close>

text \<open>
  A client that subscribes while the worker prints: the backlog is sent from the live buffer, one
  suspension per chunk, and output that arrives during it ends the subscription with an exception; the
  socket gathers it and ends.
\<close>

definition worker_prints :: "string \<Rightarrow> bytes \<Rightarrow> world \<Rightarrow> world \<Rightarrow> bool" where
  "worker_prints sid chunk w u \<longleftrightarrow> u = update_session sid (append_serial_chunk chunk) w"

theorem backlog_interrupted:
  assumes "find_session w sid = Some s" "serial_buffer s \<noteq> []" "cancels w = []"
    and "ends (worker_prints sid chunk) (subscribe_serial sid n) w r w'"
  shows "r = Inl (RuntimeError ''deque mutated during iteration'')"
proof -
  obtain x xs where b: "serial_buffer s = x # xs" using assms(2) by (cases "serial_buffer s") auto
  have later: "serial_mutations (append_serial_chunk chunk s) \<noteq> serial_mutations s" by (simp add: append_serial_chunk_def)
  have "wp (worker_prints sid chunk) (subscribe_serial sid n) (\<lambda>r u. r = Inl (RuntimeError ''deque mutated during iteration'')) w"
    using assms(1,3) later
    by (cases xs) (simp_all add: subscribe_serial_def serial_subscribe_def with_session_def b wp_simps worker_prints_def guard_def
      pause_point_def wp_suspend cancel_pending_def)
  with assms(4) show ?thesis by (rule wp_sound)
qed

text \<open>
  A client that lags: when its queue is full, the next chunk drops it from the subscribers, and then not
  even the end of the output is put into its queue.  The socket delivers what is queued and waits on.
\<close>

theorem lagging_subscriber_forgotten:
  assumes "find_session w sid = Some s" "q \<in> set (subscribers s)" "length (queues w q) = SUBSCRIBER_QUEUE_SIZE"
  shows "queues (publish sid None (publish sid (Some chunk) w)) q = queues w q"
    and "\<exists>s'. find_session (publish sid (Some chunk) w) sid = Some s' \<and> q \<notin> set (subscribers s')"
  using assms by (auto simp: publish_def Let_def split: option.split)

end
