(* ===== verification/Environment.thy ===== *)
theory Environment
  imports Framebuffer File_System
begin

section \<open>Reading the environment\<close>

text \<open>
  What Python does with the text of an environment variable: \<open>int\<close>, \<open>float\<close>, \<open>strip\<close> and \<open>lower\<close>,
  paths, and the shortest decimal form of a float (\<open>repr\<close>).  Values are Latin-1 text: of those
  characters only \<open>0\<close> to \<open>9\<close> are decimal digits.  A path keeps its components without empty ones and
  dots, as \<open>pathlib\<close> does (the special root of exactly two slashes is read as one).
\<close>

type_synonym environment = "string \<Rightarrow> string option"

definition str_space :: "char \<Rightarrow> bool" where
  "str_space c = ((of_char c :: nat) \<in> {9, 10, 11, 12, 13, 28, 29, 30, 31, 32, 133, 160})"

definition char_digit :: "char \<Rightarrow> bool" where
  "char_digit c = (48 \<le> (of_char c :: nat) \<and> (of_char c :: nat) \<le> 57)"

definition lower_char :: "char \<Rightarrow> char" where
  "lower_char c = (let n = of_char c :: nat in
     if 65 \<le> n \<and> n \<le> 90 \<or> 192 \<le> n \<and> n \<le> 222 \<and> n \<noteq> 215 then char_of (n + 32) else c)"

definition int_of_text :: "string \<Rightarrow> int option" where
  "int_of_text s = py_int (ascii (strip_by str_space s))"

text \<open>Underscores are allowed between two digits only, and then ignored.\<close>

fun underscores_ok :: "bool \<Rightarrow> string \<Rightarrow> bool" where
  "underscores_ok prev [] = True"
| "underscores_ok prev (c # s) =
     (if c = CHR ''_'' then prev \<and> (case s of [] \<Rightarrow> False | d # t \<Rightarrow> char_digit d) \<and> underscores_ok False s
      else underscores_ok (char_digit c) s)"

definition char_digits_val :: "string \<Rightarrow> nat" where
  "char_digits_val ds = foldl (\<lambda>a d. a * 10 + (of_char d - 48)) 0 ds"

definition decimal :: "bool \<Rightarrow> nat \<Rightarrow> int \<Rightarrow> pyfloat" where
  "decimal neg m e =
     (let s = (if neg then -1 else 1) in
      if 0 \<le> e then round53 (s * int m * 10 ^ nat e) 0 else true_div (s * int m) (10 ^ nat (- e)))"

definition decimal_of_text :: "bool \<Rightarrow> string \<Rightarrow> pyfloat option" where
  "decimal_of_text neg s =
     (let ip = takeWhile char_digit s; r1 = dropWhile char_digit s;
          point = (case r1 of c # t \<Rightarrow> c = CHR ''.'' | [] \<Rightarrow> False);
          fp = (if point then takeWhile char_digit (tl r1) else []);
          r2 = (if point then dropWhile char_digit (tl r1) else r1) in
      if ip = [] \<and> fp = [] then None
      else case r2 of
        [] \<Rightarrow> Some (decimal neg (char_digits_val (ip @ fp)) (- int (length fp)))
      | c # t \<Rightarrow>
          if c \<noteq> CHR ''e'' then None
          else let minus = (case t of d # u \<Rightarrow> d = CHR ''-'' | [] \<Rightarrow> False);
                   ds = (case t of d # u \<Rightarrow> if d = CHR ''-'' \<or> d = CHR ''+'' then u else t | [] \<Rightarrow> []) in
            if ds = [] \<or> \<not> list_all char_digit ds then None
            else Some (decimal neg (char_digits_val (ip @ fp))
              ((if minus then -1 else 1) * int (char_digits_val ds) - int (length fp))))"

definition float_of_text :: "string \<Rightarrow> pyfloat option" where
  "float_of_text s =
     (let t = map lower_char (strip_by str_space s);
          neg = (case t of c # u \<Rightarrow> c = CHR ''-'' | [] \<Rightarrow> False);
          body = (case t of c # u \<Rightarrow> if c = CHR ''-'' \<or> c = CHR ''+'' then u else t | [] \<Rightarrow> []) in
      if body = ''inf'' \<or> body = ''infinity'' then Some (Inf neg)
      else if body = ''nan'' then Some NaN
      else if \<not> underscores_ok False t then None
      else decimal_of_text neg (filter (\<lambda>c. c \<noteq> CHR ''_'') body))"

text \<open>Comparison of floats; \<open>NaN\<close> is neither below nor above anything.\<close>

fun fless :: "pyfloat \<Rightarrow> pyfloat \<Rightarrow> bool" where
  "fless (Fin m e) (Fin n d) = (m * 2 ^ nat (e - min e d) < n * 2 ^ nat (d - min e d))"
| "fless (Inf s) (Fin n d) = s"
| "fless (Fin m e) (Inf s) = (\<not> s)"
| "fless (Inf s) (Inf t) = (s \<and> \<not> t)"
| "fless _ _ = False"

fun fsame :: "pyfloat \<Rightarrow> pyfloat \<Rightarrow> bool" where
  "fsame (Fin m e) (Fin n d) = (m * 2 ^ nat (e - min e d) = n * 2 ^ nat (d - min e d))"
| "fsame (Inf s) (Inf t) = (s = t)"
| "fsame _ _ = False"

definition fle :: "pyfloat \<Rightarrow> pyfloat \<Rightarrow> bool" where
  "fle x y = (fless x y \<or> fsame x y)"

fun is_integer :: "pyfloat \<Rightarrow> bool" where
  "is_integer (Fin m e) = (0 \<le> e \<or> 2 ^ nat (- e) dvd m)"
| "is_integer _ = False"

text \<open>
  \<open>str\<close> of a positive float between a tenth and ten, the range of the CPU limit: the fewest
  significant digits, up to 17, whose decimal value rounds back to the float.
\<close>

definition times_power10 :: "pyfloat \<Rightarrow> nat \<Rightarrow> int" where
  "times_power10 x k = (case x of
       Fin m e \<Rightarrow> (if 0 \<le> e then m * 2 ^ nat e * 10 ^ k else rhe (m * 10 ^ k) (2 ^ nat (- e)))
     | _ \<Rightarrow> 0)"

fun shortest :: "pyfloat \<Rightarrow> nat \<Rightarrow> nat \<Rightarrow> nat \<times> nat" where
  "shortest x k 0 = (nat (times_power10 x k), k)"
| "shortest x k (Suc n) =
     (if fsame (decimal False (nat (times_power10 x k)) (- int k)) x
      then (nat (times_power10 x k), k) else shortest x (Suc k) n)"

definition float_text :: "pyfloat \<Rightarrow> string" where
  "float_text x = (case shortest x 1 16 of (m, k) \<Rightarrow>
     str_nat (m div 10 ^ k) @ ''.'' @ (let ds = str_nat (m mod 10 ^ k) in replicate (k - length ds) (CHR ''0'') @ ds))"

subsection \<open>Paths\<close>

fun split_fields :: "char \<Rightarrow> string \<Rightarrow> string list" where
  "split_fields c [] = [[]]"
| "split_fields c (x # xs) = (case split_fields c xs of
     [] \<Rightarrow> [[]]
   | w # ws \<Rightarrow> if x = c then [] # w # ws else (x # w) # ws)"

definition path_of :: "string \<Rightarrow> path" where
  "path_of s = (let cs = filter (\<lambda>c. c \<noteq> [] \<and> c \<noteq> ''.'') (split_fields (CHR ''/'') s) in
     if take 1 s = ''/'' then Abs cs else Rel cs)"

text \<open>
  Following the links of an absolute path, one component at a time, as the kernel does: at most 40
  links.  \<open>strict\<close> resolution raises where a component is missing.
\<close>

function walk :: "nat \<Rightarrow> filesys \<Rightarrow> string list \<Rightarrow> string list \<Rightarrow> exn + string list" where
  "walk links fs done [] = Inr done"
| "walk links fs done (c # todo) =
     (if c = ''..'' then walk links fs (butlast done) todo
      else case fs (Abs (done @ [c])) of
        None \<Rightarrow> Inl (FileNotFoundError (str_path (Abs (done @ [c]))))
      | Some node \<Rightarrow> (case kind node of
          Symlink target \<Rightarrow>
            if 40 \<le> links then Inl (OSError ''too many levels of symbolic links'')
            else (case target of
              Abs ds \<Rightarrow> walk (Suc links) fs [] (ds @ todo)
            | Rel ds \<Rightarrow> walk (Suc links) fs done (ds @ todo))
        | Directory \<Rightarrow> walk links fs (done @ [c]) todo
        | _ \<Rightarrow> if todo = [] then Inr (done @ [c]) else Inl (OSError ''not a directory'')))"
  by pat_completeness auto
termination
  by (relation "measures [\<lambda>(links, fs, done, todo). 40 - links, \<lambda>(links, fs, done, todo). length todo]") auto

definition resolve_strict :: "filesys \<Rightarrow> path \<Rightarrow> exn + path" where
  "resolve_strict fs p = (case walk 0 fs [] (parts p) of Inl e \<Rightarrow> Inl e | Inr cs \<Rightarrow> Inr (Abs cs))"

text \<open>\<open>lstat\<close>: the links of the parents are followed, the last one is not.\<close>

definition os_lstat :: "filesys \<Rightarrow> path \<Rightarrow> exn + node" where
  "os_lstat fs p = (if parts p = [] then lstat fs (Abs [])
     else case resolve_strict fs (parent p) of
       Inl e \<Rightarrow> Inl e
     | Inr d \<Rightarrow> lstat fs (child d (last (parts p))))"

text \<open>A resolved path is free of links and of dots: resolving it again leads to itself.\<close>

definition solid :: "filesys \<Rightarrow> string list \<Rightarrow> bool" where
  "solid fs cs \<longleftrightarrow> (\<forall>i < length cs. cs ! i \<noteq> ''..''
     \<and> (\<exists>n. fs (Abs (take (Suc i) cs)) = Some n \<and> kind n = Directory))"

definition firm :: "filesys \<Rightarrow> string list \<Rightarrow> bool" where
  "firm fs cs \<longleftrightarrow> cs = [] \<or> (solid fs (butlast cs) \<and> last cs \<noteq> ''..''
     \<and> (\<exists>n. fs (Abs cs) = Some n \<and> \<not> is_lnk (kind n)))"

lemma solid_snoc:
  "solid fs (cs @ [c]) \<longleftrightarrow> solid fs cs \<and> c \<noteq> ''..'' \<and> (\<exists>n. fs (Abs (cs @ [c])) = Some n \<and> kind n = Directory)"
  by (auto simp: solid_def nth_append less_Suc_eq)

lemma solid_firm: "solid fs cs \<Longrightarrow> firm fs cs"
  by (cases cs rule: rev_cases) (auto simp: firm_def solid_snoc)

lemma solid_butlast: "solid fs cs \<Longrightarrow> solid fs (butlast cs)"
  by (cases cs rule: rev_cases) (auto simp: solid_snoc)

lemma walk_firm: "walk links fs done todo = Inr ds \<Longrightarrow> solid fs done \<Longrightarrow> firm fs ds"
proof (induction links fs "done" todo rule: walk.induct)
  case (1 links fs "done")
  then show ?case by (simp add: solid_firm)
next
  case (2 links fs "done" c todo)
  show ?case
  proof (cases "c = ''..''")
    case True
    then show ?thesis using 2 by (simp add: solid_butlast)
  next
    case False
    then obtain node where node: "fs (Abs (done @ [c])) = Some node" using 2 by (cases "fs (Abs (done @ [c]))") auto
    show ?thesis
    proof (cases "kind node")
      case (Regular bs)
      then show ?thesis using "2.prems" False node by (auto simp: firm_def split: if_splits)
    next
      case Directory
      then have "solid fs (done @ [c])" using "2.prems"(2) False node by (simp add: solid_snoc)
      then show ?thesis using "2.IH"(2) [OF False node Directory] "2.prems"(1) False node Directory by simp
    next
      case (Symlink target)
      have l: "\<not> 40 \<le> links" using "2.prems"(1) False node Symlink by (auto split: if_splits)
      have e: "solid fs []" by (simp add: solid_def)
      show ?thesis
        using "2.IH"(3) [OF False node Symlink l] "2.IH"(4) [OF False node Symlink l] "2.prems" False node Symlink l e
        by (cases target) auto
    next
      case Socket
      then show ?thesis using "2.prems" False node by (auto simp: firm_def split: if_splits)
    qed
  qed
qed

lemma walk_solid: "solid fs (done @ xs) \<Longrightarrow> walk links fs done (xs @ ys) = walk links fs (done @ xs) ys"
proof (induction xs arbitrary: "done")
  case Nil
  then show ?case by simp
next
  case (Cons x xs)
  then have "solid fs ((done @ [x]) @ xs)" by simp
  moreover have "x \<noteq> ''..'' \<and> (\<exists>n. fs (Abs (done @ [x])) = Some n \<and> kind n = Directory)"
    using Cons.prems unfolding solid_def by (elim allE [of _ "length done"]) (simp add: nth_append)
  ultimately show ?case using Cons.IH [of "done @ [x]"] by auto
qed

lemma walk_of_firm: "firm fs cs \<Longrightarrow> walk links fs [] cs = Inr cs"
proof (cases cs rule: rev_cases)
  case (snoc ds d)
  assume f: "firm fs cs"
  then have "walk links fs [] (ds @ [d]) = walk links fs ds [d]"
    using snoc walk_solid [of fs "[]" ds links "[d]"] by (simp add: firm_def)
  then show ?thesis using f snoc by (auto simp: firm_def split: file_kind.splits)
qed simp

lemma resolve_idem:
  "resolve_strict fs p = Inr q \<Longrightarrow> resolve_strict fs q = Inr q \<and> firm fs (parts q)"
proof -
  assume "resolve_strict fs p = Inr q"
  then obtain cs where cs: "walk 0 fs [] (parts p) = Inr cs" "q = Abs cs"
    by (auto simp: resolve_strict_def split: sum.splits)
  have "firm fs cs" by (rule walk_firm [OF cs(1)]) (simp add: solid_def)
  then show ?thesis using cs(2) walk_of_firm by (simp add: resolve_strict_def)
qed

end
