(* ===== verification/Oci.thy ===== *)
theory Oci
  imports Environment Broker_Protocol Qemu
begin

section \<open>The worker isolation policy (oci.py)\<close>

text \<open>
  The broker's settings, read from the environment and validated against fixed bounds; the checks on
  the session directory a client may name; the Docker commands that are built from them.  The
  broker's own user id is \<open>getuid\<close>.  Names shared with the service's settings carry a prefix.
\<close>

definition low_alnum :: "(nat \<times> nat) list" where "low_alnum = [(97, 122), (48, 57)]"
definition alnum :: "(nat \<times> nat) list" where "alnum = [(65, 90), (97, 122), (48, 57)]"
definition digit_class :: "(nat \<times> nat) list" where "digit_class = [(48, 57)]"

fun rseqs :: "rx list \<Rightarrow> rx" where
  "rseqs [] = REps"
| "rseqs (r # rs) = RSeq r (rseqs rs)"

definition IMAGE_REFERENCE :: rx where
  "IMAGE_REFERENCE = RSeq
     (RAlt
       (rseqs [RClass low_alnum, RStar (RClass (low_alnum @ rchars ''._-'')),
          RAlt REps (rseqs [rlit '':'', RClass digit_class, RStar (RClass digit_class)]), rlit ''/'',
          RClass low_alnum, RStar (RClass (low_alnum @ rchars ''._/-'')), rlit ''@sha256:''])
       (rlit ''sha256:''))
     (rtimes 64 (RClass hex_class))"

definition APPARMOR_PROFILE :: rx where
  "APPARMOR_PROFILE = RSeq (RClass alnum) (rupto 127 (RClass (alnum @ rchars ''_.-'')))"

definition UNIX_DOCKER_HOST :: rx where
  "UNIX_DOCKER_HOST = rseqs [rlit ''unix:///run/user/'', RClass [(49, 57)], RStar (RClass digit_class),
     rlit ''/docker.sock'']"

definition CONTAINER_NAME_PREFIX :: string where "CONTAINER_NAME_PREFIX = ''esp32-s3-worker-''"

definition CONTAINER_NAME :: rx where
  "CONTAINER_NAME = RSeq (rlit CONTAINER_NAME_PREFIX) (rtimes 32 (RClass hex_class))"

definition MANAGED_LABEL :: string where
  "MANAGED_LABEL = ''com.zillionvisionary.esp32-simulator.managed=true''"

definition SESSION_LABEL_PREFIX :: string where
  "SESSION_LABEL_PREFIX = ''com.zillionvisionary.esp32-simulator.session=''"

subsection \<open>Settings\<close>

record oci_settings =
  broker_socket :: path
  broker_root :: path
  docker_executable :: path
  docker_host :: string
  image_reference :: string
  seccomp_profile_path :: path
  apparmor_profile :: string
  allowed_core_uid :: int
  shared_group_gid :: int
  max_workers :: int
  memory_mib :: int
  cpus :: pyfloat
  pids_limit :: int
  tmpfs_mib :: int
  wall_time_seconds :: int
  stop_timeout_seconds :: int
  container_qemu :: path
  container_roms :: path
  allow_same_identity :: bool

definition required_environment :: "environment \<Rightarrow> string \<Rightarrow> exn + string" where
  "required_environment en name = (case en name of
       Some v \<Rightarrow> if v = [] then Inl (OciPolicyError (''required broker setting is missing: '' @ name)) else Inr v
     | None \<Rightarrow> Inl (OciPolicyError (''required broker setting is missing: '' @ name)))"

definition parse_integer :: "string \<Rightarrow> string \<Rightarrow> exn + int" where
  "parse_integer name v = (case int_of_text v of
       None \<Rightarrow> Inl (OciPolicyError (''broker setting is not an integer: '' @ name))
     | Some n \<Rightarrow> Inr n)"

definition parse_float :: "string \<Rightarrow> string \<Rightarrow> exn + pyfloat" where
  "parse_float name v = (case float_of_text v of
       None \<Rightarrow> Inl (OciPolicyError (''broker setting is not a number: '' @ name))
     | Some x \<Rightarrow>
         if \<not> is_integer x \<and> \<not> (fless (Fin 0 0) x \<and> fless x (Fin 100 0))
         then Inl (OciPolicyError (''broker setting is not a finite number: '' @ name))
         else Inr x)"

definition validate_cli_path :: "filesys \<Rightarrow> path \<Rightarrow> string \<Rightarrow> exn + unit" where
  "validate_cli_path fs p label =
     (if \<not> is_absolute p then Inl (OciPolicyError (label @ '' must be an absolute path''))
      else case os_lstat fs p of
        Inl (FileNotFoundError m) \<Rightarrow> Inl (OciPolicyError (label @ '' does not exist''))
      | Inl e \<Rightarrow> Inl e
      | Inr n \<Rightarrow>
          if is_lnk (kind n) \<or> \<not> is_reg (kind n)
          then Inl (OciPolicyError (label @ '' must be a non-symlink regular file''))
          else if mode n AND octal [0, 2, 2] \<noteq> 0
          then Inl (OciPolicyError (label @ '' must not be group- or world-writable''))
          else Inr ())"

definition validate_mount_text :: "string \<Rightarrow> string \<Rightarrow> exn + unit" where
  "validate_mount_text v label =
     (if CHR '','' \<in> set v \<or> list_ex (\<lambda>c. (of_char c :: nat) < 0x20) v
      then Inl (OciPolicyError (label @ '' cannot be represented safely in Docker mount syntax'')) else Inr ())"

definition policy_check :: "bool \<Rightarrow> string \<Rightarrow> exn + unit" where
  "policy_check b m = ensure b (OciPolicyError m)"

fun all_checks :: "(exn + unit) list \<Rightarrow> exn + unit" where
  "all_checks [] = Inr ()"
| "all_checks (c # cs) = (case c of Inl e \<Rightarrow> Inl e | Inr u \<Rightarrow> all_checks cs)"

definition is_prefix :: "string \<Rightarrow> string \<Rightarrow> bool" where
  "is_prefix p s = (take (length p) s = p)"

definition validate_container_path :: "path \<Rightarrow> string \<Rightarrow> exn + unit" where
  "validate_container_path p label =
     policy_check (is_absolute p \<and> is_prefix ''/opt/esp32-s3/'' (str_path p)) (label @ '' must stay under /opt/esp32-s3'')"

definition rootless_host :: "int \<Rightarrow> string" where
  "rootless_host getuid = ''unix:///run/user/'' @ str_int getuid @ ''/docker.sock''"

definition validate_oci :: "filesys \<Rightarrow> int \<Rightarrow> oci_settings \<Rightarrow> exn + unit" where
  "validate_oci fs getuid s = all_checks [
     policy_check (is_absolute (broker_socket s) \<and> is_absolute (broker_root s))
       ''broker socket and runtime root must be absolute paths'',
     validate_mount_text (str_path (broker_root s)) ''runtime root'',
     validate_cli_path fs (docker_executable s) ''Docker client'',
     validate_cli_path fs (seccomp_profile_path s) ''seccomp profile'',
     policy_check (fullmatch UNIX_DOCKER_HOST (lit (docker_host s)) \<and> docker_host s = rootless_host getuid)
       ''Docker host must be a dedicated rootless Unix socket'',
     policy_check (fullmatch IMAGE_REFERENCE (lit (image_reference s)))
       ''worker image must use an immutable sha256 digest'',
     policy_check (fullmatch APPARMOR_PROFILE (lit (apparmor_profile s))) ''AppArmor profile name is invalid'',
     policy_check (0 < allowed_core_uid s \<and> 0 < shared_group_gid s)
       ''core UID and shared group GID must be non-root identities'',
     policy_check (allowed_core_uid s \<noteq> getuid \<or> allow_same_identity s)
       ''broker and core must use different operating-system identities'',
     policy_check (1 \<le> max_workers s \<and> max_workers s \<le> 8) ''maximum workers must be between 1 and 8'',
     policy_check (256 \<le> memory_mib s \<and> memory_mib s \<le> 2048) ''worker memory must be between 256 and 2048 MiB'',
     policy_check (fle (true_div 1 10) (cpus s) \<and> fle (cpus s) (Fin 2 0)) ''worker CPUs must be between 0.1 and 2.0'',
     policy_check (16 \<le> pids_limit s \<and> pids_limit s \<le> 256) ''worker PID limit must be between 16 and 256'',
     policy_check (1 \<le> tmpfs_mib s \<and> tmpfs_mib s \<le> 64) ''worker tmpfs must be between 1 and 64 MiB'',
     policy_check (30 \<le> wall_time_seconds s \<and> wall_time_seconds s \<le> 900)
       ''worker wall time must be between 30 and 900 seconds'',
     policy_check (1 \<le> stop_timeout_seconds s \<and> stop_timeout_seconds s \<le> 10)
       ''worker stop timeout must be between 1 and 10 seconds'',
     validate_container_path (container_qemu s) ''container QEMU executable'',
     validate_container_path (container_roms s) ''container QEMU ROM directory'']"

definition env_default :: "environment \<Rightarrow> string \<Rightarrow> string \<Rightarrow> string" where
  "env_default en name d = (case en name of None \<Rightarrow> d | Some v \<Rightarrow> v)"

definition env_integer :: "environment \<Rightarrow> string \<Rightarrow> string \<Rightarrow> exn + int" where
  "env_integer en name d = parse_integer name (env_default en name d)"

definition oci_from_environment :: "filesys \<Rightarrow> int \<Rightarrow> environment \<Rightarrow> exn + oci_settings" where
  "oci_from_environment fs getuid en =
     sum_bind (required_environment en ''SIMULATOR_ROOTLESS_DOCKER_HOST'') (\<lambda>host.
     sum_bind (required_environment en ''SIMULATOR_WORKER_IMAGE'') (\<lambda>image.
     sum_bind (required_environment en ''SIMULATOR_WORKER_SECCOMP_PROFILE'') (\<lambda>seccomp.
     sum_bind (required_environment en ''SIMULATOR_WORKER_APPARMOR_PROFILE'') (\<lambda>apparmor.
     sum_bind (required_environment en ''SIMULATOR_ALLOWED_CORE_UID'') (\<lambda>uid_text.
     sum_bind (parse_integer ''SIMULATOR_ALLOWED_CORE_UID'' uid_text) (\<lambda>core_uid.
     sum_bind (required_environment en ''SIMULATOR_SHARED_GROUP_GID'') (\<lambda>gid_text.
     sum_bind (parse_integer ''SIMULATOR_SHARED_GROUP_GID'' gid_text) (\<lambda>group_gid.
     sum_bind (env_integer en ''SIMULATOR_BROKER_MAX_WORKERS'' ''2'') (\<lambda>workers.
     sum_bind (env_integer en ''SIMULATOR_WORKER_MEMORY_MIB'' ''1536'') (\<lambda>memory.
     sum_bind (parse_float ''SIMULATOR_WORKER_CPUS'' (env_default en ''SIMULATOR_WORKER_CPUS'' ''1.0'')) (\<lambda>cpu.
     sum_bind (env_integer en ''SIMULATOR_WORKER_PIDS'' ''96'') (\<lambda>pids.
     sum_bind (env_integer en ''SIMULATOR_WORKER_TMPFS_MIB'' ''16'') (\<lambda>tmpfs.
     sum_bind (env_integer en ''SIMULATOR_WORKER_WALL_SECONDS'' ''240'') (\<lambda>wall.
     sum_bind (env_integer en ''SIMULATOR_WORKER_STOP_SECONDS'' ''3'') (\<lambda>stop_seconds.
       let s = \<lparr>broker_socket = path_of (env_default en ''SIMULATOR_WORKER_BROKER_SOCKET'' ''/run/esp32-simulator/worker-broker.sock''),
           broker_root = path_of (env_default en ''SIMULATOR_RUNTIME_ROOT'' ''/run/esp32-simulator/sessions''),
           docker_executable = path_of (env_default en ''SIMULATOR_ROOTLESS_DOCKER'' ''/usr/bin/docker''),
           docker_host = host, image_reference = image, seccomp_profile_path = path_of seccomp,
           apparmor_profile = apparmor, allowed_core_uid = core_uid, shared_group_gid = group_gid,
           max_workers = workers, memory_mib = memory, cpus = cpu, pids_limit = pids, tmpfs_mib = tmpfs,
           wall_time_seconds = wall, stop_timeout_seconds = stop_seconds,
           container_qemu = Abs [''opt'', ''esp32-s3'', ''bin'', ''qemu-system-xtensa''],
           container_roms = Abs [''opt'', ''esp32-s3'', ''share'', ''qemu''], allow_same_identity = False\<rparr> in
       sum_bind (validate_oci fs getuid s) (\<lambda>u. Inr s))))))))))))))))"

subsection \<open>The session directory\<close>

definition docker_prefix :: "oci_settings \<Rightarrow> string list" where
  "docker_prefix s = [str_path (docker_executable s), ''--host'', docker_host s]"

definition container_name :: "utext \<Rightarrow> exn + string" where
  "container_name sid = sum_bind (StartRequest sid (lit (fst (hd BOARD_PROFILES))))
     (\<lambda>r. Inr (CONTAINER_NAME_PREFIX @ show_text (req_session_id r)))"

text \<open>\<open>except FileNotFoundError\<close>.\<close>

fun missing_as :: "string \<Rightarrow> exn + 'a \<Rightarrow> exn + 'a" where
  "missing_as m (Inl (FileNotFoundError x)) = Inl (OciPolicyError m)"
| "missing_as m r = r"

definition board_of :: "utext \<Rightarrow> exn + board_profile" where
  "board_of b = (case find (\<lambda>(k, p). lit k = b) BOARD_PROFILES of
       None \<Rightarrow> Inl (KeyError (show_text b)) | Some (k, p) \<Rightarrow> Inr p)"

definition validate_flash :: "filesys \<Rightarrow> oci_settings \<Rightarrow> path \<Rightarrow> start_request \<Rightarrow> exn + unit" where
  "validate_flash fs s p request =
     sum_bind (missing_as ''session flash image is unavailable'' (os_lstat fs p)) (\<lambda>n.
     sum_bind (policy_check (\<not> is_lnk (kind n) \<and> is_reg (kind n)) ''session flash image must be a non-symlink regular file'') (\<lambda>_.
     sum_bind (policy_check (uid n = allowed_core_uid s \<and> gid n = shared_group_gid s)
       ''session flash image has unexpected ownership'') (\<lambda>_.
     sum_bind (policy_check (mode n AND octal [0, 0, 7] = 0 \<and> mode n AND octal [6, 6, 0] = octal [6, 6, 0])
       ''session flash image permissions do not match shared isolation'') (\<lambda>_.
     sum_bind (board_of (req_board_id request)) (\<lambda>board.
       policy_check (file_size (kind n) = flash_size_bytes board) ''session flash image size does not match the board'')))))"

definition session_directory :: "filesys \<Rightarrow> oci_settings \<Rightarrow> start_request \<Rightarrow> exn + path" where
  "session_directory fs s request =
     sum_bind (missing_as ''runtime root is unavailable'' (os_lstat fs (broker_root s))) (\<lambda>root.
     sum_bind (missing_as ''runtime root is unavailable'' (resolve_strict fs (broker_root s))) (\<lambda>resolved_root.
     sum_bind (policy_check (\<not> is_lnk (kind root) \<and> is_dir (kind root)) ''runtime root must be a non-symlink directory'') (\<lambda>_.
     sum_bind (policy_check (uid root = allowed_core_uid s \<and> gid root = shared_group_gid s
         \<and> mode root AND octal [0, 0, 7] = 0 \<and> mode root AND octal [0, 7, 0] = octal [0, 7, 0])
       ''runtime root ownership or permissions are unsafe'') (\<lambda>_.
     let expected = child (broker_root s) (show_text (req_session_id request)) in
     sum_bind (missing_as ''session directory is unavailable'' (os_lstat fs expected)) (\<lambda>directory.
     sum_bind (missing_as ''session directory is unavailable'' (resolve_strict fs expected)) (\<lambda>resolved.
     sum_bind (policy_check (\<not> is_lnk (kind directory) \<and> is_dir (kind directory) \<and> parent resolved = resolved_root
         \<and> resolved = child resolved_root (show_text (req_session_id request)))
       ''session directory escaped the runtime root'') (\<lambda>_.
     sum_bind (policy_check (uid directory = allowed_core_uid s) ''session directory has an unexpected owner'') (\<lambda>_.
     sum_bind (policy_check (gid directory = shared_group_gid s) ''session directory has an unexpected group'') (\<lambda>_.
     sum_bind (policy_check (mode directory AND octal [0, 0, 7] = 0 \<and> mode directory AND octal [0, 7, 0] = octal [0, 7, 0])
       ''session directory permissions do not match shared isolation'') (\<lambda>_.
     sum_bind (validate_mount_text (str_path resolved) ''session directory'') (\<lambda>_.
     sum_bind (validate_flash fs s (child resolved ''flash.bin'') request) (\<lambda>_. Inr resolved))))))))))))"

subsection \<open>Docker commands\<close>

definition container_config :: "oci_settings \<Rightarrow> qemu_worker_config" where
  "container_config s = \<lparr>executable = container_qemu s, rom_directory = container_roms s, sandbox_mode = DIRECT,
     sandbox_executable = Abs [''usr'', ''bin'', ''bwrap''], sandbox_readonly_paths = DEFAULT_SANDBOX_READONLY_PATHS,
     broker_socket_path = Abs [''run'', ''esp32-simulator'', ''worker-broker.sock'']\<rparr>"

definition mount_option :: "path \<Rightarrow> string" where
  "mount_option d = ''type=bind,src='' @ str_path d @ '',dst=/runtime,bind-propagation=rprivate''"

definition run_options :: "oci_settings \<Rightarrow> start_request \<Rightarrow> path \<Rightarrow> string list" where
  "run_options s request d =
     [''run'', ''--rm'', ''--interactive'', ''--pull=never'',
      ''--name'', CONTAINER_NAME_PREFIX @ show_text (req_session_id request),
      ''--label'', MANAGED_LABEL, ''--label'', SESSION_LABEL_PREFIX @ show_text (req_session_id request),
      ''--network=none'', ''--ipc=none'', ''--read-only'', ''--cap-drop=ALL'',
      ''--security-opt'', ''no-new-privileges=true'',
      ''--security-opt'', ''seccomp='' @ str_path (seccomp_profile_path s),
      ''--security-opt'', ''apparmor='' @ apparmor_profile s,
      ''--pids-limit'', str_int (pids_limit s),
      ''--memory'', str_int (memory_mib s) @ ''m'', ''--memory-swap'', str_int (memory_mib s) @ ''m'',
      ''--cpus'', float_text (cpus s),
      ''--ulimit'', ''nofile=64:64'', ''--ulimit'', ''fsize=67108864:67108864'',
      ''--stop-timeout'', str_int (stop_timeout_seconds s), ''--stop-signal'', ''SIGTERM'', ''--log-driver=none'',
      ''--tmpfs'', ''/tmp:rw,noexec,nosuid,nodev,size='' @ str_int (tmpfs_mib s) @ ''m,mode=1777'',
      ''--mount'', mount_option d, ''--workdir'', ''/runtime'',
      ''--env'', ''LANG=C.UTF-8'', ''--env'', ''PATH=/opt/esp32-s3/bin:/usr/bin:/bin'']"

definition build_worker_command :: "filesys \<Rightarrow> oci_settings \<Rightarrow> start_request \<Rightarrow> exn + string list" where
  "build_worker_command fs s request =
     sum_bind (session_directory fs s request) (\<lambda>d.
     sum_bind (board_of (req_board_id request)) (\<lambda>board.
       Inr (docker_prefix s @ run_options s request d @ [image_reference s]
         @ build_qemu_process_command (container_config s) board (Abs [''runtime'', ''flash.bin''])
             (Some (Abs [''runtime'', ''qmp.sock''])) (Some (Abs [''runtime'', ''gdb.sock''])) True True)))"

definition control_command :: "oci_settings \<Rightarrow> string \<Rightarrow> utext \<Rightarrow> exn + string list" where
  "control_command s action sid =
     (if action \<notin> {''stop'', ''kill'', ''rm''} then Inl (OciPolicyError ''Docker control action is not allowed'')
      else sum_bind (container_name sid) (\<lambda>name. Inr (docker_prefix s @
        (if action = ''stop'' then [''stop'', ''--time'', str_int (stop_timeout_seconds s), name]
         else if action = ''rm'' then [''rm'', ''--force'', name]
         else [''kill'', name]))))"

definition list_managed_command :: "oci_settings \<Rightarrow> string list" where
  "list_managed_command s = docker_prefix s @
     [''ps'', ''--all'', ''--format'', ''{{.Names}}'', ''--filter'', ''label='' @ MANAGED_LABEL]"

definition session_id_from_container_name :: "utext \<Rightarrow> exn + utext" where
  "session_id_from_container_name v =
     (if fullmatch CONTAINER_NAME v then Inr (drop (length CONTAINER_NAME_PREFIX) v)
      else Inl (OciPolicyError ''Docker returned an invalid managed container name''))"

subsection \<open>The directory a worker gets\<close>

lemma missing_as_Inr [simp]: "missing_as m r = Inr x \<longleftrightarrow> r = Inr x"
  by (cases "(m, r)" rule: missing_as.cases) auto

lemma policy_check_Inr [simp]: "policy_check b m = Inr u \<longleftrightarrow> b"
  by (simp add: policy_check_def)

lemma os_lstat_child:
  "resolve_strict fs d = Inr r \<Longrightarrow> os_lstat fs (child d c) = lstat fs (child r c)"
  by (cases d) (simp_all add: os_lstat_def)

lemma lstat_Inr [simp]: "lstat fs p = Inr n \<longleftrightarrow> fs p = Some n"
  by (simp add: lstat_def split: option.split)

text \<open>The access the policy requires of a node: the two identities, and nothing for others.\<close>

definition shared_node :: "oci_settings \<Rightarrow> nat \<Rightarrow> node \<Rightarrow> bool" where
  "shared_node s bits n \<longleftrightarrow> uid n = allowed_core_uid s \<and> gid n = shared_group_gid s
     \<and> mode n AND 7 = 0 \<and> mode n AND bits = bits"

lemma validate_flash_Inr:
  assumes "validate_flash fs s (child d ''flash.bin'') r = Inr u" "resolve_strict fs d = Inr d"
  shows "\<exists>n bs board. fs (child d ''flash.bin'') = Some n \<and> kind n = Regular bs
     \<and> board_of (req_board_id r) = Inr board \<and> length bs = flash_size_bytes board \<and> shared_node s 432 n"
  using assms(1)
  by (auto simp: validate_flash_def os_lstat_child [OF assms(2)] shared_node_def elim!: is_reg.elims)

text \<open>
  C5. The directory handed to a container cannot be chosen by the client: when the policy accepts a
  request, the directory is the one named by the session id directly below the real location of
  the runtime root, it is no symbolic link and resolving it leads nowhere else, it belongs to the
  core user and the shared group and is closed to others, and it holds a regular flash image
  of exactly the board's size with the same protection.
\<close>

theorem session_directory_confined:
  assumes "session_directory fs s r = Inr d"
  shows "\<exists>root. resolve_strict fs (broker_root s) = Inr root \<and> d = child root (show_text (req_session_id r))
    \<and> resolve_strict fs d = Inr d
    \<and> (\<exists>n. fs d = Some n \<and> kind n = Directory \<and> shared_node s 56 n)
    \<and> (\<exists>n bs board. fs (child d ''flash.bin'') = Some n \<and> kind n = Regular bs \<and> shared_node s 432 n
        \<and> board_of (req_board_id r) = Inr board \<and> length bs = flash_size_bytes board)"
proof -
  let ?c = "show_text (req_session_id r)"
  obtain root n where root: "resolve_strict fs (broker_root s) = Inr root"
    and n: "os_lstat fs (child (broker_root s) ?c) = Inr n" "kind n = Directory" "shared_node s 56 n"
    and d: "resolve_strict fs (child (broker_root s) ?c) = Inr d" "d = child root ?c"
    and f: "validate_flash fs s (child d ''flash.bin'') r = Inr ()"
    using assms by (auto simp: session_directory_def Let_def shared_node_def elim!: is_dir.elims)
  have fsd: "fs d = Some n" using n(1) unfolding os_lstat_child [OF root] d(2) by simp
  have rd: "resolve_strict fs d = Inr d" using resolve_idem [OF d(1)] by blast
  from validate_flash_Inr [OF f rd] root d(2) rd fsd n(2,3) show ?thesis by blast
qed

subsection \<open>The container's mount and options\<close>

lemma split_fields_nonempty: "split_fields c s \<noteq> []"
  by (induction s) (auto split: list.split)

lemma split_fields_piece: "c \<notin> set xs \<Longrightarrow> split_fields c (xs @ c # ys) = xs # split_fields c ys"
proof (induction xs)
  case Nil
  then show ?case using split_fields_nonempty [of c ys] by (cases "split_fields c ys") auto
next
  case (Cons x xs)
  then show ?case by auto
qed

lemma split_fields_last: "c \<notin> set xs \<Longrightarrow> split_fields c xs = [xs]"
  by (induction xs) auto

text \<open>
  C38. The mount option cannot be injected into: whatever the runtime root and the session are called,
  an accepted request mounts exactly one directory, its own, at \<open>/runtime\<close>: Docker, which splits
  the option at commas, sees exactly the four fields written here.
\<close>

theorem mount_not_injectable:
  assumes "session_directory fs s r = Inr d"
  shows "split_fields (CHR '','') (mount_option d) =
    [''type=bind'', ''src='' @ str_path d, ''dst=/runtime'', ''bind-propagation=rprivate'']"
proof -
  have "CHR '','' \<notin> set (str_path d)"
    using assms by (auto simp: session_directory_def validate_mount_text_def Let_def split: if_splits)
  then have "CHR '','' \<notin> set (''src='' @ str_path d)" by simp
  then have "split_fields (CHR '','') (''type=bind'' @ CHR '','' # (''src='' @ str_path d) @ CHR '','' # ''dst=/runtime'' @ CHR '','' # ''bind-propagation=rprivate'')
    = [''type=bind'', ''src='' @ str_path d, ''dst=/runtime'', ''bind-propagation=rprivate'']"
    by (subst split_fields_piece, simp)+ (simp add: split_fields_last)
  then show ?thesis by (simp add: mount_option_def)
qed

text \<open>Options that would widen the container.\<close>

definition widening_options :: "string list" where
  "widening_options = [''-v'', ''--volume'', ''--privileged'', ''--device'', ''--cap-add'', ''-p'', ''--publish'',
     ''--pid='', ''--userns'', ''--uts'', ''--group-add'', ''--network=h'', ''--ipc=h'', ''--link'']"

definition widens :: "string \<Rightarrow> bool" where
  "widens o1 = list_ex (\<lambda>p. is_prefix p o1) widening_options"

lemma widens_dash: "c \<noteq> CHR ''-'' \<Longrightarrow> \<not> widens (c # s)"
  by (simp add: widens_def widening_options_def is_prefix_def)

lemma hd_str_nat: "hd (str_nat n) \<noteq> CHR ''-''"
proof -
  have "list_all j_digit (lit (str_nat n))" "lit (str_nat n) \<noteq> []"
    using decimal_digits [of n] by (simp_all add: str_nat_def lit_def)
  then show ?thesis by (cases "str_nat n") (auto simp: j_digit_def)
qed

lemma all_checks_Inr: "all_checks cs = Inr u \<longleftrightarrow> (\<forall>c\<in>set cs. c = Inr ())"
  by (induction cs) (auto split: sum.split)

lemma validate_oci_ok:
  assumes "validate_oci fs me s = Inr u"
  shows "fullmatch IMAGE_REFERENCE (lit (image_reference s))" "docker_host s = rootless_host me"
    "0 < allowed_core_uid s" "0 < shared_group_gid s" "allowed_core_uid s \<noteq> me \<or> allow_same_identity s"
    "1 \<le> max_workers s" "max_workers s \<le> 8" "256 \<le> memory_mib s" "memory_mib s \<le> 2048"
    "16 \<le> pids_limit s" "pids_limit s \<le> 256" "1 \<le> tmpfs_mib s" "tmpfs_mib s \<le> 64"
    "30 \<le> wall_time_seconds s" "wall_time_seconds s \<le> 900" "1 \<le> stop_timeout_seconds s" "stop_timeout_seconds s \<le> 10"
    "fle (true_div 1 10) (cpus s)" "fle (cpus s) (Fin 2 0)"
  using assms by (simp_all add: validate_oci_def all_checks_Inr del: all_checks.simps)

text \<open>The literal options, evaluated once.\<close>

definition literal_options :: "string list" where
  "literal_options = [''--rm'', ''--interactive'', ''--pull=never'', ''--name'', ''--label'', ''--network=none'',
     ''--ipc=none'', ''--read-only'', ''--cap-drop=ALL'', ''--security-opt'', ''--pids-limit'', ''--memory'',
     ''--memory-swap'', ''--cpus'', ''--ulimit'', ''--stop-timeout'', ''--stop-signal'', ''--log-driver=none'',
     ''--tmpfs'', ''--workdir'', ''--env'']"

definition narrow :: "string \<Rightarrow> bool" where
  "narrow x \<longleftrightarrow> \<not> widens x \<and> \<not> is_prefix ''--mount'' x"

lemma narrow_literals: "list_all narrow literal_options"
  by code_simp

lemmas narrow_literal = narrow_literals [unfolded literal_options_def list.pred_inject]

lemma narrow_dash [simp]: "c \<noteq> CHR ''-'' \<Longrightarrow> narrow (c # s)"
  by (simp add: narrow_def widens_dash is_prefix_def)

lemma narrow_nat: "narrow (str_nat k @ s)" "narrow (str_nat k)"
proof -
  obtain c t where c: "str_nat k = c # t" by (cases "str_nat k") (auto simp: str_nat_def)
  then have "c \<noteq> CHR ''-''" using hd_str_nat [of k] by simp
  then show "narrow (str_nat k @ s)" "narrow (str_nat k)" by (simp_all add: c)
qed

lemma narrow_int: "0 \<le> i \<Longrightarrow> narrow (str_int i @ s)" "0 \<le> i \<Longrightarrow> narrow (str_int i)"
  by (simp_all add: str_int_def narrow_nat)

lemma narrow_float: "narrow (float_text x)"
  by (simp add: float_text_def narrow_nat split: prod.split)

text \<open>Every option but the mount flag is harmless.\<close>

lemma run_options_split:
  "\<exists>xs ys. run_options s r d = xs @ ''--mount'' # ys
     \<and> (0 \<le> pids_limit s \<longrightarrow> 0 \<le> memory_mib s \<longrightarrow> 0 \<le> stop_timeout_seconds s \<longrightarrow> (\<forall>x\<in>set (xs @ ys). narrow x))"
proof -
  define ys where "ys = [mount_option d, ''--workdir'', ''/runtime'',
      ''--env'', ''LANG=C.UTF-8'', ''--env'', ''PATH=/opt/esp32-s3/bin:/usr/bin:/bin'']"
  have split: "run_options s r d = take 39 (run_options s r d) @ ''--mount'' # ys"
    by (simp add: run_options_def ys_def)
  have "list_all narrow ys" by (simp add: ys_def mount_option_def narrow_literal)
  moreover have "list_all narrow (take 39 (run_options s r d))"
    if "0 \<le> pids_limit s" "0 \<le> memory_mib s" "0 \<le> stop_timeout_seconds s"
    using that by (simp add: run_options_def CONTAINER_NAME_PREFIX_def MANAGED_LABEL_def
        SESSION_LABEL_PREFIX_def narrow_int narrow_float narrow_literal)
  ultimately have "0 \<le> pids_limit s \<longrightarrow> 0 \<le> memory_mib s \<longrightarrow> 0 \<le> stop_timeout_seconds s \<longrightarrow>
      (\<forall>x\<in>set (take 39 (run_options s r d) @ ys). narrow x)" by (simp only: set_append list_all_iff) blast
  with split show ?thesis by blast
qed

text \<open>
  The options as the Docker client reads them: an option of this list takes the next argument as its
  value.  \<open>given\<close> are the values an option has in a command, in their order.
\<close>

definition valued_options :: "string set" where
  "valued_options = {''--name'', ''--label'', ''--security-opt'', ''--pids-limit'', ''--memory'', ''--memory-swap'',
     ''--cpus'', ''--ulimit'', ''--stop-timeout'', ''--stop-signal'', ''--tmpfs'', ''--mount'', ''--workdir'', ''--env''}"

fun read_options :: "string list \<Rightarrow> (string \<times> string) list" where
  "read_options [] = []"
| "read_options [x] = [(x, [])]"
| "read_options (x # y # rest) =
     (if x \<in> valued_options then (x, y) # read_options rest else (x, []) # read_options (y # rest))"

definition given :: "string \<Rightarrow> string list \<Rightarrow> string list" where
  "given option arguments = map snd (filter (\<lambda>(k, v). k = option) (read_options arguments))"

lemma run_options_read:
  "read_options (run_options s r d) =
     [(''run'', []), (''--rm'', []), (''--interactive'', []), (''--pull=never'', []),
      (''--name'', CONTAINER_NAME_PREFIX @ show_text (req_session_id r)),
      (''--label'', MANAGED_LABEL), (''--label'', SESSION_LABEL_PREFIX @ show_text (req_session_id r)),
      (''--network=none'', []), (''--ipc=none'', []), (''--read-only'', []), (''--cap-drop=ALL'', []),
      (''--security-opt'', ''no-new-privileges=true''), (''--security-opt'', ''seccomp='' @ str_path (seccomp_profile_path s)),
      (''--security-opt'', ''apparmor='' @ apparmor_profile s), (''--pids-limit'', str_int (pids_limit s)),
      (''--memory'', str_int (memory_mib s) @ ''m''), (''--memory-swap'', str_int (memory_mib s) @ ''m''),
      (''--cpus'', float_text (cpus s)), (''--ulimit'', ''nofile=64:64''), (''--ulimit'', ''fsize=67108864:67108864''),
      (''--stop-timeout'', str_int (stop_timeout_seconds s)), (''--stop-signal'', ''SIGTERM''), (''--log-driver=none'', []),
      (''--tmpfs'', ''/tmp:rw,noexec,nosuid,nodev,size='' @ str_int (tmpfs_mib s) @ ''m,mode=1777''),
      (''--mount'', mount_option d), (''--workdir'', ''/runtime''), (''--env'', ''LANG=C.UTF-8''),
      (''--env'', ''PATH=/opt/esp32-s3/bin:/usr/bin:/bin'')]"
  by (simp add: run_options_def valued_options_def)

text \<open>
  C4. Every worker container is confined by the same options: a command built under validated settings
  is the rootless Docker client's \<open>run\<close> with no network, no IPC, a read-only root, no capabilities, the
  three security options (no new privileges, the configured seccomp and AppArmor profiles) and no
  others, and with exactly the configured limits of processes, memory, swap, processors, open files
  and file sizes; its only mount is the session's own directory, its only temporary file system the
  bounded \<open>/tmp\<close>, its environment the two fixed variables, its name and labels those of the session;
  and none of the arguments widens the container.
\<close>

theorem worker_command_isolated:
  assumes "validate_oci fs me s = Inr ()" "build_worker_command fs s r = Inr argv"
  shows "\<exists>d options qemu. session_directory fs s r = Inr d
    \<and> argv = [str_path (docker_executable s), ''--host'', rootless_host me] @ options @ image_reference s # qemu
    \<and> {''run'', ''--network=none'', ''--ipc=none'', ''--read-only'', ''--cap-drop=ALL'', ''no-new-privileges=true''}
        \<subseteq> set options
    \<and> {''--rm'', ''--pull=never'', ''--log-driver=none''} \<subseteq> set options \<and> hd options = ''run''
    \<and> given ''--security-opt'' options = [''no-new-privileges=true'',
          ''seccomp='' @ str_path (seccomp_profile_path s), ''apparmor='' @ apparmor_profile s]
    \<and> given ''--pids-limit'' options = [str_int (pids_limit s)]
    \<and> given ''--memory'' options = [str_int (memory_mib s) @ ''m'']
    \<and> given ''--memory-swap'' options = [str_int (memory_mib s) @ ''m'']
    \<and> given ''--cpus'' options = [float_text (cpus s)]
    \<and> given ''--ulimit'' options = [''nofile=64:64'', ''fsize=67108864:67108864'']
    \<and> given ''--stop-timeout'' options = [str_int (stop_timeout_seconds s)]
    \<and> given ''--stop-signal'' options = [''SIGTERM'']
    \<and> given ''--tmpfs'' options = [''/tmp:rw,noexec,nosuid,nodev,size='' @ str_int (tmpfs_mib s) @ ''m,mode=1777'']
    \<and> given ''--mount'' options = [mount_option d] \<and> given ''--workdir'' options = [''/runtime'']
    \<and> given ''--env'' options = [''LANG=C.UTF-8'', ''PATH=/opt/esp32-s3/bin:/usr/bin:/bin'']
    \<and> given ''--name'' options = [CONTAINER_NAME_PREFIX @ show_text (req_session_id r)]
    \<and> given ''--label'' options = [MANAGED_LABEL, SESSION_LABEL_PREFIX @ show_text (req_session_id r)]
    \<and> (\<forall>x\<in>set options. \<not> widens x)
    \<and> filter (is_prefix ''--mount'') options = [''--mount''] \<and> mount_option d \<in> set options"
proof -
  obtain d board where d: "session_directory fs s r = Inr d"
    and argv: "argv = docker_prefix s @ run_options s r d @ image_reference s # build_qemu_process_command
      (container_config s) board (Abs [''runtime'', ''flash.bin'']) (Some (Abs [''runtime'', ''qmp.sock'']))
      (Some (Abs [''runtime'', ''gdb.sock''])) True True"
    using assms(2) by (auto simp: build_worker_command_def)
  note v = validate_oci_ok [OF assms(1)]
  obtain xs ys where o: "run_options s r d = xs @ ''--mount'' # ys" "\<forall>x\<in>set (xs @ ys). narrow x"
    using run_options_split [of s r d] v by auto
  have "\<not> widens ''--mount''" "is_prefix ''--mount'' ''--mount''" by code_simp+
  then have opts: "\<forall>x\<in>set (run_options s r d). \<not> widens x" "filter (is_prefix ''--mount'') (run_options s r d) = [''--mount'']"
    using o by (auto simp: narrow_def)
  have set: "{''run'', ''--network=none'', ''--ipc=none'', ''--read-only'', ''--cap-drop=ALL'', ''no-new-privileges=true''}
      \<subseteq> set (run_options s r d)" "mount_option d \<in> set (run_options s r d)"
    "{''--rm'', ''--pull=never'', ''--log-driver=none''} \<subseteq> set (run_options s r d)" "hd (run_options s r d) = ''run''"
    by (simp_all add: run_options_def)
  have reads: "given ''--security-opt'' (run_options s r d) = [''no-new-privileges=true'',
        ''seccomp='' @ str_path (seccomp_profile_path s), ''apparmor='' @ apparmor_profile s]"
    "given ''--pids-limit'' (run_options s r d) = [str_int (pids_limit s)]"
    "given ''--memory'' (run_options s r d) = [str_int (memory_mib s) @ ''m'']"
    "given ''--memory-swap'' (run_options s r d) = [str_int (memory_mib s) @ ''m'']"
    "given ''--cpus'' (run_options s r d) = [float_text (cpus s)]"
    "given ''--ulimit'' (run_options s r d) = [''nofile=64:64'', ''fsize=67108864:67108864'']"
    "given ''--stop-timeout'' (run_options s r d) = [str_int (stop_timeout_seconds s)]"
    "given ''--stop-signal'' (run_options s r d) = [''SIGTERM'']"
    "given ''--tmpfs'' (run_options s r d) = [''/tmp:rw,noexec,nosuid,nodev,size='' @ str_int (tmpfs_mib s) @ ''m,mode=1777'']"
    "given ''--mount'' (run_options s r d) = [mount_option d]" "given ''--workdir'' (run_options s r d) = [''/runtime'']"
    "given ''--env'' (run_options s r d) = [''LANG=C.UTF-8'', ''PATH=/opt/esp32-s3/bin:/usr/bin:/bin'']"
    "given ''--name'' (run_options s r d) = [CONTAINER_NAME_PREFIX @ show_text (req_session_id r)]"
    "given ''--label'' (run_options s r d) = [MANAGED_LABEL, SESSION_LABEL_PREFIX @ show_text (req_session_id r)]"
    by (simp_all add: given_def run_options_read)
  have "argv = [str_path (docker_executable s), ''--host'', rootless_host me] @ run_options s r d @ image_reference s
      # build_qemu_process_command (container_config s) board (Abs [''runtime'', ''flash.bin''])
        (Some (Abs [''runtime'', ''qmp.sock''])) (Some (Abs [''runtime'', ''gdb.sock''])) True True"
    by (simp only: argv docker_prefix_def v(2))
  with d opts set reads show ?thesis
    by (intro exI [of _ d] exI [of _ "run_options s r d"] exI conjI) simp_all
qed

subsection \<open>An example installation\<close>

definition sample_oci :: oci_settings where
  "sample_oci = \<lparr>broker_socket = Abs [''run'', ''b.sock''], broker_root = Abs [''run''], docker_executable = Abs [''docker''],
     docker_host = ''unix:///run/user/7/docker.sock'', image_reference = ''sha256:'' @ replicate 64 (CHR ''a''),
     seccomp_profile_path = Abs [''seccomp''], apparmor_profile = ''worker'', allowed_core_uid = 5, shared_group_gid = 6,
     max_workers = 2, memory_mib = 1536, cpus = Fin 1 0, pids_limit = 96, tmpfs_mib = 16, wall_time_seconds = 240,
     stop_timeout_seconds = 3, container_qemu = Abs [''opt'', ''esp32-s3'', ''bin''],
     container_roms = Abs [''opt'', ''esp32-s3'', ''share''], allow_same_identity = False\<rparr>"

definition sample_request :: start_request where
  "sample_request = \<lparr>req_session_id = sample_id, req_board_id = lit ''sticks3''\<rparr>"

definition sample_dir :: "string" where "sample_dir = show_text sample_id"

definition sample_oci_files :: filesys where
  "sample_oci_files = (\<lambda>_. None)
     (Abs [''run''] \<mapsto> \<lparr>kind = Directory, mode = octal [2, 7, 7, 0], uid = 5, gid = 6\<rparr>,
      Abs [''docker''] \<mapsto> \<lparr>kind = Regular [], mode = octal [7, 5, 5], uid = 0, gid = 0\<rparr>,
      Abs [''seccomp''] \<mapsto> \<lparr>kind = Regular [], mode = octal [6, 4, 4], uid = 0, gid = 0\<rparr>,
      Abs [''run'', sample_dir] \<mapsto> \<lparr>kind = Directory, mode = octal [2, 7, 7, 0], uid = 5, gid = 6\<rparr>,
      Abs [''run'', sample_dir, ''flash.bin''] \<mapsto>
        \<lparr>kind = Regular (replicate (8 * 1024 * 1024) 255), mode = octal [6, 6, 0], uid = 5, gid = 6\<rparr>)"

lemma sample_dir_simps: "sample_dir \<noteq> ''..''" "CHR '','' \<notin> set sample_dir" "list_all (\<lambda>c. 32 \<le> (of_char c :: nat)) sample_dir"
  by code_simp+

lemma sample_validated: "validate_oci sample_oci_files 7 sample_oci = Inr ()"
proof -
  have "fullmatch UNIX_DOCKER_HOST (lit (docker_host sample_oci))" "fullmatch IMAGE_REFERENCE (lit (image_reference sample_oci))"
    "fullmatch APPARMOR_PROFILE (lit (apparmor_profile sample_oci))" "fle (true_div 1 10) (cpus sample_oci)"
    "fle (cpus sample_oci) (Fin 2 0)" "rootless_host 7 = docker_host sample_oci"
    "is_prefix ''/opt/esp32-s3/'' (str_path (container_qemu sample_oci))"
    "is_prefix ''/opt/esp32-s3/'' (str_path (container_roms sample_oci))"
    by code_simp+
  moreover have "sample_dir \<noteq> []" by (simp add: sample_dir_def sample_id_def show_text_def)
  ultimately show ?thesis
    unfolding validate_oci_def all_checks_Inr
    by (simp add: validate_container_path_def validate_mount_text_def validate_cli_path_def os_lstat_def resolve_strict_def
        lstat_def sample_oci_def sample_oci_files_def)
qed

lemma sample_session_directory:
  "session_directory sample_oci_files sample_oci sample_request = Inr (Abs [''run'', sample_dir])"
proof -
  have dot: "sample_dir \<noteq> ''..''" "sample_dir \<noteq> ''flash.bin''" by code_simp+
  have r: "resolve_strict sample_oci_files (Abs [''run'']) = Inr (Abs [''run''])"
    "resolve_strict sample_oci_files (Abs [''run'', sample_dir]) = Inr (Abs [''run'', sample_dir])"
    "resolve_strict sample_oci_files (Abs []) = Inr (Abs [])"
    using dot by (simp_all add: resolve_strict_def sample_oci_files_def)
  have b: "board_of (lit ''sticks3'') = Inr STICKS3" by (simp add: board_of_def BOARD_PROFILES_def CARDPUTER_ADV_def STICKS3_def)
  have m: "validate_mount_text (str_path (Abs [''run'', sample_dir])) l = Inr ()" for l
    using sample_dir_simps by (simp add: validate_mount_text_def list_ex_iff list_all_iff not_less)
  have s: "flash_size_bytes STICKS3 = 8 * 1024 * 1024" by (simp add: STICKS3_def)
  have f: "sample_oci_files (Abs [''run'']) = Some \<lparr>kind = Directory, mode = 1528, uid = 5, gid = 6\<rparr>"
    "sample_oci_files (Abs [''run'', sample_dir]) = Some \<lparr>kind = Directory, mode = 1528, uid = 5, gid = 6\<rparr>"
    "sample_oci_files (Abs [''run'', sample_dir, ''flash.bin'']) =
       Some \<lparr>kind = Regular (replicate (8 * 1024 * 1024) 255), mode = 432, uid = 5, gid = 6\<rparr>"
    by (simp_all add: sample_oci_files_def)
  show ?thesis
    by (simp add: session_directory_def validate_flash_def os_lstat_def lstat_def r f b [simplified] m [simplified] s sample_oci_def sample_request_def
        sample_dir_def [symmetric])
qed

theorem session_directory_confined_witness:
  "\<exists>root. resolve_strict sample_oci_files (broker_root sample_oci) = Inr root
     \<and> Abs [''run'', sample_dir] = child root (show_text (req_session_id sample_request))"
  using session_directory_confined [OF sample_session_directory] by blast

theorem mount_not_injectable_witness:
  "split_fields (CHR '','') (mount_option (Abs [''run'', sample_dir])) =
    [''type=bind'', ''src='' @ str_path (Abs [''run'', sample_dir]), ''dst=/runtime'', ''bind-propagation=rprivate'']"
  by (rule mount_not_injectable [OF sample_session_directory])

theorem worker_command_isolated_witness:
  "\<exists>argv options. build_worker_command sample_oci_files sample_oci sample_request = Inr argv
     \<and> ''--network=none'' \<in> set options \<and> (\<forall>x\<in>set options. \<not> widens x)"
proof -
  have "board_of (req_board_id sample_request) = Inr STICKS3"
    by (simp add: sample_request_def board_of_def BOARD_PROFILES_def CARDPUTER_ADV_def STICKS3_def)
  then obtain argv where a: "build_worker_command sample_oci_files sample_oci sample_request = Inr argv"
    by (simp add: build_worker_command_def sample_session_directory)
  from worker_command_isolated [OF sample_validated a] a show ?thesis by blast
qed

subsection \<open>Container names\<close>

lemma CONTAINER_NAME_iff: "fullmatch CONTAINER_NAME v \<longleftrightarrow>
    (\<exists>sid. v = lit CONTAINER_NAME_PREFIX @ sid \<and> fullmatch SESSION_ID_PATTERN sid)"
  unfolding CONTAINER_NAME_def SESSION_ID_PATTERN_def fullmatch_lang lang_seq lang_rlit by blast

lemma hex_text: "list_all (in_class hex_class) t \<Longrightarrow> lit (show_text t) = t"
  by (induction t) (auto simp: show_text_def in_class_def hex_class_def)

lemma container_name_Inr: "container_name sid = Inr n \<longleftrightarrow>
    fullmatch SESSION_ID_PATTERN sid \<and> n = CONTAINER_NAME_PREFIX @ show_text sid"
proof -
  have "known_board (lit (fst (hd BOARD_PROFILES)))" by (simp add: known_board_def BOARD_PROFILES_def)
  then show ?thesis by (auto simp: container_name_def StartRequest_def)
qed

text \<open>
  Container names and session ids are in one-to-one correspondence: every valid session id has a name
  from which exactly that id is read back, and every name Docker lists from which an id is read is
  the name of that id, so reconciliation removes precisely the containers it lists.
\<close>

theorem container_name_roundtrip:
  "(container_name sid = Inr n \<longrightarrow> session_id_from_container_name (lit n) = Inr sid)
   \<and> (session_id_from_container_name v = Inr sid \<longrightarrow> (\<exists>n. container_name sid = Inr n \<and> v = lit n))"
proof (intro conjI impI)
  assume "container_name sid = Inr n"
  then have p: "fullmatch SESSION_ID_PATTERN sid" "n = CONTAINER_NAME_PREFIX @ show_text sid"
    by (simp_all add: container_name_Inr)
  then have "lit n = lit CONTAINER_NAME_PREFIX @ sid" by (simp add: hex_text SESSION_ID_PATTERN_iff)
  moreover from this have "fullmatch CONTAINER_NAME (lit n)" using p(1) unfolding CONTAINER_NAME_iff by blast
  ultimately show "session_id_from_container_name (lit n) = Inr sid" by (simp add: session_id_from_container_name_def)
next
  assume "session_id_from_container_name v = Inr sid"
  then have v: "fullmatch CONTAINER_NAME v" "sid = drop (length CONTAINER_NAME_PREFIX) v"
    by (auto simp: session_id_from_container_name_def split: if_splits)
  then obtain s where "v = lit CONTAINER_NAME_PREFIX @ s" "fullmatch SESSION_ID_PATTERN s"
    unfolding CONTAINER_NAME_iff by blast
  with v(2) show "\<exists>n. container_name sid = Inr n \<and> v = lit n"
    by (simp add: container_name_Inr hex_text SESSION_ID_PATTERN_iff)
qed

theorem container_name_roundtrip_witness:
  "\<exists>n. container_name sample_id = Inr n \<and> session_id_from_container_name (lit n) = Inr sample_id"
proof -
  have "container_name sample_id = Inr (CONTAINER_NAME_PREFIX @ show_text sample_id)"
    by (simp add: container_name_Inr SESSION_ID_PATTERN_iff sample_id_def in_class_def hex_class_def list_all_iff)
  with container_name_roundtrip [of sample_id] show ?thesis by blast
qed


definition sample_environment :: environment where
  "sample_environment = (\<lambda>_. None)
     (''SIMULATOR_ROOTLESS_DOCKER_HOST'' \<mapsto> ''unix:///run/user/7/docker.sock'',
      ''SIMULATOR_WORKER_IMAGE'' \<mapsto> ''sha256:'' @ replicate 64 (CHR ''a''),
      ''SIMULATOR_WORKER_SECCOMP_PROFILE'' \<mapsto> ''/seccomp'',
      ''SIMULATOR_WORKER_APPARMOR_PROFILE'' \<mapsto> ''worker'', ''SIMULATOR_ALLOWED_CORE_UID'' \<mapsto> ''5'',
      ''SIMULATOR_SHARED_GROUP_GID'' \<mapsto> ''6'', ''SIMULATOR_ROOTLESS_DOCKER'' \<mapsto> ''/docker'')"

definition sample_tools :: filesys where
  "sample_tools = (\<lambda>_. None)
     (Abs [''docker''] \<mapsto> \<lparr>kind = Regular [], mode = 493, uid = 0, gid = 0\<rparr>,
      Abs [''seccomp''] \<mapsto> \<lparr>kind = Regular [], mode = 420, uid = 0, gid = 0\<rparr>)"

lemma sample_environment_read: "is_ok (oci_from_environment sample_tools 7 sample_environment)"
  by code_simp


end
