(* ===== verification/Session_Broker.thy ===== *)
theory Session_Broker
  imports Session_Guards Oci
begin

section \<open>The manager and the broker's policy together\<close>

text \<open>
  In the broker mode the manager prepares a session's directory and the broker, another process of
  another user, checks it before a container gets it.  Do the two agree?  Where a session is
  created they do; where a replay restores the flash image they do not.
\<close>

definition broker_request :: "session \<Rightarrow> start_request" where
  "broker_request s = \<lparr>req_session_id = lit (session_id s), req_board_id = lit (board_id (session_board s))\<rparr>"

text \<open>The broker serves this manager: same root, group and user, and the root is a real, shared directory.\<close>

definition serves :: "oci_settings \<Rightarrow> env \<Rightarrow> filesys \<Rightarrow> bool" where
  "serves pol en fs \<longleftrightarrow> worker_sandbox_mode (cfg en) = OCI_BROKER
     \<and> broker_root pol = runtime_root (cfg en) \<and> worker_shared_group_gid (cfg en) = Some (shared_group_gid pol)
     \<and> allowed_core_uid pol = my_uid (os_id en)
     \<and> resolve_strict fs (runtime_root (cfg en)) = Inr (runtime_root (cfg en))
     \<and> (\<exists>n. fs (runtime_root (cfg en)) = Some n \<and> kind n = Directory \<and> shared_node pol 56 n)"

lemma show_lit [simp]: "show_text (lit s) = s"
  by (induction s) (simp_all add: show_text_def lit_def)

lemma board_of_known: "map_of BOARD_PROFILES k = Some b \<Longrightarrow> board_of (lit k) = Inr b"
  by (auto simp: board_of_def board_profiles_lookup BOARD_PROFILES_def lit_def split: if_splits)

text \<open>A directory that resolves to itself, and one created in it.\<close>

lemma os_lstat_solid:
  assumes "solid fs cs" shows "os_lstat fs (Abs cs) = lstat fs (Abs cs)"
proof (cases cs rule: rev_cases)
  case (snoc ds d)
  then have "walk 0 fs [] ds = Inr ds" using assms walk_of_firm solid_firm solid_snoc by metis
  then show ?thesis using snoc by (simp add: os_lstat_def resolve_strict_def)
qed (simp add: os_lstat_def)

lemma solid_resolved:
  assumes "resolve_strict fs (Abs rs) = Inr (Abs rs)" "fs (Abs rs) = Some n" "kind n = Directory"
  shows "solid fs rs"
  using resolve_idem [OF assms(1)] assms(2,3)
  by (cases rs rule: rev_cases) (auto simp: firm_def solid_snoc, simp add: solid_def)

lemma resolve_solid: "solid fs cs \<Longrightarrow> resolve_strict fs (Abs cs) = Inr (Abs cs)"
  using walk_of_firm solid_firm by (simp add: resolve_strict_def)

text \<open>The policy's check, on a root that resolves to itself and a proper session directory in it.\<close>

lemma session_directory_solid:
  assumes "broker_root pol = Abs rs" "solid fs rs" "fs (Abs rs) = Some n" "kind n = Directory" "shared_node pol 56 n"
    and "fs (Abs (rs @ [c])) = Some m" "kind m = Directory" "shared_node pol 56 m" "c \<noteq> ''..''"
    and "show_text (req_session_id r) = c" "validate_mount_text (str_path (Abs (rs @ [c]))) ''session directory'' = Inr ()"
  shows "session_directory fs pol r = sum_bind (validate_flash fs pol (Abs (rs @ [c, ''flash.bin''])) r) (\<lambda>_. Inr (Abs (rs @ [c])))"
proof -
  have d: "solid fs (rs @ [c])" using assms by (simp add: solid_snoc)
  show ?thesis
    using assms os_lstat_solid [OF assms(2)] os_lstat_solid [OF d] resolve_solid [OF assms(2)] resolve_solid [OF d]
    by (simp add: session_directory_def shared_node_def lstat_def policy_check_def)
qed

subsection \<open>A session that is prepared for the broker\<close>

definition mount_safe :: "string \<Rightarrow> bool" where
  "mount_safe v \<longleftrightarrow> CHR '','' \<notin> set v \<and> list_all (\<lambda>c. 32 \<le> (of_char c :: nat)) v"

definition placed :: "oci_settings \<Rightarrow> env \<Rightarrow> session \<Rightarrow> filesys \<Rightarrow> bool" where
  "placed pol en s fs \<longleftrightarrow> serves pol en fs
     \<and> runtime_directory s = child (runtime_root (cfg en)) (session_id s)
     \<and> flash_path s = child (runtime_directory s) ''flash.bin''
     \<and> session_id s \<noteq> ''..'' \<and> mount_safe (session_id s) \<and> mount_safe (str_path (runtime_root (cfg en)))
     \<and> map_of BOARD_PROFILES (board_id (session_board s)) = Some (session_board s)
     \<and> length (initial_flash_image s) = flash_size_bytes (session_board s)
     \<and> (\<exists>m. fs (runtime_directory s) = Some m \<and> kind m = Directory \<and> shared_node pol 56 m)"

definition prepared :: "oci_settings \<Rightarrow> env \<Rightarrow> session \<Rightarrow> filesys \<Rightarrow> bool" where
  "prepared pol en s fs \<longleftrightarrow> placed pol en s fs
     \<and> (\<exists>f. fs (flash_path s) = Some f \<and> kind f = Regular (initial_flash_image s) \<and> shared_node pol 432 f)"

lemma mount_safe_child:
  assumes "mount_safe (str_path (Abs rs))" "mount_safe c"
  shows "validate_mount_text (str_path (Abs (rs @ [c]))) label = Inr ()"
proof -
  have "mount_safe (concat (map (\<lambda>c. CHR ''/'' # c) rs))" using assms(1) by (auto simp: mount_safe_def split: if_splits)
  then have "mount_safe (str_path (Abs (rs @ [c])))" using assms(2) by (auto simp: mount_safe_def)
  then show ?thesis by (auto simp: validate_mount_text_def mount_safe_def list_ex_iff list_all_iff not_less)
qed

lemma resolved_abs: "resolve_strict fs p = Inr q \<Longrightarrow> \<exists>rs. q = Abs rs"
  by (auto simp: resolve_strict_def split: sum.splits)

lemma placed_check:
  assumes "placed pol en s fs"
  shows "session_directory fs pol (broker_request s)
    = sum_bind (validate_flash fs pol (flash_path s) (broker_request s)) (\<lambda>_. Inr (runtime_directory s))"
    and "resolve_strict fs (runtime_directory s) = Inr (runtime_directory s)"
proof -
  from assms have v: "serves pol en fs" by (simp add: placed_def)
  then obtain rs n where rs: "runtime_root (cfg en) = Abs rs" and res: "resolve_strict fs (Abs rs) = Inr (Abs rs)"
    and n: "fs (Abs rs) = Some n" "kind n = Directory" "shared_node pol 56 n"
    using resolved_abs [of fs "runtime_root (cfg en)"] by (auto simp: serves_def)
  have solid: "solid fs rs" by (rule solid_resolved [OF res n(1,2)])
  obtain m where m: "fs (Abs (rs @ [session_id s])) = Some m" "kind m = Directory" "shared_node pol 56 m"
    using assms rs by (auto simp: placed_def)
  have p: "runtime_directory s = Abs (rs @ [session_id s])" "flash_path s = Abs (rs @ [session_id s, ''flash.bin''])"
    "session_id s \<noteq> ''..''" "broker_root pol = Abs rs"
    using assms rs by (auto simp: placed_def serves_def)
  have mt: "validate_mount_text (str_path (Abs (rs @ [session_id s]))) ''session directory'' = Inr ()"
    by (rule mount_safe_child) (use assms rs in \<open>simp_all add: placed_def\<close>)
  show "session_directory fs pol (broker_request s)
    = sum_bind (validate_flash fs pol (flash_path s) (broker_request s)) (\<lambda>_. Inr (runtime_directory s))"
    using session_directory_solid [OF p(4) solid n m p(3) _ mt] by (simp add: broker_request_def p)
  have "solid fs (rs @ [session_id s])" using solid m p(3) by (simp add: solid_snoc)
  then show "resolve_strict fs (runtime_directory s) = Inr (runtime_directory s)" by (simp add: p resolve_solid)
qed

lemma validate_flash_node:
  assumes "resolve_strict fs d = Inr d" "fs (child d ''flash.bin'') = Some f" "kind f = Regular bs"
    and "uid f = allowed_core_uid pol" "gid f = shared_group_gid pol"
    and "board_of (req_board_id r) = Inr b" "length bs = flash_size_bytes b"
  shows "validate_flash fs pol (child d ''flash.bin'') r
    = (if mode f AND 7 = 0 \<and> mode f AND 432 = 432 then Inr ()
       else Inl (OciPolicyError ''session flash image permissions do not match shared isolation''))"
  using assms by (simp add: validate_flash_def os_lstat_child lstat_def policy_check_def ensure_def)

lemma prepared_accepted:
  assumes "prepared pol en s fs"
  shows "session_directory fs pol (broker_request s) = Inr (runtime_directory s)"
proof -
  obtain f where f: "fs (flash_path s) = Some f" "kind f = Regular (initial_flash_image s)" "shared_node pol 432 f"
    and b: "board_of (req_board_id (broker_request s)) = Inr (session_board s)"
    and l: "length (initial_flash_image s) = flash_size_bytes (session_board s)"
    and p: "flash_path s = child (runtime_directory s) ''flash.bin''"
    using assms by (auto simp: prepared_def placed_def broker_request_def board_of_known)
  have pl: "placed pol en s fs" using assms by (simp add: prepared_def)
  from validate_flash_node [OF placed_check(2) [OF pl] f(1) [unfolded p] f(2) _ _ b l] f(3)
  show ?thesis by (simp add: placed_check(1) [OF pl] p shared_node_def)
qed

subsection \<open>Creation and replay\<close>

lemma write_private_shared:
  assumes "fs d = None" "fs (child d x) = None"
  shows "write_private_flash_image who (child d x) bs dm fm (Some g) fs
    = Inr (fs(d \<mapsto> \<lparr>kind = Directory, mode = dm, uid = my_uid who, gid = g\<rparr>,
        child d x \<mapsto> \<lparr>kind = Regular bs, mode = fm, uid = my_uid who, gid = g\<rparr>))"
proof -
  have "child d x \<noteq> d" by (cases d) simp_all
  then show ?thesis
    using assms by (simp add: write_private_flash_image_def make_dir_def chmod_def chgrp_def write_bytes_def Let_def fun_upd_twist)
qed

lemma validated_length:
  assumes "validate_and_pad_firmware upload b = Inr (flash, metadata)"
  shows "length flash = flash_size_bytes b"
proof -
  from assms have a: "acceptable_image upload b" by (rule validate_Inr_acceptable)
  then have "length upload \<le> flash_size_bytes b" by (simp add: acceptable_image_def)
  moreover have "flash = ljust upload (flash_size_bytes b) 0xff" using assms validate_acceptable [OF a] by simp
  ultimately show ?thesis by (simp add: length_ljust)
qed

lemma serves_below:
  assumes "serves pol en fs" "\<And>p. \<not> is_relative_to p (child (runtime_root (cfg en)) c) \<Longrightarrow> fs' p = fs p"
  shows "serves pol en fs'"
proof -
  from assms(1) obtain rs n where rs: "runtime_root (cfg en) = Abs rs" and res: "resolve_strict fs (Abs rs) = Inr (Abs rs)"
    and n: "fs (Abs rs) = Some n" "kind n = Directory" "shared_node pol 56 n"
    using resolved_abs [of fs "runtime_root (cfg en)"] by (auto simp: serves_def)
  have same: "fs' (Abs (take i rs)) = fs (Abs (take i rs))" for i
    by (rule assms(2)) (auto simp: rs list_prefix_iff dest!: arg_cong [where f = length])
  have "solid fs rs" by (rule solid_resolved [OF res n(1,2)])
  then have "solid fs' rs" by (simp add: solid_def same)
  then have "resolve_strict fs' (Abs rs) = Inr (Abs rs)" by (rule resolve_solid)
  with assms(1) n same [of "length rs"] show ?thesis by (auto simp: serves_def rs)
qed

lemma admitted_prepared:
  assumes "serves pol en (files w)" "admit en board upload w = (w', Inr sid)"
    and "map_of BOARD_PROFILES (board_id board) = Some board"
    and "mount_safe (str_path (runtime_root (cfg en)))" "mount_safe sid" "sid \<noteq> ''..''"
    and "files w (child (child (runtime_root (cfg en)) (fresh_uuid w)) ''flash.bin'') = None"
  shows "\<exists>s. find_session w' sid = Some s \<and> prepared pol en s (files w')"
proof -
  let ?d = "child (runtime_root (cfg en)) (fresh_uuid w)" and ?p = "child (child (runtime_root (cfg en)) (fresh_uuid w)) ''flash.bin''"
  have g: "shared_gid (cfg en) = Some (shared_group_gid pol)" "my_uid (os_id en) = allowed_core_uid pol"
    using assms(1) by (simp_all add: serves_def shared_gid_def)
  obtain flash metadata where v: "validate_and_pad_firmware upload board = Inr (flash, metadata)"
    using assms(2) by (auto simp: admit_def Let_def split: if_splits sum.splits)
  let ?s = "new_session en w board flash metadata"
  have paths: "runtime_directory ?s = ?d" "flash_path ?s = ?p" "session_id ?s = fresh_uuid w" "session_board ?s = board"
    "initial_flash_image ?s = flash"
    by (simp_all add: new_session_def Let_def)
  have free: "files w ?d = None"
    using assms(2) by (auto simp: admit_def Let_def v paths write_private_flash_image_def split: if_splits sum.splits)
  define fs' where "fs' = (files w)(?d \<mapsto> \<lparr>kind = Directory, mode = octal [2, 7, 7, 0], uid = allowed_core_uid pol, gid = shared_group_gid pol\<rparr>,
      ?p \<mapsto> \<lparr>kind = Regular flash, mode = octal [6, 6, 0], uid = allowed_core_uid pol, gid = shared_group_gid pol\<rparr>)"
  have wr: "write_private_flash_image (os_id en) ?p flash (octal [2, 7, 7, 0]) (octal [6, 6, 0]) (Some (shared_group_gid pol)) (files w) = Inr fs'"
    unfolding write_private_shared [OF free assms(7)] by (simp add: fs'_def g)
  have r: "w' = w\<lparr>files := fs', sessions := put (fresh_uuid w) ?s (sessions w)\<rparr>" "sid = fresh_uuid w"
    using assms(2) wr by (auto simp: admit_def Let_def v paths g split: if_splits)
  have "?d \<noteq> ?p" by (cases "runtime_root (cfg en)") auto
  then have f: "fs' ?d = Some \<lparr>kind = Directory, mode = 1528, uid = allowed_core_uid pol, gid = shared_group_gid pol\<rparr>"
    "fs' ?p = Some \<lparr>kind = Regular flash, mode = 432, uid = allowed_core_uid pol, gid = shared_group_gid pol\<rparr>"
    by (simp_all add: fs'_def)
  have "serves pol en fs'"
    by (rule serves_below [OF assms(1), of "fresh_uuid w"]) (auto simp: fs'_def intro: is_relative_to_trans)
  then have "prepared pol en ?s fs'"
    using assms(3-6) f validated_length [OF v] by (simp add: prepared_def placed_def paths r(2) shared_node_def)
  then show ?thesis by (simp add: r find_session_def map_of_put)
qed

text \<open>
  C16. The manager and the broker agree on a new session: where the broker is set up for this manager,
  every upload the manager admits leaves a directory and a flash image that the broker's policy
  accepts, on which it resolves the request of the launch to exactly the session's own directory.
\<close>

theorem admitted_session_accepted:
  assumes "serves pol en (files w)" "admit en board upload w = (w', Inr sid)"
    and "map_of BOARD_PROFILES (board_id board) = Some board"
    and "mount_safe (str_path (runtime_root (cfg en)))" "mount_safe sid" "sid \<noteq> ''..''"
    and "files w (child (child (runtime_root (cfg en)) (fresh_uuid w)) ''flash.bin'') = None"
  shows "\<exists>s. find_session w' sid = Some s
    \<and> session_directory (files w') pol (broker_request s) = Inr (runtime_directory s)"
  using admitted_prepared [OF assms] prepared_accepted by blast

text \<open>
  C17. They do not agree on a replay: when the flash image of such a session is restored for a replay,
  its mode becomes \<open>0o600\<close>, and from then on the broker refuses every launch of the session.
\<close>

theorem replay_refused_by_broker:
  assumes "prepared pol en s fs" "restore_flash en s fs = Inr fs'"
  shows "session_directory fs' pol (broker_request s)
    = Inl (OciPolicyError ''session flash image permissions do not match shared isolation'')"
proof -
  have pl: "placed pol en s fs" using assms(1) by (simp add: prepared_def)
  obtain m where m: "fs (runtime_directory s) = Some m" "kind m = Directory"
    and p: "flash_path s = child (runtime_directory s) ''flash.bin''"
    and d: "runtime_directory s = child (runtime_root (cfg en)) (session_id s)"
    and b: "board_of (req_board_id (broker_request s)) = Inr (session_board s)"
    and l: "length (initial_flash_image s) = flash_size_bytes (session_board s)"
    using pl by (auto simp: placed_def broker_request_def board_of_known)
  obtain f where f: "fs (flash_path s) = Some f" "shared_node pol 432 f"
    using assms(1) by (auto simp: prepared_def)
  have dir: "is_directory fs (runtime_directory s)" using m by (simp add: is_directory_def follow_def)
  have fs': "fs' = fs(flash_path s \<mapsto> f\<lparr>kind := Regular (initial_flash_image s), mode := 384\<rparr>)"
    using assms(2) m(1) dir f(1) by (simp add: restore_flash_def write_bytes_def chmod_def Let_def)
  have "flash_path s \<noteq> runtime_directory s" unfolding p by (cases "runtime_directory s") auto
  moreover have "serves pol en fs'"
    by (rule serves_below [of pol en fs "session_id s"])
      (use pl in \<open>auto simp: placed_def fs' p d intro: is_relative_to_trans\<close>)
  ultimately have pl': "placed pol en s fs'" using pl by (auto simp: placed_def fs')
  show ?thesis
    using validate_flash_node [OF placed_check(2) [OF pl'] _ _ _ _ b l, of "f\<lparr>kind := Regular (initial_flash_image s), mode := 384\<rparr>"]
      f(2) unfolding placed_check(1) [OF pl']
    by (simp add: p [symmetric]) (simp add: fs' shared_node_def)
qed

subsection \<open>A manager and its broker\<close>

definition broker_mode_env :: env where
  "broker_mode_env = sample_env\<lparr>cfg := sample_settings\<lparr>worker_sandbox_mode := OCI_BROKER, worker_shared_group_gid := Some 6\<rparr>,
     os_id := \<lparr>my_uid = 5, my_gid = 5, umask = 18\<rparr>\<rparr>"

definition shared_root :: filesys where
  "shared_root = [Abs [''run''] \<mapsto> \<lparr>kind = Directory, mode = octal [2, 7, 7, 0], uid = 5, gid = 6\<rparr>]"

definition before_upload :: world where
  "before_upload = (initial_world shared_root 0 0)\<lparr>fresh_uuid := ''0a1b''\<rparr>"

lemma sample_serves: "serves sample_oci broker_mode_env (files before_upload)"
  by (simp add: serves_def sample_oci_def broker_mode_env_def sample_env_def sample_settings_def default_settings_def
      before_upload_def initial_world_def shared_root_def resolve_strict_def shared_node_def)

lemma sample_admitted:
  "\<exists>w'. admit broker_mode_env STICKS3 sample_image before_upload = (w', Inr ''0a1b'')"
proof -
  have "acceptable_image sample_image STICKS3" by (simp add: acceptable_image_def sample_image_def STICKS3_def)
  then obtain m where "validate_and_pad_firmware sample_image STICKS3 = Inr (ljust sample_image (flash_size_bytes STICKS3) 0xff, m)"
    using validate_acceptable by blast
  from admit_accepts [OF _ this, of before_upload broker_mode_env] show ?thesis
    by (auto simp: before_upload_def active_count_def initial_world_def broker_mode_env_def sample_env_def sample_settings_def
        default_settings_def shared_root_def)
qed

lemma sample_paths:
  "map_of BOARD_PROFILES (board_id STICKS3) = Some STICKS3" "mount_safe (str_path (runtime_root (cfg broker_mode_env)))"
  "mount_safe ''0a1b''" "''0a1b'' \<noteq> ''..''"
  "files before_upload (child (child (runtime_root (cfg broker_mode_env)) (fresh_uuid before_upload)) ''flash.bin'') = None"
  by (simp_all add: board_profiles_lookup STICKS3_def mount_safe_def broker_mode_env_def sample_env_def sample_settings_def
      default_settings_def before_upload_def initial_world_def shared_root_def)

theorem admitted_session_accepted_witness:
  "\<exists>w' s. find_session w' ''0a1b'' = Some s \<and> session_directory (files w') sample_oci (broker_request s) = Inr (runtime_directory s)"
  using sample_admitted admitted_session_accepted [OF sample_serves _ sample_paths] by blast

theorem replay_refused_by_broker_witness:
  "\<exists>s fs fs'. restore_flash broker_mode_env s fs = Inr fs' \<and> session_directory fs' sample_oci (broker_request s)
     = Inl (OciPolicyError ''session flash image permissions do not match shared isolation'')"
proof -
  obtain w' where "admit broker_mode_env STICKS3 sample_image before_upload = (w', Inr ''0a1b'')"
    using sample_admitted ..
  from admitted_prepared [OF sample_serves this sample_paths]
  obtain s where p: "prepared sample_oci broker_mode_env s (files w')" by blast
  then obtain m where "files w' (runtime_directory s) = Some m" "kind m = Directory"
    by (auto simp: prepared_def placed_def)
  then have "\<exists>fs'. restore_flash broker_mode_env s (files w') = Inr fs'"
    by (simp add: restore_flash_def is_directory_def follow_def)
  with replay_refused_by_broker [OF p] show ?thesis by blast
qed

end
