(* ===== verification/Settings_Environment.thy ===== *)
theory Settings_Environment
  imports Settings Environment
begin

section \<open>Reading the service's settings from the environment (settings.py)\<close>

text \<open>
  \<open>Path.resolve\<close> without \<open>strict\<close>: links are followed as far as they exist, a component that cannot be
  read is kept as it is, and \<open>..\<close> drops the component before it.
\<close>

function walk_lenient :: "nat \<Rightarrow> filesys \<Rightarrow> string list \<Rightarrow> string list \<Rightarrow> exn + string list" where
  "walk_lenient links fs done [] = Inr done"
| "walk_lenient links fs done (c # todo) =
     (if c = ''..'' then walk_lenient links fs (butlast done) todo
      else case fs (Abs (done @ [c])) of
        None \<Rightarrow> walk_lenient links fs (done @ [c]) todo
      | Some node \<Rightarrow> (case kind node of
          Symlink target \<Rightarrow>
            if 40 \<le> links then Inl (RuntimeError ''Symlink loop'')
            else (case target of
              Abs ds \<Rightarrow> walk_lenient (Suc links) fs [] (ds @ todo)
            | Rel ds \<Rightarrow> walk_lenient (Suc links) fs done (ds @ todo))
        | _ \<Rightarrow> walk_lenient links fs (done @ [c]) todo))"
  by pat_completeness auto
termination
  by (relation "measures [\<lambda>(links, fs, done, todo). 40 - links, \<lambda>(links, fs, done, todo). length todo]") auto

definition resolve :: "filesys \<Rightarrow> string list \<Rightarrow> path \<Rightarrow> exn + path" where
  "resolve fs cwd p = sum_bind (walk_lenient 0 fs [] (parts (absolute cwd p))) (\<lambda>cs. Inr (Abs cs))"

definition read_bool :: "environment \<Rightarrow> string \<Rightarrow> bool \<Rightarrow> bool" where
  "read_bool en name d = (case en name of
       None \<Rightarrow> d
     | Some v \<Rightarrow> map lower_char (strip_by str_space v) \<in> {''1'', ''true'', ''yes'', ''on''})"

definition getenv :: "environment \<Rightarrow> string \<Rightarrow> string \<Rightarrow> string" where
  "getenv en name d = (case en name of None \<Rightarrow> d | Some v \<Rightarrow> v)"

text \<open>\<open>Path(os.environ.get(name, default)).resolve()\<close>, where the default is a path already.\<close>

definition path_setting :: "filesys \<Rightarrow> string list \<Rightarrow> environment \<Rightarrow> string \<Rightarrow> path \<Rightarrow> exn + path" where
  "path_setting fs cwd en name d = resolve fs cwd (case en name of None \<Rightarrow> d | Some v \<Rightarrow> path_of v)"

definition int_setting :: "environment \<Rightarrow> string \<Rightarrow> string \<Rightarrow> exn + int" where
  "int_setting en name d = (case int_of_text (getenv en name d) of
       None \<Rightarrow> Inl (ValueError ''invalid literal for int()'') | Some n \<Rightarrow> Inr n)"

definition float_setting :: "environment \<Rightarrow> string \<Rightarrow> string \<Rightarrow> exn + pyfloat" where
  "float_setting en name d = (case float_of_text (getenv en name d) of
       None \<Rightarrow> Inl (ValueError ''could not convert string to float'') | Some x \<Rightarrow> Inr x)"

definition WorkerSandboxMode :: "string \<Rightarrow> exn + worker_sandbox_mode" where
  "WorkerSandboxMode v =
     (if v = ''direct'' then Inr DIRECT else if v = ''bubblewrap'' then Inr BUBBLEWRAP
      else if v = ''oci-broker'' then Inr OCI_BROKER else Inl (ValueError ''not a valid WorkerSandboxMode''))"

definition readonly_paths_setting :: "string list \<Rightarrow> environment \<Rightarrow> path list" where
  "readonly_paths_setting cwd en = map (\<lambda>p. absolute cwd (path_of p))
     (filter (\<lambda>p. p \<noteq> []) (split_fields (CHR '':'') (getenv en ''SIMULATOR_WORKER_SANDBOX_READONLY_PATHS'' ''/usr:/lib:/lib64'')))"

text \<open>
  The startup timeout as nanoseconds of the model's clock, rounded down; a timeout that is not finite is
  kept only in the float itself.
\<close>

fun nanoseconds :: "pyfloat \<Rightarrow> int" where
  "nanoseconds (Fin m e) = (if 0 \<le> e then m * 2 ^ nat e * 10 ^ 9 else m * 10 ^ 9 div 2 ^ nat (- e))"
| "nanoseconds _ = 0"

record environment_settings = settings +
  worker_startup_timeout_seconds :: pyfloat

definition from_environment :: "filesys \<Rightarrow> string list \<Rightarrow> path \<Rightarrow> environment \<Rightarrow> exn + environment_settings" where
  "from_environment fs cwd project_root en =
     sum_bind (path_setting fs cwd en ''SIMULATOR_RUNTIME_ROOT'' (child project_root ''.runtime'')) (\<lambda>root.
     sum_bind (path_setting fs cwd en ''SIMULATOR_QEMU_EXECUTABLE''
       (foldl child project_root [''.cache'', ''qemu'', ''source'', ''build'', ''qemu-system-xtensa''])) (\<lambda>qemu.
     sum_bind (path_setting fs cwd en ''SIMULATOR_QEMU_ROM_DIRECTORY''
       (foldl child project_root [''.cache'', ''qemu'', ''source'', ''pc-bios''])) (\<lambda>roms.
     sum_bind (WorkerSandboxMode (getenv en ''SIMULATOR_WORKER_SANDBOX_MODE'' ''direct'')) (\<lambda>sandbox.
     sum_bind (path_setting fs cwd en ''SIMULATOR_WORKER_SANDBOX_EXECUTABLE'' (path_of ''/usr/bin/bwrap'')) (\<lambda>bwrap.
     sum_bind (path_setting fs cwd en ''SIMULATOR_WORKER_BROKER_SOCKET''
       (path_of ''/run/esp32-simulator/worker-broker.sock'')) (\<lambda>socket.
     sum_bind (if getenv en ''SIMULATOR_SHARED_GROUP_GID'' [] = [] then Inr None
       else sum_bind (int_setting en ''SIMULATOR_SHARED_GROUP_GID'' []) (\<lambda>g. Inr (Some g))) (\<lambda>shared.
     sum_bind (int_setting en ''SIMULATOR_MAX_SESSIONS'' ''2'') (\<lambda>max_sessions.
     sum_bind (int_setting en ''SIMULATOR_SESSION_TTL_SECONDS'' ''120'') (\<lambda>ttl.
     sum_bind (int_setting en ''SIMULATOR_WORKER_MEMORY_LIMIT_MIB'' ''1536'') (\<lambda>memory.
     sum_bind (int_setting en ''SIMULATOR_WORKER_CPU_LIMIT_SECONDS'' ''90'') (\<lambda>cpu.
     sum_bind (float_setting en ''SIMULATOR_WORKER_STARTUP_TIMEOUT_SECONDS'' ''10'') (\<lambda>startup.
     sum_bind (int_setting en ''SIMULATOR_FRAMEBUFFER_INTERVAL_MS'' ''100'') (\<lambda>interval.
     sum_bind (int_setting en ''SIMULATOR_MAX_RECORDING_EVENTS'' ''4096'') (\<lambda>recording.
     sum_bind (int_setting en ''SIMULATOR_MAX_EVENT_PAGE_SIZE'' ''500'') (\<lambda>page.
     sum_bind (int_setting en ''SIMULATOR_MAX_REPLAY_DURATION_SECONDS'' ''120'') (\<lambda>replay.
     sum_bind (int_setting en ''SIMULATOR_MAX_TRACE_EVENTS_PER_GENERATION'' ''2048'') (\<lambda>traces.
       Inr \<lparr>runtime_root = root, qemu_executable = qemu, settings_rom_directory = roms,
         native_workers_enabled = read_bool en ''SIMULATOR_NATIVE_WORKERS_ENABLED'' False,
         worker_qmp_enabled = read_bool en ''SIMULATOR_WORKER_QMP_ENABLED'' True,
         worker_debug_enabled = read_bool en ''SIMULATOR_WORKER_DEBUG_ENABLED'' True,
         worker_sandbox_mode = sandbox, worker_sandbox_executable = bwrap,
         worker_sandbox_readonly_paths = readonly_paths_setting cwd en,
         worker_broker_socket = socket, worker_shared_group_gid = shared,
         max_concurrent_sessions = max_sessions, session_ttl_seconds = ttl,
         worker_memory_limit_mib = memory, worker_cpu_limit_seconds = cpu,
         worker_startup_timeout_ns = nanoseconds startup, framebuffer_interval_ms = interval,
         max_recording_events = recording, max_event_page_size = page, max_replay_duration_seconds = replay,
         worker_trace_enabled = read_bool en ''SIMULATOR_WORKER_TRACE_ENABLED'' True,
         max_trace_events_per_generation = traces, worker_startup_timeout_seconds = startup\<rparr>)))))))))))))))))"

subsection \<open>Defaults\<close>

lemma walk_lenient_plain:
  assumes "\<And>p n. fs p = Some n \<Longrightarrow> \<not> is_lnk (kind n)"
  shows "''..'' \<notin> set todo \<Longrightarrow> walk_lenient links fs done todo = Inr (done @ todo)"
proof (induction todo arbitrary: "done")
  case (Cons c todo)
  then show ?case
    using assms [of "Abs (done @ [c])"] by (auto split: option.split file_kind.split)
qed simp

lemma resolve_plain:
  assumes "\<And>p n. fs p = Some n \<Longrightarrow> \<not> is_lnk (kind n)" "''..'' \<notin> set cs"
  shows "resolve fs cwd (Abs cs) = Inr (Abs cs)"
  using walk_lenient_plain [OF assms] by (simp add: resolve_def)

lemma default_texts:
  "int_of_text ''2'' = Some 2" "int_of_text ''120'' = Some 120" "int_of_text ''1536'' = Some 1536" "int_of_text ''90'' = Some 90"
  "int_of_text ''100'' = Some 100" "int_of_text ''4096'' = Some 4096" "int_of_text ''500'' = Some 500"
  "int_of_text ''2048'' = Some 2048" "map_option nanoseconds (float_of_text ''10'') = Some 10000000000"
  "path_of ''/usr/bin/bwrap'' = Abs [''usr'', ''bin'', ''bwrap'']"
  "path_of ''/run/esp32-simulator/worker-broker.sock'' = Abs [''run'', ''esp32-simulator'', ''worker-broker.sock'']"
  "path_of ''/usr'' = Abs [''usr'']" "path_of ''/lib'' = Abs [''lib'']" "path_of ''/lib64'' = Abs [''lib64'']"
  by code_simp+

text \<open>
  The two sets of defaults agree: with nothing set in the environment and no links in the way, what is
  read from it is the settings record with its declared defaults and the three paths
  below the project.
\<close>

theorem environment_defaults:
  assumes "\<And>p n. fs p = Some n \<Longrightarrow> \<not> is_lnk (kind n)" "''..'' \<notin> set root"
  shows "map_sum id settings.truncate (from_environment fs cwd (Abs root) (\<lambda>_. None)) =
    Inr (default_settings (Abs (root @ [''.runtime'']))
      (Abs (root @ [''.cache'', ''qemu'', ''source'', ''build'', ''qemu-system-xtensa'']))
      (Abs (root @ [''.cache'', ''qemu'', ''source'', ''pc-bios''])))"
proof -
  obtain x where x: "float_of_text ''10'' = Some x" "nanoseconds x = 10000000000"
    using default_texts(9) by (auto simp del: nanoseconds.simps)
  show ?thesis
    using assms(2)
    by (simp add: from_environment_def path_setting_def resolve_plain [OF assms(1)] getenv_def WorkerSandboxMode_def
        int_setting_def float_setting_def default_texts x readonly_paths_setting_def read_bool_def settings.truncate_def
        default_settings_def DEFAULT_SANDBOX_READONLY_PATHS_def)
qed

theorem environment_defaults_witness:
  "\<exists>s. from_environment (\<lambda>_. None) [] (Abs [''srv'']) (\<lambda>_. None) = Inr s \<and> max_concurrent_sessions s = 2"
  using environment_defaults [of "\<lambda>_. None" "[''srv'']" "[]"]
  by (cases "from_environment (\<lambda>_. None) [] (Abs [''srv'']) (\<lambda>_. None)")
    (auto simp: settings.truncate_def default_settings_def)

end
