(* ===== verification/Api.thy ===== *)
theory Api
  imports Session_Guards Settings_Environment
begin

section \<open>The HTTP and WebSocket interface (api.py)\<close>

text \<open>
  Every endpoint as a coroutine of the service's event loop: the call of the session manager, the body
  of the answer, and the translation of exceptions.  FastAPI reads requests and writes answers and
  pydantic validates bodies; what the source declares to them (the ranges of \<open>Field\<close> and \<open>Query\<close>, the
  values of \<open>Literal\<close>) is \<open>acceptable\<close>, and a request that violates it is answered 422 before the endpoint
  runs, as FastAPI documents.  An exception no handler names leaves the endpoint; the server
  then answers 500.
\<close>

definition version :: string where "version = ''0.1.0''"

text \<open>
  \<open>cli.main\<close>: what the command hands to uvicorn.  The server listens on the loopback interface and believes
  no header of a proxy.
\<close>

record server_options =
  application :: string
  host :: string
  port :: nat
  proxy_headers :: bool

definition cli_main :: server_options where
  "cli_main = \<lparr>application = ''esp32_s3_simulator.api:app'', host = ''127.0.0.1'', port = 8765, proxy_headers = False\<rparr>"

text \<open>\<open>str(error)\<close>: the message; a QMP error's description may be any JSON value.\<close>

datatype detail = Text utext | StrOf json

datatype response = Http nat json | Failure nat detail | Unprocessable

fun error_detail :: "exn \<Rightarrow> detail" where
  "error_detail (QmpCommandError d) = (case d of JStr t \<Rightarrow> Text t | _ \<Rightarrow> StrOf d)"
| "error_detail (FirmwareValidationError m) = Text (lit m)"
| "error_detail (BoardInputError m) = Text (lit m)"
| "error_detail (QmpError m) = Text (lit m)"
| "error_detail (QmpUnavailableError m) = Text (lit m)"
| "error_detail (GdbRemoteError m) = Text (lit m)"
| "error_detail (BrokerProtocolError m) = Text (lit m)"
| "error_detail (BrokerUnavailableError m) = Text (lit m)"
| "error_detail (OciPolicyError m) = Text (lit m)"
| "error_detail (SessionCapacityError m) = Text (lit m)"
| "error_detail (WorkerUnavailableError m) = Text (lit m)"
| "error_detail (SessionTransitionError m) = Text (lit m)"
| "error_detail (RuntimeError m) = Text (lit m)"
| "error_detail (ValueError m) = Text (lit m)"
| "error_detail _ = Text []"

subsection \<open>Translation of exceptions\<close>

text \<open>The \<open>except\<close> clauses, in their order; each endpoint names the ones it has.\<close>

datatype clause = NotFound | Conflict | QmpFailed | GdbFailed | WorkerMissing | BadFirmware | AtCapacity

fun is_not_found :: "exn \<Rightarrow> bool" where
  "is_not_found (SessionNotFoundError m) = True" | "is_not_found _ = False"

fun is_transition_error :: "exn \<Rightarrow> bool" where
  "is_transition_error (SessionTransitionError m) = True" | "is_transition_error _ = False"

fun is_worker_missing :: "exn \<Rightarrow> bool" where
  "is_worker_missing (WorkerUnavailableError m) = True" | "is_worker_missing _ = False"

fun is_bad_firmware :: "exn \<Rightarrow> bool" where
  "is_bad_firmware (FirmwareValidationError m) = True" | "is_bad_firmware _ = False"

fun is_capacity_error :: "exn \<Rightarrow> bool" where
  "is_capacity_error (SessionCapacityError m) = True" | "is_capacity_error _ = False"

primrec catches :: "clause \<Rightarrow> exn \<Rightarrow> bool" where
  "catches NotFound = is_not_found"
| "catches Conflict = is_transition_error"
| "catches QmpFailed = is_qmp_error"
| "catches GdbFailed = is_gdb_error"
| "catches WorkerMissing = is_worker_missing"
| "catches BadFirmware = is_bad_firmware"
| "catches AtCapacity = is_capacity_error"

fun status_of :: "clause \<Rightarrow> nat" where
  "status_of NotFound = 404"
| "status_of Conflict = 409"
| "status_of QmpFailed = 503"
| "status_of GdbFailed = 503"
| "status_of WorkerMissing = 503"
| "status_of BadFirmware = 422"
| "status_of AtCapacity = 429"

definition not_found :: response where
  "not_found = Failure 404 (Text (lit ''simulation session not found''))"

definition failure :: "clause \<Rightarrow> exn \<Rightarrow> response" where
  "failure c e = (if c = NotFound then not_found else Failure (status_of c) (error_detail e))"

definition translating :: "clause list \<Rightarrow> response task \<Rightarrow> response task" where
  "translating cs p = on_error p (\<lambda>e. case find (\<lambda>c. catches c e) cs of
       None \<Rightarrow> raising e | Some c \<Rightarrow> return (failure c e))"

subsection \<open>Requests\<close>

datatype api_request =
    Live
  | Ready
  | ListBoards
  | PostSession string bytes
  | GetSession string
  | DeleteSession string
  | PostControl string string
  | GetEvents string int int
  | GetDiagnostics string
  | GetReplay string
  | PostReplay string pyfloat
  | GetDebugStatus string
  | GetRegisters string
  | PostMemory string int int
  | PostBreakpoint string int bool
  | PostStep string

text \<open>The declared constraints; 0.25 and 4.0 are exact floats.\<close>

definition control_actions :: "string list" where
  "control_actions = [''pause'', ''resume'', ''reset'', ''power-off'', ''power-on'']"

fun acceptable :: "api_request \<Rightarrow> bool" where
  "acceptable (PostControl sid action) = (action \<in> set control_actions)"
| "acceptable (GetEvents sid after lim) = (0 \<le> after \<and> 1 \<le> lim)"
| "acceptable (PostReplay sid speed) = (fle (Fin 1 (-2)) speed \<and> fle speed (Fin 1 2))"
| "acceptable (PostMemory sid address n) = (0 \<le> address \<and> address \<le> 0xFFFFFFFF \<and> 1 \<le> n \<and> n \<le> 4096)"
| "acceptable (PostBreakpoint sid address on) = (0 \<le> address \<and> address \<le> 0xFFFFFFFF)"
| "acceptable _ = True"

text \<open>The public form of a session once an operation is over.\<close>

definition then_public :: "string \<Rightarrow> 'a task \<Rightarrow> response task" where
  "then_public sid p = then_do p (\<lambda>_. with_session sid (\<lambda>s. return (Http 200 (session_public_dict s))))"

definition live_body :: json where
  "live_body = jobj [(''status'', jstr ''ok''), (''version'', jstr version)]"

definition ready_body :: "env \<Rightarrow> bool \<Rightarrow> json" where
  "ready_body en r = jobj [(''status'', jstr (if r then ''ready'' else ''degraded'')), (''native_worker'', JBool r),
     (''worker_sandbox'', jstr (sandbox_mode_value (worker_sandbox_mode (cfg en))))]"

text \<open>\<open>firmware.read\<close> takes one byte more than fits, so that a longer upload is noticed.\<close>

definition post_session :: "env \<Rightarrow> string \<Rightarrow> bytes \<Rightarrow> response task" where
  "post_session en bid upload = (case get_board_profile bid of
       Inl e \<Rightarrow> return (Failure 404 (error_detail e))
     | Inr board \<Rightarrow> translating [BadFirmware, WorkerMissing, AtCapacity]
         (then_do (create_session en board (take (flash_size_bytes board + 1) upload)) (\<lambda>sid.
           with_session sid (\<lambda>s. return (Http 201 (session_public_dict s))))))"

definition post_control :: "env \<Rightarrow> string \<Rightarrow> string \<Rightarrow> response task" where
  "post_control en sid action = translating [NotFound, Conflict, GdbFailed, QmpFailed, WorkerMissing]
     (then_public sid
       (if action = ''pause'' then pause en sid
        else if action = ''resume'' then resume_session en sid
        else if action = ''reset'' then reset en sid
        else if action = ''power-off'' then power_off en sid
        else power_on en sid))"

definition debug_capabilities :: json where
  "debug_capabilities = jobj [(''register_read'', JBool True), (''memory_read_max_bytes'', JInt 4096),
     (''hardware_breakpoints_max'', JInt (int MAX_DEBUG_BREAKPOINTS)), (''single_step'', JBool True),
     (''memory_write'', JBool False), (''register_write'', JBool False), (''raw_gdb'', JBool False)]"

definition debug_status_body :: "env \<Rightarrow> session \<Rightarrow> json" where
  "debug_status_body en s = jobj [(''state'', jstr (state_value (state s))), (''stop_reason'', jopt JStr (debug_stop_reason s)),
     (''enabled'', JBool (worker_debug_enabled (cfg en) \<and> worker_qmp_enabled (cfg en))),
     (''capabilities'', debug_capabilities)]"

definition registers_body :: "(utext \<times> nat option) list \<Rightarrow> json" where
  "registers_body rs = jobj [(''registers'', JObj (map (\<lambda>(n, v). (n, jopt (\<lambda>v. JInt (int v)) v)) rs))]"

definition memory_body :: "int \<Rightarrow> bytes \<Rightarrow> json" where
  "memory_body address data = jobj [(''address'', JInt address), (''length'', JInt (int (length data))),
     (''data_hex'', jstr (hex_bytes data))]"

definition debugging :: "clause list" where
  "debugging = [NotFound, Conflict, GdbFailed, QmpFailed]"

fun endpoint :: "env \<Rightarrow> api_request \<Rightarrow> response task" where
  "endpoint en Live = return (Http 200 live_body)"
| "endpoint en Ready = then_do (worker_is_ready en) (\<lambda>r. return (Http 200 (ready_body en r)))"
| "endpoint en ListBoards = return (Http 200 (JArr (map (\<lambda>(k, b). as_public_dict b) BOARD_PROFILES)))"
| "endpoint en (PostSession bid upload) = post_session en bid upload"
| "endpoint en (GetSession sid) = translating [NotFound, QmpFailed] (then_public sid (refresh_state en sid))"
| "endpoint en (DeleteSession sid) = translating [NotFound] (then_public sid (stop en sid False))"
| "endpoint en (PostControl sid action) = post_control en sid action"
| "endpoint en (GetEvents sid after lim) = translating [NotFound]
     (with_session sid (\<lambda>s. return (Http 200 (list_events (cfg en) s after lim))))"
| "endpoint en (GetDiagnostics sid) = translating [NotFound]
     (with_session sid (\<lambda>s. return (Http 200 (diagnostics (cfg en) s))))"
| "endpoint en (GetReplay sid) = translating [NotFound] (with_session sid (\<lambda>s. return (Http 200 (replay_dict s))))"
| "endpoint en (PostReplay sid speed) = translating [NotFound, Conflict]
     (seq (start_replay en sid speed) (with_session sid (\<lambda>s. return (Http 202 (replay_dict s)))))"
| "endpoint en (GetDebugStatus sid) = translating [NotFound, QmpFailed]
     (seq (refresh_state en sid) (with_session sid (\<lambda>s. return (Http 200 (debug_status_body en s)))))"
| "endpoint en (GetRegisters sid) = translating debugging
     (then_do (debug_registers en sid) (\<lambda>rs. return (Http 200 (registers_body rs))))"
| "endpoint en (PostMemory sid address n) = translating debugging
     (then_do (debug_read_memory en sid address n) (\<lambda>data. return (Http 200 (memory_body address data))))"
| "endpoint en (PostBreakpoint sid address on) = translating debugging
     (seq (debug_set_breakpoint en sid address on)
       (return (Http 200 (jobj [(''address'', JInt address), (''enabled'', JBool on)]))))"
| "endpoint en (PostStep sid) = translating debugging
     (then_do (debug_step en sid) (\<lambda>reply. return (Http 200 (jobj [(''stop_reason'', JStr reply)]))))"

definition serve :: "env \<Rightarrow> api_request \<Rightarrow> response task" where
  "serve en rq = (if acceptable rq then endpoint en rq else return Unprocessable)"

end
