(* ===== verification/Api_Sockets.thy ===== *)
theory Api_Sockets
  imports Api
begin

section \<open>The WebSocket endpoints (api.py)\<close>

text \<open>
  The board input and the framebuffer of a session (its serial socket is in \<open>Session_Streams\<close>).  The
  client of the input socket is the list of what it sends, each with whether it is still there to
  receive the answer; after it the client is gone.  The pydantic adapter \<open>INPUT_MESSAGE_ADAPTER\<close> is a parameter:
  it maps a text to a message, or to the text of its \<open>ValidationError\<close>.
\<close>

text \<open>The messages; \<open>sequence\<close> is an integer, a string or null.\<close>

datatype input_message =
    KeyInputMessage string bool json
  | ButtonInputMessage string bool json
  | ImuInputMessage vec3 vec3 json
  | PowerInputMessage int int bool json

fun message_sequence :: "input_message \<Rightarrow> json" where
  "message_sequence (KeyInputMessage key pressed sq) = sq"
| "message_sequence (ButtonInputMessage button pressed sq) = sq"
| "message_sequence (ImuInputMessage a v sq) = sq"
| "message_sequence (PowerInputMessage b v c sq) = sq"

text \<open>The \<open>isinstance\<close> chain.\<close>

fun apply_message :: "env \<Rightarrow> string \<Rightarrow> input_message \<Rightarrow> unit task" where
  "apply_message en sid (KeyInputMessage key pressed sq) = send_key en sid key pressed"
| "apply_message en sid (ButtonInputMessage button pressed sq) = send_button en sid button pressed"
| "apply_message en sid (ImuInputMessage a v sq) = set_imu_sample en sid a v"
| "apply_message en sid (PowerInputMessage b v c sq) = set_power_state en sid b v c"

text \<open>The JSON frames sent back: an acknowledgement, or an error with its code and detail.\<close>

datatype input_frame = AckFrame json | ErrorFrame string detail

fun is_input_error :: "exn \<Rightarrow> bool" where
  "is_input_error (BoardInputError m) = True"
| "is_input_error _ = False"

text \<open>
  The answer to one message, with the handlers in their order.  An exception that none of them names
  (\<open>SessionNotFoundError\<close> is a \<open>KeyError\<close>) ends the connection.
\<close>

definition answer :: "env \<Rightarrow> (utext \<Rightarrow> utext + input_message) \<Rightarrow> string \<Rightarrow> utext \<Rightarrow> input_frame task" where
  "answer en validate_json sid payload = (case validate_json payload of
       Inl problem \<Rightarrow> return (ErrorFrame ''invalid-event'' (Text problem))
     | Inr event \<Rightarrow> on_error
         (seq (apply_message en sid event) (return (AckFrame (message_sequence event))))
         (\<lambda>e. if is_input_error e then return (ErrorFrame ''unsupported-input'' (error_detail e))
            else if is_qmp_error e \<or> is_runtime_error e then return (ErrorFrame ''worker-unavailable'' (error_detail e))
            else raising e))"

text \<open>The value of a task, or its exception as a value.\<close>

definition caught :: "'a task \<Rightarrow> (exn + 'a) task" where
  "caught p = on_error (then_do p (\<lambda>x. return (Inr x))) (\<lambda>e. return (Inl e))"

text \<open>The frames a connection has sent, and how it ended: closed by us, left by the client, or by an exception.\<close>

type_synonym conversation = "input_frame list \<times> (exn + socket_end)"

fun input_loop :: "env \<Rightarrow> (utext \<Rightarrow> utext + input_message) \<Rightarrow> string \<Rightarrow> input_frame list \<Rightarrow> (utext \<times> bool) list
    \<Rightarrow> conversation task" where
  "input_loop en validate_json sid sent [] = seq pause_point (return (sent, Inr Ended))"
| "input_loop en validate_json sid sent ((payload, listening) # rest) =
     seq pause_point (then_do (caught (answer en validate_json sid payload)) (\<lambda>r. case r of
         Inl e \<Rightarrow> return (sent, Inl e)
       | Inr frame \<Rightarrow> seq pause_point
           (if listening then input_loop en validate_json sid (sent @ [frame]) rest
            else return (sent, Inr Ended))))"

definition session_input :: "env \<Rightarrow> (utext \<Rightarrow> utext + input_message) \<Rightarrow> string \<Rightarrow> (utext \<times> bool) list
    \<Rightarrow> conversation task" where
  "session_input en validate_json sid client = look (\<lambda>w. case find_session w sid of
       None \<Rightarrow> return ([], Inr NO_SESSION)
     | Some s \<Rightarrow> seq pause_point (input_loop en validate_json sid [] client))"

text \<open>The framebuffer socket, with a client that stays for a number of rounds.\<close>

definition session_framebuffer :: "env \<Rightarrow> string \<Rightarrow> nat \<Rightarrow> socket_end task" where
  "session_framebuffer en sid n = admit_socket sid (on_error
     (then_do (subscribe_framebuffer en sid n) (\<lambda>packets. return Ended))
     (\<lambda>e. if is_qmp_error e \<or> is_runtime_error e then return (Closed 1011 ''framebuffer worker unavailable'')
        else raising e))"

end
