(* ===== verification/Api_Properties.thy ===== *)
theory Api_Properties
  imports Api_Sockets
begin

section \<open>What the interface answers\<close>

text \<open>
  The endpoints composed with the manager: what is refused at once and with which status, what a
  conversation on the input socket looks like, and what an acknowledgement promises.
\<close>

subsection \<open>Requests for a session that does not exist\<close>

fun request_session :: "api_request \<Rightarrow> string option" where
  "request_session Live = None"
| "request_session Ready = None"
| "request_session ListBoards = None"
| "request_session (PostSession bid upload) = None"
| "request_session (GetSession sid) = Some sid"
| "request_session (DeleteSession sid) = Some sid"
| "request_session (PostControl sid action) = Some sid"
| "request_session (GetEvents sid after lim) = Some sid"
| "request_session (GetDiagnostics sid) = Some sid"
| "request_session (GetReplay sid) = Some sid"
| "request_session (PostReplay sid speed) = Some sid"
| "request_session (GetDebugStatus sid) = Some sid"
| "request_session (GetRegisters sid) = Some sid"
| "request_session (PostMemory sid address n) = Some sid"
| "request_session (PostBreakpoint sid address on) = Some sid"
| "request_session (PostStep sid) = Some sid"

lemma settle_translating: "settle (translating cs p) w = carry (settle p w) (\<lambda>r. case r of
     Inl e \<Rightarrow> (case find (\<lambda>c. catches c e) cs of None \<Rightarrow> raising e | Some c \<Rightarrow> return (failure c e))
   | Inr x \<Rightarrow> Ret (Inr x))"
  by (simp add: translating_def run_simps)

lemma failure_not_found: "failure NotFound e = not_found"
  by (simp add: failure_def)

lemmas endpoint_defs = then_public_def refresh_state_def stop_def post_control_def
  pause_def resume_session_def reset_def power_off_def power_on_def debug_registers_def debug_read_memory_def
  debug_set_breakpoint_def debug_step_def require_paused_debug_session_def debugging_def

text \<open>
  C20. A request for a session that does not exist is answered at once, and touches nothing: every
  HTTP endpoint answers 404 and every socket is closed with 4404 before it is accepted.
\<close>

theorem unknown_session_refused:
  assumes "find_session w sid = None" "request_session rq = Some sid" "acceptable rq"
  shows "settle (serve en rq) w = (w, Ret (Inr not_found))
    \<and> settle (session_serial en sid n payloads) w = (w, Ret (Inr NO_SESSION))
    \<and> settle (session_input en vj sid client) w = (w, Ret (Inr ([], Inr NO_SESSION)))
    \<and> settle (session_framebuffer en sid n) w = (w, Ret (Inr NO_SESSION))"
proof -
  have "settle (endpoint en rq) w = (w, Ret (Inr not_found))"
    using assms(1,2)
    by (cases rq)
      (auto simp: settle_translating endpoint_defs start_replay_def run_simps failure_not_found)
  then show ?thesis
    using assms(1,3)
    by (simp add: serve_def session_serial_def session_input_def session_framebuffer_def admit_socket_def run_simps)
qed

theorem unknown_session_refused_witness:
  "settle (serve sample_env (PostStep ''s2'')) (idle_world RUNNING) = (idle_world RUNNING, Ret (Inr not_found))"
  using unknown_session_refused [of "idle_world RUNNING" "''s2''" "PostStep ''s2''" sample_env]
  by (simp add: find_session_def idle_world_def)

subsection \<open>Control in the wrong state\<close>

text \<open>The states that an action of the control endpoint starts from, and its name in the message.\<close>

definition control_states :: "string \<Rightarrow> session_state set" where
  "control_states action = (if action = ''pause'' then {RUNNING} else if action = ''resume'' then {PAUSED}
     else if action = ''power-on'' then {POWERED_OFF} else {RUNNING, PAUSED})"

definition control_verb :: "string \<Rightarrow> string" where
  "control_verb action = (if action = ''power-off'' then ''power off'' else if action = ''power-on'' then ''power on''
     else action)"

text \<open>
  C21. The control endpoint in the wrong state answers 409 with the reason, at once and with nothing
  changed.  During a replay the refusal is a plain \<open>RuntimeError\<close>, which no handler of the endpoint
  names: it escapes, and the client gets the server's 500 where the replay endpoint answers 409.
\<close>

theorem control_refusals:
  assumes "find_session w sid = Some s" "worker_qmp_enabled (cfg en)" "action \<in> set control_actions"
    and "QmpLock sid \<notin> set (held w)" "LifecycleLock sid \<notin> set (held w)"
  shows "(accept_live_input s \<and> state s \<notin> control_states action \<longrightarrow>
      settle (serve en (PostControl sid action)) w = (w, Ret (Inr (Failure 409
        (Text (lit (''cannot '' @ control_verb action @ '' session in '' @ state_value (state s) @ '' state'')))))))
    \<and> (\<not> accept_live_input s \<longrightarrow>
      settle (serve en (PostControl sid action)) w = (w, Ret (Inl live_input_error)))"
  using assms
  by (auto simp: serve_def control_actions_def settle_translating post_control_def then_public_def guard_defs run_simps
      transition_error_def failure_def control_states_def control_verb_def live_input_error_def)

theorem control_refusals_witness:
  "settle (serve sample_env (PostControl ''s1'' ''pause'')) replaying_world = (replaying_world, Ret (Inl live_input_error))"
  using control_refusals [of replaying_world "''s1''" "(idle_session RUNNING)\<lparr>accept_live_input := False\<rparr>" sample_env "''pause''"]
  by (simp add: replaying_world_def find_session_def initial_world_def control_actions_def sample_env_def
      sample_settings_def default_settings_def)

subsection \<open>Uploads\<close>

text \<open>\<open>firmware.read(n + 1)\<close> cuts an upload that is too long, which stays too long.\<close>

lemma acceptable_cut:
  "acceptable_image (take (Suc (flash_size_bytes b)) p) b \<longleftrightarrow> acceptable_image p b"
  by (auto simp: acceptable_image_def)

text \<open>
  The upload in a broker installation asks the broker first, which takes one suspension with the answer \<open>i\<close>;
  elsewhere it is decided at once.
\<close>

definition upload_inputs :: "env \<Rightarrow> input \<Rightarrow> input list" where
  "upload_inputs en i = (if worker_sandbox_mode (cfg en) = OCI_BROKER then [i] else [])"

definition ready_for_upload :: "env \<Rightarrow> input \<Rightarrow> world \<Rightarrow> bool" where
  "ready_for_upload en i w \<longleftrightarrow> worker_ready en w \<and> (worker_sandbox_mode (cfg en) = OCI_BROKER \<longrightarrow> i_probe i)"

definition upload_run :: "env \<Rightarrow> input \<Rightarrow> string \<Rightarrow> bytes \<Rightarrow> world \<Rightarrow> world \<times> response task" where
  "upload_run en i bid upload w = alone (upload_inputs en i) (settle (serve en (PostSession bid upload)) w)"

lemma carry_carry: "carry (carry c k) k' = carry c (\<lambda>r. outcome (k r) k')"
proof (cases c)
  case (Pair w p)
  then show ?thesis
    by (cases p) (simp_all add: settle_outcome carry_def outcome_outcome map_prod_def split_beta)
qed

text \<open>What is left to do once a session is admitted.\<close>

definition after_admission :: "env \<Rightarrow> string \<Rightarrow> response task" where
  "after_admission en sid = translating [BadFirmware, WorkerMissing, AtCapacity]
     (then_do (seq (first_launch en sid) (return sid))
       (\<lambda>sid. with_session sid (\<lambda>s. return (Http 201 (session_public_dict s)))))"

text \<open>How the upload goes on when its turn at the manager's lock has come.\<close>

definition admission :: "env \<Rightarrow> board_profile \<Rightarrow> bytes \<Rightarrow> world \<Rightarrow> world \<times> response task" where
  "admission en b p w = (case admit en b p (w\<lparr>held := ManagerLock # held w\<rparr>) of
     (w2, Inl e) \<Rightarrow> (w2\<lparr>held := removeAll ManagerLock (held w2)\<rparr>,
        Ret (case find (\<lambda>c. catches c e) [BadFirmware, WorkerMissing, AtCapacity] of None \<Rightarrow> Inl e | Some c \<Rightarrow> Inr (failure c e)))
   | (w2, Inr sid) \<Rightarrow> settle (after_admission en sid) (w2\<lparr>held := removeAll ManagerLock (held w2)\<rparr>))"

definition upload_refusal :: "exn \<Rightarrow> response task" where
  "upload_refusal e = Ret (case find (\<lambda>c. catches c e) [BadFirmware, WorkerMissing, AtCapacity] of
     None \<Rightarrow> Inl e | Some c \<Rightarrow> Inr (failure c e))"

lemma outcome_locked:
  "outcome (locked l p) K = outcome (acquire l) (\<lambda>r. case r of Inl e \<Rightarrow> K (Inl e)
     | Inr u \<Rightarrow> outcome p (\<lambda>x. Do (\<lambda>w. (w\<lparr>held := removeAll l (held w)\<rparr>, K x))))"
proof -
  have "outcome (case r of Inl e \<Rightarrow> Ret (Inl e) | Inr u \<Rightarrow> always p (release l)) K
      = (case r of Inl e \<Rightarrow> K (Inl e) | Inr u \<Rightarrow> outcome p (\<lambda>x. Do (\<lambda>w. (w\<lparr>held := removeAll l (held w)\<rparr>, K x))))" for r :: "exn + unit"
    by (cases r) (simp_all add: always_def release_def change_def outcome_outcome)
  then show ?thesis by (simp add: locked_def seq_def then_do_def outcome_outcome)
qed

lemma outcome_create_session:
  "outcome (create_session en b p) K = outcome (worker_is_ready en) (\<lambda>r. case r of Inl e \<Rightarrow> K (Inl e)
     | Inr ready \<Rightarrow> if \<not> ready then K (Inl (WorkerUnavailableError ''native QEMU workers are not configured and enabled''))
        else outcome (locked ManagerLock (Do (\<lambda>w. case admit en b p w of (w', r) \<Rightarrow> (w', Ret r))))
          (\<lambda>r. case r of Inl e \<Rightarrow> K (Inl e) | Inr sid \<Rightarrow> outcome (seq (first_launch en sid) (return sid)) K))"
proof -
  have step: "outcome (case r of Inl e \<Rightarrow> Ret (Inl e) | Inr sid \<Rightarrow> seq (first_launch en sid) (return sid)) K
      = (case r of Inl e \<Rightarrow> K (Inl e) | Inr sid \<Rightarrow> outcome (seq (first_launch en sid) (return sid)) K)" for r
    by (cases r) simp_all
  show ?thesis
    unfolding create_session_def create_then_def then_do_def outcome_outcome
    by (rule arg_cong [where f = "outcome (worker_is_ready en)"], rule ext)
      (auto simp: raising_def outcome_outcome step split: sum.split)
qed

definition take_turn :: "env \<Rightarrow> board_profile \<Rightarrow> bytes \<Rightarrow> response task" where
  "take_turn en b p = outcome (acquire ManagerLock) (\<lambda>r. case r of Inl e \<Rightarrow> upload_refusal e
     | Inr u \<Rightarrow> Do (\<lambda>w. case admit en b p w of (w2, x) \<Rightarrow> (w2, Do (\<lambda>w. (w\<lparr>held := removeAll ManagerLock (held w)\<rparr>,
         case x of Inl e \<Rightarrow> upload_refusal e | Inr sid \<Rightarrow> after_admission en sid)))))"

lemma serve_upload:
  assumes "map_of BOARD_PROFILES bid = Some b"
  shows "serve en (PostSession bid upload) = outcome (worker_is_ready en) (\<lambda>r. case r of Inl e \<Rightarrow> upload_refusal e
     | Inr ready \<Rightarrow> if \<not> ready then upload_refusal (WorkerUnavailableError ''native QEMU workers are not configured and enabled'')
        else take_turn en b (take (Suc (flash_size_bytes b)) upload))"
proof -
  have b: "get_board_profile bid = Inr b" using assms(1) by (simp add: get_board_profile_def)
  let ?p = "take (Suc (flash_size_bytes b)) upload"
  let ?K = "\<lambda>r. outcome (case r of Inl e \<Rightarrow> Ret (Inl e) | Inr sid \<Rightarrow> with_session sid (\<lambda>s. return (Http 201 (session_public_dict s))))
     (\<lambda>r. case r of Inl e \<Rightarrow> upload_refusal e | Inr x \<Rightarrow> Ret (Inr x))"
  have h: "upload_refusal e = (case find (\<lambda>c. catches c e) [BadFirmware, WorkerMissing, AtCapacity] of
      None \<Rightarrow> raising e | Some c \<Rightarrow> return (failure c e))" for e
    by (simp add: upload_refusal_def raising_def return_def split: option.split)
  have K: "?K (Inl e) = upload_refusal e" for e by simp
  have after: "outcome (seq (first_launch en sid) (return sid)) ?K = after_admission en sid" for sid
    by (simp only: after_admission_def translating_def on_error_def then_do_def h outcome_outcome)
  have "serve en (PostSession bid upload) = outcome (create_session en b ?p) ?K"
    by (simp only: serve_def acceptable.simps if_True endpoint.simps post_session_def b sum.case translating_def
      on_error_def then_do_def outcome_outcome h Suc_eq_plus1)
  also have "\<dots> = outcome (worker_is_ready en) (\<lambda>r. case r of Inl e \<Rightarrow> upload_refusal e
     | Inr ready \<Rightarrow> if \<not> ready then upload_refusal (WorkerUnavailableError ''native QEMU workers are not configured and enabled'')
        else outcome (locked ManagerLock (Do (\<lambda>w. case admit en b ?p w of (w', r) \<Rightarrow> (w', Ret r))))
          (\<lambda>r. case r of Inl e \<Rightarrow> upload_refusal e | Inr sid \<Rightarrow> after_admission en sid))"
    unfolding outcome_create_session K after ..
  also have "outcome (locked ManagerLock (Do (\<lambda>w. case admit en b ?p w of (w', r) \<Rightarrow> (w', Ret r))))
          (\<lambda>r. case r of Inl e \<Rightarrow> upload_refusal e | Inr sid \<Rightarrow> after_admission en sid) = take_turn en b ?p"
    unfolding outcome_locked take_turn_def
    by (rule arg_cong [where f = "outcome (acquire ManagerLock)"], rule ext)
      (auto simp: fun_eq_iff split: sum.split prod.split)
  finally show ?thesis .
qed

lemma settle_take_turn:
  "ManagerLock \<notin> set (held w) \<Longrightarrow> settle (take_turn en b p) w = admission en b p w"
  "ManagerLock \<in> set (held w) \<Longrightarrow> \<exists>q. settle (take_turn en b p) w = (w, q)
     \<and> (\<forall>v. runnable q v \<longleftrightarrow> ManagerLock \<notin> set (held v) \<or> cancel_pending v)
     \<and> (\<forall>v j. ManagerLock \<notin> set (held v) \<longrightarrow> \<not> cancel_pending v \<longrightarrow> resume q j v = admission en b p v)"
  by (auto simp: take_turn_def acquire_def admission_def upload_refusal_def run_simps split: prod.split sum.split)

lemma upload_run_cases:
  assumes "map_of BOARD_PROFILES bid = Some b" "cancels w = []"
  shows "upload_run en i bid upload w =
    (if ready_for_upload en i w then settle (take_turn en b (take (Suc (flash_size_bytes b)) upload)) w
     else (w, upload_refusal (WorkerUnavailableError ''native QEMU workers are not configured and enabled'')))"
proof -
  have r: "settle (upload_refusal e) w = (w, upload_refusal e)" "alone is (w, upload_refusal e) = (w, upload_refusal e)" for e w "is"
    by (cases "is"; simp add: upload_refusal_def)+
  show ?thesis
    using assms
    by (auto simp: upload_run_def upload_inputs_def ready_for_upload_def serve_upload worker_is_ready_def run_simps cancel_pending_def r)
qed

lemma admission_refused:
  assumes "admit en b p (w\<lparr>held := ManagerLock # held w\<rparr>) = (w\<lparr>held := ManagerLock # held w\<rparr>, Inl e)" "ManagerLock \<notin> set (held w)"
  shows "admission en b p w = (w, upload_refusal e)"
  using assms by (simp add: admission_def upload_refusal_def)

lemma admission_admits:
  assumes "admit en b p (w\<lparr>held := ManagerLock # held w\<rparr>) = (w2, Inr sid)" "find_session w2 sid \<noteq> None"
  shows "find_session (fst (admission en b p w)) sid \<noteq> None"
proof -
  have "safe (\<lambda>w. find_session w sid \<noteq> None) (after_admission en sid)"
    unfolding after_admission_def translating_def
    by (intro safe_intro kept_law.safe_first_launch kept_law.safe_with_session; auto intro: safe_intro)
  from safe_settle [OF this, of "w2\<lparr>held := removeAll ManagerLock (held w2)\<rparr>"] assms show ?thesis
    by (simp add: admission_def)
qed

text \<open>
  C22. The upload endpoint decides in this order, and what it refuses it refuses without a trace: an unknown
  board is a 404; workers that are not configured, or a broker that does not answer, a 503; a full
  service a 429; and then an upload is a 422 exactly when it is not an acceptable image, although it
  is read only one byte past the flash size: an acceptable one is admitted, and its session is in the
  table.  While another upload holds the manager's lock this one waits, and what is decided then
  is what is decided for an upload that arrives in the state in which it gets the lock.
\<close>

theorem uploads_refused:
  assumes "cancels w = []"
  shows "(map_of BOARD_PROFILES bid = None \<longrightarrow>
      (\<exists>m. upload_run en i bid upload w = (w, Ret (Inr (Failure 404 m)))))
    \<and> (map_of BOARD_PROFILES bid = Some b \<and> \<not> ready_for_upload en i w \<longrightarrow>
      (\<exists>m. upload_run en i bid upload w = (w, Ret (Inr (Failure 503 m)))))
    \<and> (map_of BOARD_PROFILES bid = Some b \<and> ready_for_upload en i w \<and> ManagerLock \<notin> set (held w)
        \<and> max_concurrent_sessions (cfg en) \<le> int (active_count w) \<longrightarrow>
      (\<exists>m. upload_run en i bid upload w = (w, Ret (Inr (Failure 429 m)))))
    \<and> (map_of BOARD_PROFILES bid = Some b \<and> ready_for_upload en i w \<and> ManagerLock \<notin> set (held w)
        \<and> int (active_count w) < max_concurrent_sessions (cfg en) \<longrightarrow>
      (if acceptable_image upload b
       then files w (child (runtime_root (cfg en)) (fresh_uuid w)) = None \<longrightarrow>
         find_session (fst (upload_run en i bid upload w)) (fresh_uuid w) \<noteq> None
       else \<exists>m. upload_run en i bid upload w = (w, Ret (Inr (Failure 422 m)))))
    \<and> (map_of BOARD_PROFILES bid = Some b \<and> ready_for_upload en i w \<and> ManagerLock \<in> set (held w) \<longrightarrow>
      (\<exists>q. upload_run en i bid upload w = (w, q) \<and> \<not> runnable q w
        \<and> (\<forall>v j. ManagerLock \<notin> set (held v) \<longrightarrow> cancels v = [] \<longrightarrow> ready_for_upload en i v \<longrightarrow>
             runnable q v \<and> resume q j v = upload_run en i bid upload v)))"
proof -
  let ?v = "w\<lparr>held := ManagerLock # held w\<rparr>" and ?p = "take (Suc (flash_size_bytes b)) upload"
  have a: "active_count ?v = active_count w" by (simp add: active_count_def)
  have run: "upload_run en i bid upload w = admission en b ?p w"
    if "map_of BOARD_PROFILES bid = Some b" "ready_for_upload en i w" "ManagerLock \<notin> set (held w)"
    using upload_run_cases [OF that(1) assms] settle_take_turn(1) [OF that(3)] that(2) by simp
  have no: "map_of BOARD_PROFILES bid = None \<Longrightarrow> \<exists>m. upload_run en i bid upload w = (w, Ret (Inr (Failure 404 m)))"
    by (simp add: upload_run_def upload_inputs_def serve_def post_session_def get_board_profile_def run_simps)
  have missing: "\<exists>m. upload_run en i bid upload w = (w, Ret (Inr (Failure 503 m)))"
    if "map_of BOARD_PROFILES bid = Some b" "\<not> ready_for_upload en i w"
    using upload_run_cases [OF that(1) assms] that(2) by (simp add: upload_refusal_def failure_def)
  have full: "\<exists>m. upload_run en i bid upload w = (w, Ret (Inr (Failure 429 m)))"
    if "map_of BOARD_PROFILES bid = Some b" "ready_for_upload en i w" "ManagerLock \<notin> set (held w)"
      "max_concurrent_sessions (cfg en) \<le> int (active_count w)"
  proof -
    have "admit en b ?p ?v = (?v, Inl (SessionCapacityError ''all simulator workers are currently in use''))"
      using that(4) by (simp add: admit_def a Let_def)
    from admission_refused [OF this that(3)] show ?thesis
      unfolding run [OF that(1-3)] by (simp add: upload_refusal_def failure_def)
  qed
  have bad: "\<exists>m. upload_run en i bid upload w = (w, Ret (Inr (Failure 422 m)))"
    if "map_of BOARD_PROFILES bid = Some b" "ready_for_upload en i w" "ManagerLock \<notin> set (held w)"
      "int (active_count w) < max_concurrent_sessions (cfg en)" "\<not> acceptable_image upload b"
  proof -
    from that(5) have "\<not> acceptable_image ?p b" by (simp add: acceptable_cut)
    then obtain m where "validate_and_pad_firmware ?p b = Inl (FirmwareValidationError m)"
      using validate_Inr_acceptable validate_Inl by (metis sum.exhaust)
    with that(4) have "admit en b ?p ?v = (?v, Inl (FirmwareValidationError m))" by (simp add: admit_def a Let_def)
    from admission_refused [OF this that(3)] show ?thesis
      unfolding run [OF that(1-3)] by (simp add: upload_refusal_def failure_def)
  qed
  have good: "find_session (fst (upload_run en i bid upload w)) (fresh_uuid w) \<noteq> None"
    if "map_of BOARD_PROFILES bid = Some b" "ready_for_upload en i w" "ManagerLock \<notin> set (held w)"
      "int (active_count w) < max_concurrent_sessions (cfg en)" "acceptable_image upload b"
      "files w (child (runtime_root (cfg en)) (fresh_uuid w)) = None"
  proof -
    from that(5) have "acceptable_image ?p b" by (simp add: acceptable_cut)
    then obtain fl md where v: "validate_and_pad_firmware ?p b = Inr (fl, md)" using validate_acceptable by blast
    from that(4,6) obtain fs where ad: "admit en b ?p ?v = (?v\<lparr>files := fs,
        sessions := put (fresh_uuid ?v) (new_session en ?v b fl md) (sessions ?v)\<rparr>, Inr (fresh_uuid ?v))"
      using admit_accepts [OF _ v, of ?v en] by (auto simp: a)
    show ?thesis unfolding run [OF that(1-3)]
      using admission_admits [OF ad] by (simp add: find_session_def map_of_put)
  qed
  have busy: "\<exists>q. upload_run en i bid upload w = (w, q) \<and> \<not> runnable q w
        \<and> (\<forall>v j. ManagerLock \<notin> set (held v) \<longrightarrow> cancels v = [] \<longrightarrow> ready_for_upload en i v \<longrightarrow>
             runnable q v \<and> resume q j v = upload_run en i bid upload v)"
    if "map_of BOARD_PROFILES bid = Some b" "ready_for_upload en i w" "ManagerLock \<in> set (held w)"
  proof -
    from settle_take_turn(2) [OF that(3), of en b ?p] obtain q where q: "settle (take_turn en b ?p) w = (w, q)"
      "\<And>v. runnable q v \<longleftrightarrow> ManagerLock \<notin> set (held v) \<or> cancel_pending v"
      "\<And>v j. ManagerLock \<notin> set (held v) \<Longrightarrow> \<not> cancel_pending v \<Longrightarrow> resume q j v = admission en b ?p v" by blast
    show ?thesis
      using upload_run_cases [OF that(1) assms] upload_run_cases [OF that(1)] that(2,3) q assms
      by (intro exI [of _ q]) (simp add: cancel_pending_def settle_take_turn(1))
  qed
  show ?thesis using no missing full bad good busy by (simp split: if_split)
qed

theorem uploads_refused_witness:
  "(\<exists>m. upload_run sample_env sample_input ''sticks3'' [] (initial_world sample_files 0 0)
     = (initial_world sample_files 0 0, Ret (Inr (Failure 422 m))))
   \<and> find_session (fst (upload_run sample_env sample_input ''sticks3'' sample_image (initial_world sample_files 0 0))) [] \<noteq> None"
proof -
  let ?w = "initial_world sample_files 0 0"
  have "is_ok (validate_worker_config sample_files (worker_config sample_settings))"
    by (simp add: validate_worker_config_def worker_config_def sample_settings_def default_settings_def
        is_file_def is_directory_def access_x_def follow_def sample_files_def)
  then have "worker_ready sample_env ?w" "worker_sandbox_mode (cfg sample_env) \<noteq> OCI_BROKER"
    by (simp_all add: worker_ready_def sample_env_def initial_world_def sample_settings_def default_settings_def)
  then have w: "ready_for_upload sample_env sample_input ?w" "cancels ?w = []"
    "ManagerLock \<notin> set (held ?w)" "int (active_count ?w) < max_concurrent_sessions (cfg sample_env)"
    "files ?w (child (runtime_root (cfg sample_env)) (fresh_uuid ?w)) = None" "fresh_uuid ?w = []"
    by (simp_all add: ready_for_upload_def sample_env_def initial_world_def active_count_def sample_settings_def
        default_settings_def sample_files_def)
  have b: "map_of BOARD_PROFILES ''sticks3'' = Some STICKS3" "\<not> acceptable_image [] STICKS3" "acceptable_image sample_image STICKS3"
    by (simp_all add: board_profiles_lookup acceptable_image_def sample_image_def STICKS3_def)
  note all = uploads_refused [OF w(2), where en = sample_env and i = sample_input and bid = "''sticks3''" and b = STICKS3]
  from all [where upload = "[]"] all [where upload = sample_image] w b show ?thesis by simp
qed

subsection \<open>Conversations on the input socket\<close>

text \<open>The exceptions the handlers of the input socket name, and what may answer a message.\<close>

definition input_error :: "exn \<Rightarrow> bool" where
  "input_error e \<longleftrightarrow> is_input_error e \<or> is_qmp_error e \<or> is_runtime_error e"

definition answers :: "(utext \<Rightarrow> utext + input_message) \<Rightarrow> utext \<Rightarrow> input_frame \<Rightarrow> bool" where
  "answers vj payload f = (case vj payload of
       Inl problem \<Rightarrow> f = ErrorFrame ''invalid-event'' (Text problem)
     | Inr m \<Rightarrow> f = AckFrame (message_sequence m)
         \<or> (\<exists>d. f = ErrorFrame ''unsupported-input'' d) \<or> (\<exists>d. f = ErrorFrame ''worker-unavailable'' d))"

lemma wp_caught: "wp R (caught p) Q w = wp R p (\<lambda>r u. Q (Inr r) u) w"
  by (simp add: caught_def wp_simps) (rule wp_cong, case_tac r, simp_all add: wp_simps)

definition answered :: "(utext \<Rightarrow> utext + input_message) \<Rightarrow> utext \<Rightarrow> exn + input_frame \<Rightarrow> bool" where
  "answered vj payload r \<longleftrightarrow> (case r of Inl x \<Rightarrow> \<not> input_error x | Inr f \<Rightarrow> answers vj payload f)"

lemma wp_answer: "wp R (answer en vj sid payload) (\<lambda>r u. answered vj payload r) w"
proof (cases "vj payload")
  case (Inl problem)
  then show ?thesis by (simp add: answer_def wp_simps answers_def answered_def)
next
  case (Inr m)
  then show ?thesis
    by (simp add: answer_def wp_simps answers_def answered_def)
      (rule wp_any, auto simp: wp_simps answers_def input_error_def split: sum.split)
qed

text \<open>The frames sent so far answer the first messages, one each.\<close>

definition in_step :: "(utext \<Rightarrow> utext + input_message) \<Rightarrow> (utext \<times> bool) list \<Rightarrow> input_frame list \<Rightarrow> bool" where
  "in_step vj client fs = (length fs \<le> length client \<and> (\<forall>k<length fs. answers vj (fst (client ! k)) (fs ! k)))"

lemma in_step_simps [simp]:
  "in_step vj client []"
  "in_step vj (c # client) (f # fs) \<longleftrightarrow> answers vj (fst c) f \<and> in_step vj client fs"
  by (auto simp: in_step_def less_Suc_eq_0_disj)

text \<open>The outcome of a connection that had sent \<open>sent\<close> before the messages \<open>client\<close> came.\<close>

definition conversed :: "(utext \<Rightarrow> utext + input_message) \<Rightarrow> (utext \<times> bool) list \<Rightarrow> input_frame list
    \<Rightarrow> exn + conversation \<Rightarrow> bool" where
  "conversed vj client sent r \<longleftrightarrow> (\<forall>frames e. r = Inr (frames, e) \<longrightarrow> (\<exists>fs. frames = sent @ fs \<and> in_step vj client fs
     \<and> (e = Inr Ended \<and> (\<forall>(p, listening)\<in>set client. listening) \<longrightarrow> length fs = length client)
     \<and> (\<forall>x. e = Inl x \<longrightarrow> \<not> input_error x \<and> length fs < length client)))"

lemma conversed_simps [simp]:
  "conversed vj client sent (Inl e)"
  "conversed vj [] sent (Inr (sent, Inr Ended))"
  "\<not> input_error x \<Longrightarrow> conversed vj (c # client) sent (Inr (sent, Inl x))"
  "conversed vj ((p, False) # client) sent (Inr (sent, Inr Ended))"
  by (simp_all add: conversed_def)

lemma conversed_Cons:
  assumes "conversed vj client (sent @ [f]) r" "answers vj (fst c) f"
  shows "conversed vj (c # client) sent r"
  unfolding conversed_def
proof (intro allI impI)
  fix frames e
  assume "r = Inr (frames, e)"
  with assms(1) obtain fs where "frames = (sent @ [f]) @ fs" "in_step vj client fs"
    "e = Inr Ended \<and> (\<forall>(p, listening)\<in>set client. listening) \<longrightarrow> length fs = length client"
    "\<forall>x. e = Inl x \<longrightarrow> \<not> input_error x \<and> length fs < length client"
    unfolding conversed_def by blast
  then show "\<exists>fs. frames = sent @ fs \<and> in_step vj (c # client) fs
     \<and> (e = Inr Ended \<and> (\<forall>(p, listening)\<in>set (c # client). listening) \<longrightarrow> length fs = length (c # client))
     \<and> (\<forall>x. e = Inl x \<longrightarrow> \<not> input_error x \<and> length fs < length (c # client))"
    using assms(2) by (intro exI [of _ "f # fs"]) auto
qed

lemma wp_input_loop: "wp R (input_loop en vj sid sent client) (\<lambda>r u. conversed vj client sent r) w"
proof (induction client arbitrary: sent w)
  case Nil
  show ?case by (simp add: wp_simps pause_point_def wp_suspend)
next
  case (Cons c client)
  obtain payload listening where c: "c = (payload, listening)" by (cases c)
  define Q where "Q = (\<lambda>(r :: exn + conversation) (u :: world). conversed vj (c # client) sent r)"
  have Q: "Q (Inl e) u" "\<not> input_error e \<Longrightarrow> Q (Inr (sent, Inl e)) u" "\<not> listening \<Longrightarrow> Q (Inr (sent, Inr Ended)) u" for e u
    by (auto simp: Q_def c)
  have rest: "wp R (input_loop en vj sid (sent @ [f]) client) Q u" if "answers vj payload f" for f u
    by (rule wp_mono [OF Cons.IH]) (use that in \<open>auto simp: c Q_def intro: conversed_Cons\<close>)
  define next_step :: "exn + input_frame \<Rightarrow> conversation task"
    where "next_step = (\<lambda>r. case r of Inl e \<Rightarrow> return (sent, Inl e) | Inr f \<Rightarrow> seq pause_point
         (if listening then input_loop en vj sid (sent @ [f]) client else return (sent, Inr Ended)))"
  have after: "wp R (next_step r) Q u" if "answered vj payload r" for r u
    using that rest by (cases r) (auto simp: next_step_def wp_simps(1) answered_def Q intro!: wp_seq_any)
  have "wp R (then_do (caught (answer en vj sid payload)) next_step) Q u" for u
    unfolding wp_simps(6) wp_caught by (rule wp_mono [OF wp_answer]) (simp add: after)
  then have "wp R (seq pause_point (then_do (caught (answer en vj sid payload)) next_step)) Q u" for u
    by (intro wp_seq_any Q)
  then show ?case by (simp add: c Q_def next_step_def)
qed

text \<open>
  C23. A conversation on the input socket is in step: whatever else the service does meanwhile, the
  \<open>k\<close>-th frame answers the \<open>k\<close>-th message, with its own sequence when it is acknowledged.  When the
  client stays until it has said everything and the connection ends normally, nothing is left
  unanswered.  A message that no frame answers because it ends the connection ends it with an exception
  that none of the handlers names: every board input error, QMP error and \<open>RuntimeError\<close> is answered.
\<close>

theorem input_in_step:
  assumes "ends R (session_input en vj sid client) w (Inr (frames, e)) w'"
  shows "in_step vj client frames
    \<and> (find_session w sid \<noteq> None \<and> e = Inr Ended \<and> (\<forall>(p, listening)\<in>set client. listening) \<longrightarrow>
        length frames = length client)
    \<and> (\<forall>x. e = Inl x \<longrightarrow> \<not> input_error x \<and> length frames < length client)"
proof -
  define Q where "Q = (\<lambda>(r :: exn + conversation) (u :: world). conversed vj client [] r)"
  have loop: "wp R (seq pause_point (input_loop en vj sid [] client)) Q u" for u
    by (intro wp_seq_any) (auto simp: Q_def wp_input_loop)
  show ?thesis
  proof (cases "find_session w sid")
    case None
    then have "wp R (session_input en vj sid client) (\<lambda>r u. r = Inr ([], Inr NO_SESSION)) w"
      by (simp add: session_input_def wp_simps)
    from wp_sound [OF assms this] None show ?thesis by simp
  next
    case (Some s)
    then have "wp R (session_input en vj sid client) Q w" by (simp add: session_input_def wp_simps(4) loop)
    from wp_sound [OF assms this] Some show ?thesis by (auto simp: Q_def conversed_def)
  qed
qed

lemma wp_alone: "\<not> wp (=) p (\<lambda>r u. r \<noteq> x) w \<Longrightarrow> \<exists>w'. ends (=) p w x w'"
  using ends_unless [of "(=)" p "\<lambda>r u. r = x" w] by auto

theorem input_in_step_witness:
  "\<exists>w'. ends (=) (session_input sample_env (\<lambda>t. Inl t) ''s1'' [(lit ''{'', True)]) (idle_world RUNNING)
       (Inr ([ErrorFrame ''invalid-event'' (Text (lit ''{''))], Inr Ended)) w'
     \<and> in_step (\<lambda>t. Inl t) [(lit ''{'', True)] [ErrorFrame ''invalid-event'' (Text (lit ''{''))]"
proof -
  have "\<exists>w'. ends (=) (session_input sample_env (\<lambda>t. Inl t) ''s1'' [(lit ''{'', True)]) (idle_world RUNNING)
       (Inr ([ErrorFrame ''invalid-event'' (Text (lit ''{''))], Inr Ended)) w'"
    by (rule wp_alone) (simp add: session_input_def wp_simps pause_point_def wp_suspend wp_caught answer_def
        cancel_pending_def idle_world_def initial_world_def find_session_def)
  with input_in_step show ?thesis by blast
qed

subsection \<open>What an acknowledgement promises\<close>

fun message_action :: "input_message \<Rightarrow> action" where
  "message_action (KeyInputMessage key pressed sq) = KeyAction key pressed"
| "message_action (ButtonInputMessage button pressed sq) = ButtonAction button pressed"
| "message_action (ImuInputMessage a v sq) = ImuAction a v"
| "message_action (PowerInputMessage b v c sq) = PowerAction b v c"

definition recorded :: "action \<Rightarrow> session \<Rightarrow> bool" where
  "recorded a s \<longleftrightarrow> replay_actions s \<noteq> [] \<and> ra_action (last (replay_actions s)) = a
     \<and> events s \<noteq> [] \<and> ev_type (last (events s)) = ''input.'' @ action_type a \<and> ev_source (last (events s)) = User"

text \<open>The sensors of the emulated board, which a message to them leaves at its values.\<close>

fun sensors_set :: "input_message \<Rightarrow> session \<Rightarrow> bool" where
  "sensors_set (ImuInputMessage a v sq) s = (virtual_imu_state s = Some (a, v))"
| "sensors_set (PowerInputMessage b v c sq) s = (virtual_power_state s = Some (b, v, c))"
| "sensors_set m s = True"

lemma appended_last:
  "append_replay_action st a s = Inr s' \<Longrightarrow> replay_actions s' \<noteq> [] \<and> last (replay_actions s') = a
     \<and> virtual_imu_state s' = virtual_imu_state s \<and> virtual_power_state s' = virtual_power_state s"
  by (auto simp: append_replay_action_def bounded_push_def split: sum.splits if_splits list.splits)

lemma wp_record_input:
  assumes "\<And>s. find_session w sid = Some s \<Longrightarrow> P (virtual_imu_state s) (virtual_power_state s)"
  shows "wp R (record_input en sid a d) (\<lambda>r u. r = Inr () \<longrightarrow> (\<exists>s. find_session u sid = Some s \<and> recorded a s
     \<and> P (virtual_imu_state s) (virtual_power_state s))) w"
proof (cases "find_session w sid")
  case None
  then show ?thesis by (simp add: record_input_def offset_then_def wp_simps)
next
  case (Some s)
  let ?a = "\<lparr>ra_offset_ms = now_offset_ms w s, ra_action = a\<rparr>"
  show ?thesis
  proof (cases "append_replay_action (cfg en) ?a s")
    case (Inl e)
    then show ?thesis by (simp add: record_input_def offset_then_def append_act_def wp_simps Some)
  next
    case (Inr s')
    then show ?thesis
      using appended_last [OF Inr] assms [OF Some] record_event_last [of "cfg en"]
      by (auto simp: record_input_def offset_then_def append_act_def wp_simps Some recorded_def new_event_def
          split: option.split)
  qed
qed

definition done_by :: "string \<Rightarrow> input_message \<Rightarrow> world \<Rightarrow> bool" where
  "done_by sid m u \<longleftrightarrow> (\<exists>s. find_session u sid = Some s \<and> recorded (message_action m) s \<and> sensors_set m s)"

lemma wp_apply_message:
  "wp R (apply_message en sid m) (\<lambda>r u. r = Inr () \<longrightarrow> done_by sid m u) w"
proof (cases m)
  case (KeyInputMessage key pressed sq)
  show ?thesis
    unfolding KeyInputMessage apply_message.simps send_key_def
    by (intro wp_with_session_any wp_seq_any wp_then_do_any
        wp_mono [OF wp_record_input [where P = "\<lambda>i p. True"]]) (auto simp: done_by_def)
next
  case (ButtonInputMessage button pressed sq)
  show ?thesis
    unfolding ButtonInputMessage apply_message.simps send_button_def
    by (intro wp_with_session_any wp_seq_any wp_then_do_any
        wp_mono [OF wp_record_input [where P = "\<lambda>i p. True"]]) (auto simp: done_by_def)
next
  case (ImuInputMessage a v sq)
  have "wp R (seq (on_session sid (\<lambda>s. s\<lparr>virtual_imu_state := Some (a, v)\<rparr>)) (record_input en sid (ImuAction a v) (imu_data a v)))
      (\<lambda>r u. r = Inr () \<longrightarrow> done_by sid m u) u" for u
    by (simp add: wp_simps) (rule wp_mono [OF wp_record_input [where P = "\<lambda>i p. i = Some (a, v)"]],
        auto simp: done_by_def ImuInputMessage)
  then show ?thesis
    unfolding ImuInputMessage apply_message.simps set_imu_sample_def
    by - (rule wp_with_session_any, rule wp_seq_any, rule wp_then_do_any, rule wp_seq_any, assumption, simp_all)
next
  case (PowerInputMessage b v c sq)
  have "wp R (seq (on_session sid (\<lambda>s. s\<lparr>virtual_power_state := Some (b, v, c)\<rparr>)) (record_input en sid (PowerAction b v c) (power_data b v c)))
      (\<lambda>r u. r = Inr () \<longrightarrow> done_by sid m u) u" for u
    by (simp add: wp_simps) (rule wp_mono [OF wp_record_input [where P = "\<lambda>i p. p = Some (b, v, c)"]],
        auto simp: done_by_def PowerInputMessage)
  then show ?thesis
    unfolding PowerInputMessage apply_message.simps set_power_state_def
    by - (rule wp_with_session_any, rule wp_seq_any, rule wp_then_do_any, rule wp_seq_any, assumption, simp_all)
qed

text \<open>
  C12. An acknowledgement is a promise kept: when a message is acknowledged, with its own sequence,
  the last action of the replay recording is the one it asked for, the last event of the session is
  that input by the user, and a sensor it sets has the value it gave, whatever other tasks did
  while it was on its way to the worker.
\<close>

theorem acknowledged_is_done:
  assumes "ends R (answer en vj sid payload) w (Inr (AckFrame sq)) w'"
  shows "\<exists>m s. vj payload = Inr m \<and> sq = message_sequence m \<and> find_session w' sid = Some s
     \<and> recorded (message_action m) s \<and> sensors_set m s"
proof (cases "vj payload")
  case (Inl problem)
  then have "wp R (answer en vj sid payload) (\<lambda>r u. r \<noteq> Inr (AckFrame sq)) w" by (simp add: answer_def wp_simps)
  from wp_sound [OF assms this] show ?thesis by simp
next
  case (Inr m)
  have "wp R (answer en vj sid payload) (\<lambda>r u. \<forall>q. r = Inr (AckFrame q) \<longrightarrow> q = message_sequence m \<and> done_by sid m u) w"
    by (simp add: answer_def Inr wp_simps) (rule wp_mono [OF wp_apply_message], auto simp: wp_simps split: sum.split)
  from wp_sound [OF assms this] Inr show ?thesis by (auto simp: done_by_def)
qed

theorem acknowledged_is_done_witness:
  "\<exists>w' s. find_session w' ''s1'' = Some s \<and> recorded (ButtonAction ''a'' True) s"
proof -
  let ?vj = "\<lambda>_. Inr (ButtonInputMessage ''a'' True (JInt 7))" and ?i = "sample_input\<lparr>i_peer := running_peer\<rparr>"
  obtain args where args: "qmp_button_event tiny_board ''a'' True = Inr args"
    by (simp add: qmp_button_event_def tiny_board_def STICKS3_def STICKS3_BUTTONS_def)
  obtain sent where reply: "execute_qmp running_peer (str_path (qmp_socket_path (idle_session RUNNING))) ''qom-set'' (Some args)
      = (Inr (jobj [(''running'', JBool True)]), sent)" using running_peer_reply by blast
  have board: "session_board (idle_session RUNNING) = tiny_board" "replay_actions (idle_session RUNNING) = []"
    "events (idle_session RUNNING) = []" "accept_live_input (idle_session RUNNING)"
    by (simp_all add: idle_session_def new_session_def Let_def)
  have settings: "worker_qmp_enabled (cfg sample_env)" "max_recording_events (cfg sample_env) = 4096"
    by (simp_all add: sample_env_def sample_settings_def default_settings_def)
  have "\<exists>w'. alone [?i, ?i] (settle (answer sample_env ?vj ''s1'' []) (idle_world RUNNING)) = (w', Ret (Inr (AckFrame (JInt 7))))"
    by (simp add: answer_def send_button_def require_board_input_def require_live_input_def sum_task_def session_qmp_def
        locked_def acquire_def release_def qmp_call_def qmp_call_within_def execute_qmp_def [symmetric] Let_def record_input_def offset_then_def append_act_def record_ev_def
        session_do_def append_replay_action_def bounded_push_def record_event_def to_result_def cancel_pending_def
        run_simps args reply settings board)
  then obtain w' where "alone [?i, ?i] (settle (answer sample_env ?vj ''s1'' []) (idle_world RUNNING)) = (w', Ret (Inr (AckFrame (JInt 7))))"
    by blast
  from acknowledged_is_done [OF ends_alone [OF this]] show ?thesis by auto
qed

subsection \<open>Invariants of the service hold through the interface\<close>

context world_law
begin

lemma safe_translating [safe_intro]: "safe I p \<Longrightarrow> safe I (translating cs p)"
  unfolding translating_def by (intro safe_intro) auto

lemma safe_then_public [safe_intro]: "safe I p \<Longrightarrow> safe I (then_public sid p)"
  unfolding then_public_def by (intro safe_intro)

lemma safe_create_session [safe_intro]: "safe I (create_session en board upload)"
  unfolding create_session_def create_then_def by (intro safe_intro)

lemma safe_endpoint: "safe I (endpoint en rq)"
  by (cases rq) (auto intro!: safe_intro simp: post_session_def post_control_def split: sum.split)

lemma safe_serve [safe_intro]: "safe I (serve en rq)"
  unfolding serve_def by (intro safe_intro safe_endpoint)

lemma safe_apply_message [safe_intro]: "safe I (apply_message en sid m)"
  by (cases m) (auto intro!: safe_intro)

lemma safe_answer [safe_intro]: "safe I (answer en vj sid payload)"
  unfolding answer_def by (intro safe_intro)

lemma safe_input_loop [safe_intro]: "safe I (input_loop en vj sid sent client)"
  by (induction client arbitrary: sent) (auto intro!: safe_intro simp: caught_def split: sum.split)

lemma safe_session_input [safe_intro]: "safe I (session_input en vj sid client)"
  unfolding session_input_def by (intro safe_intro)

lemma safe_session_framebuffer [safe_intro]: "safe I (session_framebuffer en sid n)"
  unfolding session_framebuffer_def admit_socket_def by (intro safe_intro)

end

end
