(* ===== verification/Api_Broker.thy ===== *)
theory Api_Broker
  imports Session_Broker Session_Launches Api_Properties
begin

section \<open>Uploads when the worker broker fails\<close>

text \<open>
  The path from the client side of the broker connection through the launch to the answer of the upload
  endpoint.
\<close>

lemma launch_request_started [simp]:
  "launch_request en (s\<lparr>generation_started_ns := t\<rparr>) = launch_request en s"
  by (simp add: launch_request_def local_worker_def local_command_def)

text \<open>One turn of a suspended task, and what its caller does with the end.\<close>

fun suspended :: "('w, 'i, 'a) prog \<Rightarrow> bool" where
  "suspended (Await b g) = True"
| "suspended p = False"

lemma suspended_suspend [simp]: "suspended (suspend b f)" "suspended (outcome (suspend b f) k)"
  "suspended (outcome (outcome (suspend b f) k) k')"
  by (simp_all add: suspend_def)

lemma alone_carry:
  assumes "suspended (snd c)" "alone [j] c = (w', Ret r)"
  shows "alone [j] (carry c K) = settle (K r) w'" "suspended (snd (carry c K))"
proof -
  obtain u b g where c: "c = (u, Await b g)" using assms(1) by (cases c rule: prod.exhaust; cases "snd c") auto
  have k: "carry c K = (u, outcome (Await b g) K)" by (simp add: c)
  show "suspended (snd (carry c K))" by (simp add: k)
  have run: "runnable (outcome (Await b g) K) u = runnable (Await b g) u" by simp
  from assms(2) have "runnable (Await b g) u" "resume (Await b g) j u = (w', Ret r)"
    unfolding c by (auto split: if_splits)
  then show "alone [j] (carry c K) = settle (K r) w'"
    unfolding k alone.simps run resume_outcome by simp
qed

text \<open>A first launch that gets no worker.\<close>

lemma first_launch_fails:
  assumes "find_session w sid = Some s" "validate_worker_config (files w) (worker_config (cfg en)) = Inr ()"
    and "worker_sandbox_mode (cfg en) = OCI_BROKER" "launch_request en s = Inr request"
    and "i_worker j = Inl e" "is_exception e" "cancels w = []"
  shows "\<exists>w' s'. alone [j] (settle (first_launch en sid) w) = (w', Ret (Inl (if is_broker_error e
      then WorkerUnavailableError ''isolated worker broker launch failed'' else e)))
    \<and> find_session w' sid = Some s' \<and> state s' = FAILED \<and> private_data_gone s' w'
    \<and> suspended (snd (settle (first_launch en sid) w))"
  using assms
  by (cases "is_broker_error e")
    (simp_all add: first_launch_def launch_def validate_config_def start_process_def log_launch_def attempt_def new_worker_def
      run_simps settle_recording update_session_logs cancel_pending_def private_data_gone_def clear_private_session_data_def)

lemma profile_known: "map_of BOARD_PROFILES bid = Some board \<Longrightarrow> board_id board = bid \<and> known_board (lit (board_id board))"
  by (auto simp: board_profiles_lookup known_board_def BOARD_PROFILES_def CARDPUTER_ADV_def STICKS3_def split: if_splits)

lemma admit_admits:
  assumes "admit en board upload w = (w2, Inr sid)"
  shows "sid = fresh_uuid w \<and> held w2 = held w \<and> cancels w2 = cancels w
    \<and> (\<exists>s. find_session w2 sid = Some s \<and> session_id s = sid \<and> session_board s = board)"
proof -
  have n: "session_id (new_session en w board fl md) = fresh_uuid w" "session_board (new_session en w board fl md) = board" for fl md
    by (simp_all add: new_session_def Let_def)
  show ?thesis using assms
    by (auto simp: admit_def Let_def n find_session_def map_of_put split: if_splits sum.splits prod.splits)
qed

text \<open>
  How a connection to the broker may fail: an error of the protocol, or one the launch does not name, from
  the operating system.
\<close>

definition connection_failure :: "exn \<Rightarrow> bool" where
  "connection_failure e \<longleftrightarrow> is_broker_error e \<or> is_os_error e"

text \<open>
  C11. An upload for which the broker gives no worker leaves nothing behind: the session is \<open>FAILED\<close>, its
  private data are gone, and its files save for what the operating system refuses to remove.  The
  answer depends on how the connection failed.  A broker that cannot be reached, refuses, or answers
  nonsense is a 503; one that accepts the connection and then stays silent, or breaks it, raises an
  exception that no handler on the way names, so the client gets no answer of the endpoint's but the
  server's 500.  And so does a refusal when the closing of the refused connection fails in turn: that
  failure takes the place of the refusal.
\<close>

theorem broker_failure_answered:
  assumes "worker_sandbox_mode (cfg en) = OCI_BROKER" "map_of BOARD_PROFILES bid = Some board" "worker_ready en w"
    and "ManagerLock \<notin> set (held w)" "cancels w = []" "fullmatch SESSION_ID_PATTERN (lit sid)"
    and "admit en board (take (Suc (flash_size_bytes board)) upload) (w\<lparr>held := ManagerLock # held w\<rparr>) = (w2, Inr sid)"
    and "validate_worker_config (files w2) (worker_config (cfg en)) = Inr ()"
    and "i_probe i" "i_worker j = map_sum id (\<lambda>x. k) (connect_broker_worker opening
      \<lparr>req_session_id = lit sid, req_board_id = lit bid\<rparr> sending fin bs closing)"
    and "connect_broker_worker opening \<lparr>req_session_id = lit sid, req_board_id = lit bid\<rparr> sending fin bs closing = Inl e"
    and "connection_failure e"
  shows "\<exists>w' s'. alone [i, j] (settle (serve en (PostSession bid upload)) w) = (w', Ret (if is_broker_error e
      then Inr (Failure 503 (Text (lit ''isolated worker broker launch failed''))) else Inl e))
    \<and> find_session w' sid = Some s' \<and> state s' = FAILED \<and> private_data_gone s' w'
    \<and> (\<forall>refusal. opening = None \<longrightarrow> handshake \<lparr>req_session_id = lit sid, req_board_id = lit bid\<rparr> sending fin bs = Inl refusal \<longrightarrow>
         closes_connection refusal \<longrightarrow> e = (case closing of None \<Rightarrow> refusal | Some lost \<Rightarrow> lost))"
proof -
  let ?v = "w2\<lparr>held := removeAll ManagerLock (held w2)\<rparr>"
  obtain t where t: "find_session w2 sid = Some t" "session_id t = sid" "session_board t = board" "cancels w2 = []"
    using admit_admits [OF assms(7)] assms(5) by auto
  obtain request where r: "launch_request en t = Inr request"
    using assms(1,6) profile_known [OF assms(2)] t by (auto simp: launch_request_def StartRequest_def)
  have ex: "is_exception e" using assms(12) by (cases e) (auto simp: connection_failure_def)
  have e: "i_worker j = Inl e" using assms(10,11) by simp
  have find: "find (\<lambda>c. catches c e) [BadFirmware, WorkerMissing, AtCapacity] = None" if "\<not> is_broker_error e"
    using that assms(12) by (cases e) (auto simp: connection_failure_def)
  from first_launch_fails [of ?v sid t en request j e] obtain w' s' where
    f: "alone [j] (settle (first_launch en sid) ?v) = (w', Ret (Inl (if is_broker_error e
      then WorkerUnavailableError ''isolated worker broker launch failed'' else e)))"
    "find_session w' sid = Some s'" "state s' = FAILED" "private_data_gone s' w'"
    and susp: "suspended (snd (settle (first_launch en sid) ?v))"
    using assms(1,8) r e ex t by (auto simp: find_session_def)
  have b: "get_board_profile bid = Inr board" using assms(2) by (simp add: get_board_profile_def)
  let ?c = "settle (first_launch en sid) ?v"
  let ?e = "if is_broker_error e then WorkerUnavailableError ''isolated worker broker launch failed'' else e"
  have "alone [j] (carry ?c (case_sum (\<lambda>e. Ret (Inl e)) (\<lambda>x. return sid))) = (w', Ret (Inl ?e))"
    unfolding alone_carry(1) [OF susp f(1)] by simp
  note after = alone_carry(1) [OF alone_carry(2) [OF susp f(1)] this]
  have "e = (case closing of None \<Rightarrow> refusal | Some lost \<Rightarrow> lost)"
    if "opening = None" "handshake \<lparr>req_session_id = lit sid, req_board_id = lit bid\<rparr> sending fin bs = Inl refusal"
      "closes_connection refusal" for refusal
    using assms(11) that by (simp add: connect_broker_worker_def split: option.splits)
  then show ?thesis
    using f find assms(1,3-5,7,9)
    by (cases "is_broker_error e") (simp_all add: serve_def post_session_def b create_session_def create_then_def
      worker_is_ready_def locked_def acquire_def release_def settle_translating run_simps settle_outcome cancel_pending_def
      failure_def after)
qed

subsection \<open>An upload while the broker is silent\<close>

definition silent_files :: filesys where
  "silent_files = shared_root
     (Abs [''run'', ''esp32-simulator'', ''worker-broker.sock''] \<mapsto> \<lparr>kind = Socket, mode = 432, uid = 5, gid = 6\<rparr>)"

definition upload_world :: world where
  "upload_world = (initial_world silent_files 0 0)\<lparr>fresh_uuid := zero_id\<rparr>"

definition silent_input :: input where
  "silent_input = sample_input\<lparr>i_probe := True, i_worker := Inl TimeoutError\<rparr>"

lemma broker_socket_found:
  assumes "fs (Abs [''run'', ''esp32-simulator'', ''worker-broker.sock'']) = Some n" "is_sock (kind n)"
  shows "validate_worker_config fs (worker_config (cfg broker_mode_env)) = Inr ()"
proof -
  have "kind n = Socket" using assms(2) by (cases "kind n") auto
  then show ?thesis
    using assms(1) by (simp add: validate_worker_config_def worker_config_def broker_mode_env_def sample_settings_def
      default_settings_def stat_path_def lstat_def follow_def)
qed

lemma upload_ready:
  "worker_ready broker_mode_env upload_world" "ManagerLock \<notin> set (held upload_world)" "cancels upload_world = []"
  using broker_socket_found [of silent_files]
  by (simp_all add: worker_ready_def upload_world_def initial_world_def silent_files_def)
    (simp add: broker_mode_env_def sample_env_def sample_settings_def default_settings_def)

lemma upload_admitted:
  assumes "w = upload_world\<lparr>held := h\<rparr>"
  shows "\<exists>w'. admit broker_mode_env STICKS3 sample_image w = (w', Inr zero_id)
    \<and> validate_worker_config (files w') (worker_config (cfg broker_mode_env)) = Inr ()"
proof -
  have "acceptable_image sample_image STICKS3" by (simp add: acceptable_image_def sample_image_def STICKS3_def)
  then obtain m where m: "validate_and_pad_firmware sample_image STICKS3
      = Inr (ljust sample_image (flash_size_bytes STICKS3) 0xff, m)"
    using validate_acceptable by blast
  have "int (active_count w) < max_concurrent_sessions (cfg broker_mode_env)"
    "files w (child (runtime_root (cfg broker_mode_env)) (fresh_uuid w)) = None"
    by (simp_all add: assms upload_world_def silent_files_def active_count_def initial_world_def broker_mode_env_def sample_env_def
        sample_settings_def default_settings_def shared_root_def zero_id_def)
  from admit_accepts [OF this(1) m this(2)] obtain fs where
    "admit broker_mode_env STICKS3 sample_image w = (w\<lparr>files := fs, sessions := put (fresh_uuid w)
       (new_session broker_mode_env w STICKS3 (ljust sample_image (flash_size_bytes STICKS3) 0xff) m) (sessions w)\<rparr>, Inr (fresh_uuid w))"
    and fs: "\<And>q. \<not> is_relative_to q (child (runtime_root (cfg broker_mode_env)) (fresh_uuid w)) \<Longrightarrow> fs q = files w q" by blast
  moreover have "fresh_uuid w = zero_id" by (simp add: assms upload_world_def)
  moreover have "length zero_id \<noteq> length ''esp32-simulator''" by (simp add: zero_id_def)
  then have "zero_id \<noteq> ''esp32-simulator''" by metis
  then have "fs (Abs [''run'', ''esp32-simulator'', ''worker-broker.sock''])
      = silent_files (Abs [''run'', ''esp32-simulator'', ''worker-broker.sock''])"
    by (subst fs) (simp_all add: assms upload_world_def initial_world_def broker_mode_env_def sample_env_def
        sample_settings_def default_settings_def)
  ultimately show ?thesis
    using broker_socket_found [of fs "\<lparr>kind = Socket, mode = 432, uid = 5, gid = 6\<rparr>"] by (simp add: silent_files_def)
qed

theorem broker_failure_answered_witness:
  "\<exists>w' s. alone [silent_input, silent_input] (settle (serve broker_mode_env (PostSession ''sticks3'' sample_image)) upload_world)
       = (w', Ret (Inl TimeoutError))
     \<and> find_session w' zero_id = Some s \<and> state s = FAILED \<and> private_data_gone s w'"
proof -
  let ?r = "\<lparr>req_session_id = lit zero_id, req_board_id = lit ''sticks3''\<rparr>"
  have l: "take (Suc (flash_size_bytes STICKS3)) sample_image = sample_image" by (simp add: sample_image_def STICKS3_def)
  obtain w2 where a: "admit broker_mode_env STICKS3 (take (Suc (flash_size_bytes STICKS3)) sample_image)
      (upload_world\<lparr>held := ManagerLock # held upload_world\<rparr>) = (w2, Inr zero_id)"
    and v: "validate_worker_config (files w2) (worker_config (cfg broker_mode_env)) = Inr ()"
    using upload_admitted [OF refl, of "ManagerLock # held upload_world"] unfolding l by auto
  have m: "worker_sandbox_mode (cfg broker_mode_env) = OCI_BROKER" "map_of BOARD_PROFILES ''sticks3'' = Some STICKS3"
    by (simp_all add: broker_mode_env_def board_profiles_lookup)
  have id: "fullmatch SESSION_ID_PATTERN (lit zero_id)"
    by (simp add: SESSION_ID_PATTERN_iff zero_id_def lit_def in_class_def hex_class_def list_all_iff)
  have "known_board (lit ''sticks3'')" using profile_known [OF m(2)] by metis
  then have "StartRequest (req_session_id ?r) (req_board_id ?r) = Inr ?r" using id by (simp add: StartRequest_def)
  then obtain p where "start_to_payload ?r = Inr p" "length p \<le> MAX_CONTROL_PAYLOAD"
    using start_payload_read by blast
  then have c: "connect_broker_worker None ?r None Silent [] None = Inl TimeoutError"
    by (simp add: connect_broker_worker_def handshake_def send_def andthen_def bind_def fresh_writer_def drain_writer_def
        read_frame_def readexactly_def incomplete_def MAX_CONTROL_PAYLOAD_def MAX_FRAME_PAYLOAD_def)
  have i: "i_probe silent_input" "i_worker silent_input = map_sum id (\<lambda>x. quiet_worker)
     (connect_broker_worker None ?r None Silent [] None)" "connection_failure TimeoutError"
    by (simp_all add: silent_input_def c connection_failure_def del: lit_Cons)
  show ?thesis
    using broker_failure_answered [OF m upload_ready id a v i(1,2) c i(3)] by auto
qed

end
