(* ===== verification/Broker_State.thy ===== *)
theory Broker_State
  imports Async Oci
begin

section \<open>The state of the worker broker (worker_broker.py)\<close>

text \<open>
  The broker is one event loop of its own: a task for every connection, tasks that copy the output
  of a worker and relay control frames to it, and the periodic reconciliation.  The state they share
  is \<open>bworld\<close>; references to processes, connections and tasks are numbers.  What a worker
  prints and what a client sends are in the state from the start; how they are cut into pieces, and what
  the Docker client answers, are inputs of the suspensions.
\<close>

text \<open>
  A started \<open>docker run\<close>: \<open>dp_gone\<close> holds once the transport has dropped the finished process, after
  which a signal raises \<open>ProcessLookupError\<close>.
\<close>

record docker_process =
  dp_returncode :: "int option"
  dp_gone :: bool
  dp_has_stdin :: bool
  dp_stdin :: "bytes list"
  dp_stdout :: "bytes option"
  dp_stderr :: "bytes option"
  dp_killed :: bool

record connection =
  peer_uid :: "int option"
  client_bytes :: bytes
  client_end :: stream_end
  sent :: "broker_frame list"
  conn_closed :: bool

record output_budget =
  budget_remaining :: int
  budget_exceeded :: bool

datatype broker_lock = BrokerLock | FrameLock nat | BudgetLock nat

datatype broker_code =
    PumpOutput nat "bytes option" frame_kind
  | RelayControl nat nat utext
  | ForceCleanup utext "nat option"
  | ReconcileLoop nat

record bworld =
  active :: "utext list"
  processes :: "utext \<Rightarrow> nat option"
  runtime_healthy :: bool
  serving :: bool
  reconcile_task :: "nat option"
  docker_procs :: "nat \<Rightarrow> docker_process option"
  conns :: "nat \<Rightarrow> connection option"
  budgets :: "nat \<Rightarrow> output_budget option"
  broker_files :: filesys
  docker_log :: "string list list"
  notices :: "(string \<times> utext) list"
  b_next :: nat
  b_spawned :: "(nat \<times> broker_code) list"
  b_finished :: "(nat \<times> exn option) list"
  b_cancels :: "nat list"
  b_held :: "broker_lock list"
  b_me :: nat
  b_clock :: int
  stop_requested :: bool

datatype waiter = ControlDone | WorkerDone | WallTime | BudgetDone

record binput =
  bi_clock :: int
  bi_timeout :: bool
  bi_drain :: "exn option"
  bi_spawn :: "string + docker_process" \<comment> \<open>a new process, or the \<open>OSError\<close> of its creation\<close>
  bi_status :: "int option" \<comment> \<open>what a Docker command exits with, \<open>None\<close> when ten seconds pass first\<close>
  bi_output :: bytes
  bi_size :: nat
  bi_done :: "waiter set"

record broker_env =
  oci :: oci_settings
  broker_id :: identity
  output_limit_bytes :: int

type_synonym 'a btask = "(bworld, binput, 'a) prog"

subsection \<open>Suspensions\<close>

definition b_cancelled :: "bworld \<Rightarrow> bool" where
  "b_cancelled w = (b_me w \<in> set (b_cancels w))"

definition waiting :: "(bworld \<Rightarrow> bool) \<Rightarrow> (binput \<Rightarrow> bworld \<Rightarrow> bworld \<times> (exn + 'a)) \<Rightarrow> 'a btask" where
  "waiting b f = Await (\<lambda>w. b w \<or> b_cancelled w)
     (\<lambda>i w. if b_cancelled w
        then (w\<lparr>b_cancels := removeAll (b_me w) (b_cancels w)\<rparr>, Ret (Inl CancelledError))
        else (case f i w of (w', r) \<Rightarrow> (w', Ret r)))"

definition b_locked :: "broker_lock \<Rightarrow> 'a btask \<Rightarrow> 'a btask" where
  "b_locked l p = seq (look (\<lambda>w. if l \<notin> set (b_held w) then change (\<lambda>w. w\<lparr>b_held := l # b_held w\<rparr>)
       else waiting (\<lambda>w. l \<notin> set (b_held w)) (\<lambda>i w. (w\<lparr>b_held := l # b_held w\<rparr>, Inr ()))))
     (always p (change (\<lambda>w. w\<lparr>b_held := removeAll l (b_held w)\<rparr>)))"

definition b_spawn :: "broker_code \<Rightarrow> (nat \<Rightarrow> 'a btask) \<Rightarrow> 'a btask" where
  "b_spawn c k = look (\<lambda>w. seq (change (\<lambda>w. w\<lparr>b_spawned := b_spawned w @ [(b_next w, c)], b_next := Suc (b_next w)\<rparr>))
     (k (b_next w)))"

definition b_done :: "nat \<Rightarrow> bworld \<Rightarrow> bool" where
  "b_done t w = (t \<in> fst ` set (b_finished w))"

definition b_cancel :: "nat \<Rightarrow> unit btask" where
  "b_cancel t = change (\<lambda>w. if b_done t w then w else w\<lparr>b_cancels := t # b_cancels w\<rparr>)"

definition all_done :: "nat list \<Rightarrow> bworld \<Rightarrow> bool" where
  "all_done ts w = list_all (\<lambda>t. b_done t w) ts"

text \<open>\<open>gather\<close>: cancelled while it waits, it cancels the tasks and raises once they are done.\<close>

definition b_gather :: "nat list \<Rightarrow> unit btask" where
  "b_gather ts = Await (\<lambda>w. all_done ts w \<or> b_cancelled w)
     (\<lambda>i w. if \<not> b_cancelled w then (w, Ret (Inr ()))
        else if all_done ts w then (w\<lparr>b_cancels := removeAll (b_me w) (b_cancels w)\<rparr>, Ret (Inl CancelledError))
        else (w\<lparr>b_cancels := filter (\<lambda>t. \<not> b_done t w) ts @ b_cancels w\<rparr>, Await (all_done ts)
          (\<lambda>i w. (w\<lparr>b_cancels := removeAll (b_me w) (b_cancels w)\<rparr>, Ret (Inl CancelledError)))))"

definition b_sum :: "exn + 'a \<Rightarrow> ('a \<Rightarrow> 'b btask) \<Rightarrow> 'b btask" where
  "b_sum r f = (case r of Inl e \<Rightarrow> raising e | Inr x \<Rightarrow> f x)"

definition b_ignore :: "'a btask \<Rightarrow> unit btask" where
  "b_ignore p = then_do p (\<lambda>_. return ())"

subsection \<open>Processes and connections\<close>

definition b_exit :: "nat \<Rightarrow> bworld \<Rightarrow> int option" where
  "b_exit pid w = (case docker_procs w pid of None \<Rightarrow> None | Some k \<Rightarrow> dp_returncode k)"

definition b_exited :: "nat \<Rightarrow> bworld \<Rightarrow> bool" where
  "b_exited pid w = (b_exit pid w \<noteq> None)"

definition b_wait :: "nat \<Rightarrow> unit btask" where
  "b_wait pid = waiting (b_exited pid) (\<lambda>i w. (w, Inr ()))"

definition update_docker :: "nat \<Rightarrow> (docker_process \<Rightarrow> docker_process) \<Rightarrow> bworld \<Rightarrow> bworld" where
  "update_docker pid f w = w\<lparr>docker_procs := (docker_procs w)(pid := map_option f (docker_procs w pid))\<rparr>"

definition b_kill :: "nat \<Rightarrow> unit btask" where
  "b_kill pid = look (\<lambda>w. case docker_procs w pid of
       None \<Rightarrow> raising ProcessLookupError
     | Some k \<Rightarrow> if dp_gone k then raising ProcessLookupError
                 else change (update_docker pid (\<lambda>k. k\<lparr>dp_killed := True\<rparr>)))"

definition update_conn :: "nat \<Rightarrow> (connection \<Rightarrow> connection) \<Rightarrow> bworld \<Rightarrow> bworld" where
  "update_conn c f w = w\<lparr>conns := (conns w)(c := map_option f (conns w c))\<rparr>"

text \<open>\<open>FrameWriter.send\<close>: the frame is handed to the transport in one piece, then drained.\<close>

definition send_frame :: "nat \<Rightarrow> frame_kind \<Rightarrow> bytes \<Rightarrow> unit btask" where
  "send_frame c k payload =
     (if MAX_FRAME_PAYLOAD < length payload
      then raising (BrokerProtocolError ''broker frame payload exceeds its limit'')
      else b_locked (FrameLock c)
        (seq (change (update_conn c (\<lambda>n. n\<lparr>sent := sent n @ [\<lparr>kind_of = k, payload_of = payload\<rparr>]\<rparr>)))
          (waiting (\<lambda>w. True) (\<lambda>i w. (w, case bi_drain i of None \<Rightarrow> Inr () | Some e \<Rightarrow> Inl e)))))"

definition safe_send :: "nat \<Rightarrow> frame_kind \<Rightarrow> bytes \<Rightarrow> unit btask" where
  "safe_send c k payload = on_error (send_frame c k payload)
     (\<lambda>e. if is_broker_protocol_error e \<or> is_connection_error e then return () else raising e)"

definition safe_error :: "nat \<Rightarrow> string \<Rightarrow> string \<Rightarrow> unit btask" where
  "safe_error c code message =
     b_sum (sum_bind (ErrorMessage (lit code) (lit message)) error_to_payload) (safe_send c ERROR)"

text \<open>\<open>writer.close()\<close> and \<open>wait_closed()\<close>, which reports how the connection was lost.\<close>

definition close_conn :: "nat \<Rightarrow> unit btask" where
  "close_conn c = seq (change (update_conn c (\<lambda>n. n\<lparr>conn_closed := True\<rparr>)))
     (waiting (\<lambda>w. True) (\<lambda>i w. (w, case bi_drain i of None \<Rightarrow> Inr () | Some e \<Rightarrow> Inl e)))"

end
