(* ===== verification/Py_Text.thy ===== *)
theory Py_Text
  imports Py_Values
begin

section \<open>Methods of Python's strings\<close>

text \<open>
  What the source uses of \<open>str\<close> on decoded text: \<open>strip\<close>, \<open>split\<close>, \<open>splitlines\<close>, \<open>upper\<close>, the test for a
  substring, and the newline translation of files and pipes opened as text.
\<close>

subsection \<open>White space and lines\<close>

definition u_space :: "nat \<Rightarrow> bool" where
  "u_space n = (9 \<le> n \<and> n \<le> 13 \<or> 28 \<le> n \<and> n \<le> 32 \<or> 0x2000 \<le> n \<and> n \<le> 0x200A
     \<or> n \<in> {133, 160, 0x1680, 0x2028, 0x2029, 0x202F, 0x205F, 0x3000})"

definition line_end :: "nat \<Rightarrow> bool" where
  "line_end n = (10 \<le> n \<and> n \<le> 13 \<or> 28 \<le> n \<and> n \<le> 30 \<or> n \<in> {133, 0x2028, 0x2029})"

text \<open>A carriage return followed by a line feed ends one line.\<close>

fun splitlines :: "utext \<Rightarrow> utext list" where
  "splitlines [] = []"
| "splitlines (n # t) =
     (if n = 13 \<and> take 1 t = [10] then [] # splitlines (tl t)
      else if line_end n then [] # splitlines t
      else case splitlines t of
        [] \<Rightarrow> [[n]]
      | l # ls \<Rightarrow> (n # l) # ls)"

lemma splitlines_single: "list_all (\<lambda>c. \<not> line_end c) t \<Longrightarrow> splitlines t = (if t = [] then [] else [t])"
  by (induction t) (auto simp: line_end_def)

lemma splitlines_line:
  "list_all (\<lambda>c. \<not> line_end c) l \<Longrightarrow> splitlines (l @ 10 # t) = l # splitlines t"
  by (induction l) (auto simp: line_end_def)

text \<open>\<open>str.split()\<close>: the pieces between runs of white space.\<close>

function split_words :: "utext \<Rightarrow> utext list" where
  "split_words t = (let u = dropWhile u_space t in
     if u = [] then [] else takeWhile (\<lambda>c. \<not> u_space c) u # split_words (dropWhile (\<lambda>c. \<not> u_space c) u))"
  by pat_completeness auto
termination
proof (relation "measure length")
  fix t u
  assume u: "u = dropWhile u_space t" "u \<noteq> []"
  from u(2) obtain c v where c: "u = c # v" by (cases u) auto
  have "\<not> u_space (hd u)" using u hd_dropWhile [of u_space t] by simp
  then have "length (dropWhile (\<lambda>c. \<not> u_space c) u) \<le> length v"
    using c length_dropWhile_le [of "\<lambda>c. \<not> u_space c" v] by simp
  also have "length v < length u" using c by simp
  also have "length u \<le> length t" using u(1) length_dropWhile_le [of u_space t] by simp
  finally show "(dropWhile (\<lambda>c. \<not> u_space c) u, t) \<in> measure length" by simp
qed simp

declare split_words.simps [simp del]

text \<open>Text read from a file or a pipe: every kind of line end becomes a line feed.\<close>

fun universal_newlines :: "utext \<Rightarrow> utext" where
  "universal_newlines [] = []"
| "universal_newlines (c # t) =
     (if c = 13 then 10 # universal_newlines (if take 1 t = [10] then tl t else t) else c # universal_newlines t)"

lemma universal_newlines_id: "13 \<notin> set t \<Longrightarrow> universal_newlines t = t"
  by (induction t) auto

lemma no_carriage_return: "13 \<notin> set (universal_newlines t)"
  by (induction t rule: universal_newlines.induct) auto

lemma set_universal_newlines: "set (universal_newlines t) \<subseteq> set t \<union> {10}"
proof (induction t rule: universal_newlines.induct)
  case (2 c t)
  then show ?case by (cases t) (auto split: if_splits)
qed simp

lemma set_splitlines: "l \<in> set (splitlines t) \<Longrightarrow> set l \<subseteq> set t"
proof (induction t arbitrary: l rule: splitlines.induct)
  case (2 n t)
  then show ?case by (cases t; fastforce split: if_splits list.splits)
qed simp

lemma set_split_words: "w \<in> set (split_words t) \<Longrightarrow> set w \<subseteq> set t"
proof (induction t rule: split_words.induct)
  case (1 t)
  then show ?case
    by (subst (asm) (2) split_words.simps) (auto simp: Let_def split: if_splits dest: set_takeWhileD set_dropWhileD)
qed

subsection \<open>Upper case and substrings\<close>

text \<open>
  \<open>str.upper\<close>, as far as ASCII letters in the result go: the code points outside ASCII whose upper case
  contains an ASCII letter are listed, every other one is kept.
\<close>

definition upper_char :: "nat \<Rightarrow> utext" where
  "upper_char c =
     (if 97 \<le> c \<and> c \<le> 122 then [c - 32]
      else case map_of [(0xDF, ''SS''), (0x131, ''I''), (0x17F, ''S''), (0xFB00, ''FF''), (0xFB01, ''FI''), (0xFB02, ''FL''),
             (0xFB03, ''FFI''), (0xFB04, ''FFL''), (0xFB05, ''ST''), (0xFB06, ''ST'')] c of
          Some s \<Rightarrow> lit s
        | None \<Rightarrow> (case map_of [(0x149, [0x2BC, 78]), (0x1F0, [74, 0x30C]), (0x1E96, [72, 0x331]), (0x1E97, [84, 0x308]),
              (0x1E98, [87, 0x30A]), (0x1E99, [89, 0x30A]), (0x1E9A, [65, 0x2BE])] c of
            Some u \<Rightarrow> u
          | None \<Rightarrow> [c]))"

definition upper :: "utext \<Rightarrow> utext" where
  "upper t = concat (map upper_char t)"

fun contains :: "utext \<Rightarrow> utext \<Rightarrow> bool" where
  "contains w [] = (w = [])"
| "contains w (c # t) = (take (length w) (c # t) = w \<or> contains w t)"

lemma contains_iff: "contains w t \<longleftrightarrow> (\<exists>a b. t = a @ w @ b)"
proof (induction t)
  case (Cons c t)
  have "take (length w) (c # t) = w \<longleftrightarrow> (\<exists>b. c # t = w @ b)" by (metis append_eq_conv_conj)
  then show ?case using Cons by (auto simp: Cons_eq_append_conv)
qed simp

end
