(* ===== verification/Worker_Broker.thy ===== *)
theory Worker_Broker
  imports Broker_State Py_Text
begin

section \<open>The operations of the worker broker (worker_broker.py)\<close>

subsection \<open>The output budget\<close>

definition output_budget_create :: "int \<Rightarrow> output_budget" where
  "output_budget_create limit_bytes = \<lparr>budget_remaining = limit_bytes, budget_exceeded = False\<rparr>"

definition take_budget :: "int \<Rightarrow> output_budget \<Rightarrow> output_budget \<times> bool" where
  "take_budget n b =
     (if budget_remaining b < n then (b\<lparr>budget_exceeded := True\<rparr>, False)
      else (b\<lparr>budget_remaining := budget_remaining b - n\<rparr>, True))"

definition consume :: "nat \<Rightarrow> int \<Rightarrow> bool btask" where
  "consume c n = b_locked (BudgetLock c) (Do (\<lambda>w. case budgets w c of
       None \<Rightarrow> (w, Ret (Inl (RuntimeError ''no output budget'')))
     | Some b \<Rightarrow> (case take_budget n b of (b', granted) \<Rightarrow>
         (w\<lparr>budgets := (budgets w)(c \<mapsto> b')\<rparr>, Ret (Inr granted)))))"

subsection \<open>Docker commands\<close>

text \<open>The log holds every command the broker has tried to run.\<close>

definition run_docker :: "string list \<Rightarrow> unit btask" where
  "run_docker argv = waiting (\<lambda>w. True) (\<lambda>i w. (w\<lparr>docker_log := docker_log w @ [argv]\<rparr>,
     case bi_spawn i of Inl m \<Rightarrow> Inl (OSError m) | Inr k \<Rightarrow> Inr ()))"

text \<open>
  \<open>wait_for(process.communicate(), 10)\<close>: the exit status and the output, or \<open>TimeoutError\<close>.
  A command that has timed out is killed, which raises when it has ended meanwhile, and waited for.
\<close>

definition docker_finish :: "(int \<times> bytes) btask" where
  "docker_finish = waiting (\<lambda>w. True) (\<lambda>i w. (w, case bi_status i of
       None \<Rightarrow> Inl TimeoutError | Some code \<Rightarrow> Inr (code, bi_output i)))"

definition docker_killed :: "unit btask" where
  "docker_killed = waiting (\<lambda>w. True) (\<lambda>i w. (w, if bi_timeout i then Inl ProcessLookupError else Inr ()))"

definition docker_output :: "broker_env \<Rightarrow> string list \<Rightarrow> utext btask" where
  "docker_output be arguments =
     seq (run_docker (docker_prefix (oci be) @ arguments))
    (then_do (on_error docker_finish (\<lambda>e.
        if e = TimeoutError
        then seq docker_killed (raising (OciPolicyError ''Docker runtime verification timed out''))
        else raising e))
      (\<lambda>(code, stdout).
        if code \<noteq> 0 \<or> 64 * 1024 < length stdout
        then raising (OciPolicyError ''Docker runtime verification failed'')
        else case utf8_decode False stdout of
          None \<Rightarrow> raising (OciPolicyError ''Docker runtime verification returned invalid text'')
        | Some t \<Rightarrow> return (strip_by u_space t)))"

definition docker_control :: "broker_env \<Rightarrow> string \<Rightarrow> utext \<Rightarrow> bool btask" where
  "docker_control be action identifier =
     b_sum (control_command (oci be) action identifier) (\<lambda>argv.
       on_error
         (seq (run_docker argv)
           (on_error (then_do docker_finish (\<lambda>(code, stdout). return (code = 0)))
             (\<lambda>e. if e = TimeoutError then seq docker_killed (return False) else raising e)))
         (\<lambda>e. if is_os_error e then return False else raising e))"

subsection \<open>Checks of the runtime\<close>

text \<open>The three answers of the daemon, as \<open>verify_runtime\<close> judges them.\<close>

definition check_security :: "utext \<Rightarrow> exn + unit" where
  "check_security output = (case loads_text output of
       Inl e \<Rightarrow> Inl (if e = JSONDecodeError then OciPolicyError ''Docker returned invalid security metadata'' else e)
     | Inr v \<Rightarrow> (case v of
         JArr items \<Rightarrow>
           if \<not> list_all is_str items then Inl (OciPolicyError ''Docker returned invalid security options'')
           else if jstr ''name=rootless'' \<notin> set items
           then Inl (OciPolicyError ''the configured Docker daemon is not rootless'')
           else if \<not> list_ex (\<lambda>x. take 12 (str_of x) = lit ''name=seccomp'') items
           then Inl (OciPolicyError ''the configured Docker daemon does not report seccomp'')
           else Inr ()
       | _ \<Rightarrow> Inl (OciPolicyError ''Docker returned invalid security options'')))"

definition IMAGE_ID :: rx where
  "IMAGE_ID = RSeq (rlit ''sha256:'') (rtimes 64 (RClass hex_class))"

definition security_query :: "string list" where
  "security_query = [''info'', ''--format'', ''{{json .SecurityOptions}}'']"

definition verify_runtime :: "broker_env \<Rightarrow> unit btask" where
  "verify_runtime be =
     then_do (docker_output be security_query) (\<lambda>security.
     b_sum (check_security security) (\<lambda>_.
     then_do (docker_output be [''info'', ''--format'', ''{{.CgroupVersion}}'']) (\<lambda>cgroup.
     if cgroup \<noteq> lit ''2'' then raising (OciPolicyError ''the rootless Docker daemon must use cgroup v2'')
     else then_do (docker_output be [''image'', ''inspect'', ''--format'', ''{{.Id}}'', image_reference (oci be)]) (\<lambda>image_id.
     if fullmatch IMAGE_ID image_id then return ()
     else raising (OciPolicyError ''the pinned worker image is unavailable'')))))"

definition managed_names :: "utext \<Rightarrow> utext list" where
  "managed_names output = filter (\<lambda>l. l \<noteq> []) (map (strip_by u_space) (splitlines output))"

definition reconcile_managed_containers :: "broker_env \<Rightarrow> bool \<Rightarrow> unit btask" where
  "reconcile_managed_containers be preserve_active =
     then_do (docker_output be (drop 3 (list_managed_command (oci be)))) (\<lambda>output.
     then_do (b_locked BrokerLock (look (\<lambda>w. return (if preserve_active then active w else [])))) (\<lambda>kept.
     foreach (managed_names output) (\<lambda>name.
       b_sum (session_id_from_container_name name) (\<lambda>sid.
         if sid \<in> set kept then return ()
         else then_do (docker_control be ''rm'' sid) (\<lambda>removed.
           if removed then return ()
           else raising (OciPolicyError ''managed container reconciliation failed''))))))"

definition set_healthy :: "bool \<Rightarrow> unit btask" where
  "set_healthy b = change (\<lambda>w. w\<lparr>runtime_healthy := b\<rparr>)"

fun is_policy_error :: "exn \<Rightarrow> bool" where
  "is_policy_error (OciPolicyError m) = True"
| "is_policy_error _ = False"

definition reconcile_round :: "broker_env \<Rightarrow> unit btask" where
  "reconcile_round be =
     on_error (seq (verify_runtime be) (seq (reconcile_managed_containers be True) (set_healthy True)))
       (\<lambda>e. if is_policy_error e then set_healthy False else raising e)"

text \<open>\<open>_reconcile_loop\<close>: every 30 seconds, for the number of rounds before the broker closes.\<close>

fun reconcile_loop :: "broker_env \<Rightarrow> nat \<Rightarrow> unit btask" where
  "reconcile_loop be 0 = waiting (\<lambda>w. False) (\<lambda>i w. (w, Inr ()))"
| "reconcile_loop be (Suc n) =
     seq (waiting (\<lambda>w. True) (\<lambda>i w. (w, Inr ()))) (seq (reconcile_round be) (reconcile_loop be n))"

subsection \<open>Relaying\<close>

text \<open>
  \<open>_pump_output\<close>: every read returns some of what is left, at most \<open>MAX_STREAM_CHUNK\<close> bytes, and
  nothing only at the end.
\<close>

definition read_size :: "nat \<Rightarrow> nat" where
  "read_size n = max 1 (min n MAX_STREAM_CHUNK)"

lemma read_size_bounds [simp]: "0 < read_size n" "read_size n \<noteq> 0" "read_size n \<le> MAX_STREAM_CHUNK"
  by (auto simp: read_size_def MAX_STREAM_CHUNK_def)

function pump :: "nat \<Rightarrow> frame_kind \<Rightarrow> bytes \<Rightarrow> unit btask" where
  "pump c k bs = Await (\<lambda>w. True) (\<lambda>i w. (w,
     if bs = [] then return ()
     else then_do (consume c (int (length (take (read_size (bi_size i)) bs)))) (\<lambda>granted.
       if \<not> granted then return ()
       else seq (send_frame c k (take (read_size (bi_size i)) bs)) (pump c k (drop (read_size (bi_size i)) bs)))))"
  by auto
termination by (relation "measure (\<lambda>(c, k, bs). length bs)") auto

declare pump.simps [simp del]

definition pump_output :: "nat \<Rightarrow> bytes option \<Rightarrow> frame_kind \<Rightarrow> unit btask" where
  "pump_output c stream k = (case stream of None \<Rightarrow> return () | Some bs \<Rightarrow> pump c k bs)"

text \<open>
  \<open>_relay_control\<close> reads one frame after the other; a client that stays silent leaves it waiting.
\<close>

definition worker_input :: "nat \<Rightarrow> bytes \<Rightarrow> unit btask" where
  "worker_input pid payload = look (\<lambda>w. case docker_procs w pid of
       Some k \<Rightarrow>
         if dp_has_stdin k
         then seq (change (update_docker pid (\<lambda>k. k\<lparr>dp_stdin := dp_stdin k @ [payload]\<rparr>)))
           (waiting (\<lambda>w. True) (\<lambda>i w. (w, case bi_drain i of None \<Rightarrow> Inr () | Some e \<Rightarrow> Inl e)))
         else raising (BrokerProtocolError ''worker stdin is unavailable'')
     | None \<Rightarrow> raising (BrokerProtocolError ''worker stdin is unavailable''))"

definition control_frame :: "broker_env \<Rightarrow> nat \<Rightarrow> utext \<Rightarrow> broker_frame \<Rightarrow> unit btask" where
  "control_frame be pid sid f =
     (if kind_of f = STDIN then worker_input pid (payload_of f)
      else if kind_of f = TERMINATE \<and> payload_of f = [] then b_ignore (docker_control be ''stop'' sid)
      else if kind_of f = KILL \<and> payload_of f = [] then b_ignore (docker_control be ''kill'' sid)
      else raising (BrokerProtocolError ''worker control frame is invalid''))"

function relay_control :: "broker_env \<Rightarrow> stream_end \<Rightarrow> bytes \<Rightarrow> nat \<Rightarrow> utext \<Rightarrow> unit btask" where
  "relay_control be fin bs pid sid = look (\<lambda>w.
     if b_exited pid w then return ()
     else case read_frame fin MAX_STREAM_CHUNK bs of
       Inl e \<Rightarrow> waiting (\<lambda>w. e \<noteq> TimeoutError) (\<lambda>i w. (w, Inl e))
     | Inr (f, rest) \<Rightarrow> seq (waiting (\<lambda>w. True) (\<lambda>i w. (w, Inr ())))
         (seq (control_frame be pid sid f) (relay_control be fin rest pid sid)))"
  by auto
termination
  by (relation "measure (\<lambda>(be, fin, bs, pid, sid). length bs)") (auto dest: read_frame_rest)

declare relay_control.simps [simp del]

subsection \<open>One worker\<close>

definition claim :: "broker_env \<Rightarrow> utext \<Rightarrow> bool btask" where
  "claim be sid = b_locked BrokerLock (Do (\<lambda>w.
     if \<not> runtime_healthy w \<or> sid \<in> set (active w) \<or> max_workers (oci be) \<le> int (length (active w))
     then (w, Ret (Inr False))
     else (w\<lparr>active := sid # active w\<rparr>, Ret (Inr True))))"

definition free_slot :: "utext \<Rightarrow> bworld \<Rightarrow> bworld" where
  "free_slot sid w = w\<lparr>active := removeAll sid (active w), processes := (processes w)(sid := None)\<rparr>"

definition release_slot :: "utext \<Rightarrow> unit btask" where
  "release_slot sid = b_locked BrokerLock (change (free_slot sid))"

text \<open>
  The \<open>asyncio.wait\<close> on the relay, the worker, the wall time and the budget: it returns when one of
  them is done, with some of those that are.
\<close>

definition done_waiters :: "nat \<Rightarrow> nat \<Rightarrow> int \<Rightarrow> nat \<Rightarrow> bworld \<Rightarrow> waiter set" where
  "done_waiters c pid deadline control w =
     (if b_done control w then {ControlDone} else {}) \<union> (if b_exited pid w then {WorkerDone} else {})
     \<union> (if deadline \<le> b_clock w then {WallTime} else {})
     \<union> (case budgets w c of None \<Rightarrow> {} | Some b \<Rightarrow> if budget_exceeded b then {BudgetDone} else {})"

definition first_completed :: "nat \<Rightarrow> nat \<Rightarrow> int \<Rightarrow> nat \<Rightarrow> waiter set btask" where
  "first_completed c pid deadline control =
     waiting (\<lambda>w. done_waiters c pid deadline control w \<noteq> {})
       (\<lambda>i w. let d = done_waiters c pid deadline control w in (w, Inr (if bi_done i \<inter> d = {} then d else bi_done i \<inter> d)))"

definition reason_of :: "waiter set \<Rightarrow> string" where
  "reason_of d = (if WallTime \<in> d then ''wall-time'' else if BudgetDone \<in> d then ''output-limit'' else ''disconnect'')"

definition end_worker :: "broker_env \<Rightarrow> nat \<Rightarrow> utext \<Rightarrow> waiter set \<Rightarrow> unit btask" where
  "end_worker be pid sid d =
     (if WorkerDone \<in> d then return ()
      else seq (change (\<lambda>w. w\<lparr>notices := notices w @ [(reason_of d, sid)]\<rparr>))
        (seq (b_ignore (docker_control be ''kill'' sid))
        (seq (look (\<lambda>w. if b_exited pid w then return () else b_kill pid))
          (b_wait pid))))"

definition exit_payload :: "nat \<Rightarrow> bworld \<Rightarrow> exn + bytes" where
  "exit_payload pid w = (let code = (case b_exit pid w of None \<Rightarrow> 125 | Some n \<Rightarrow> n) in
     sum_bind (ExitMessage (max (- 255) (min 255 code))) exit_to_payload)"

definition supervise :: "broker_env \<Rightarrow> nat \<Rightarrow> nat \<Rightarrow> utext \<Rightarrow> unit btask" where
  "supervise be c pid sid =
     seq (b_locked BrokerLock (change (\<lambda>w. w\<lparr>processes := (processes w)(sid \<mapsto> pid)\<rparr>)))
    (seq (send_frame c STARTED [])
    (seq (change (\<lambda>w. w\<lparr>budgets := (budgets w)(c \<mapsto> output_budget_create (output_limit_bytes be))\<rparr>))
    (look (\<lambda>w. case docker_procs w pid of None \<Rightarrow> return () | Some k \<Rightarrow>
     b_spawn (PumpOutput c (dp_stdout k) STDOUT) (\<lambda>out.
     b_spawn (PumpOutput c (dp_stderr k) STDERR) (\<lambda>err.
     b_spawn (RelayControl c pid sid) (\<lambda>control.
     look (\<lambda>w.
     then_do (first_completed c pid (b_clock w + wall_time_seconds (oci be) * 10 ^ 9) control) (\<lambda>d.
     seq (end_worker be pid sid d)
    (look (\<lambda>w. let payload = exit_payload pid w in
     seq (b_cancel control)
    (seq (b_gather [control])
    (seq (b_gather [out, err])
      (b_sum payload (safe_send c EXIT)))))))))))))))"

definition worker_cleanup :: "broker_env \<Rightarrow> utext \<Rightarrow> nat option \<Rightarrow> unit btask" where
  "worker_cleanup be sid process =
     seq (case process of None \<Rightarrow> return () | Some pid \<Rightarrow> look (\<lambda>w.
         if b_exited pid w then return ()
         else seq (b_ignore (docker_control be ''kill'' sid)) (seq (b_kill pid) (b_wait pid))))
    (seq (b_ignore (docker_control be ''rm'' sid)) (release_slot sid))"

definition start_container :: "string list \<Rightarrow> nat btask" where
  "start_container argv = waiting (\<lambda>w. True) (\<lambda>i w. case bi_spawn i of
       Inl m \<Rightarrow> (w\<lparr>docker_log := docker_log w @ [argv]\<rparr>, Inl (OSError m))
     | Inr k \<Rightarrow> (w\<lparr>docker_log := docker_log w @ [argv], docker_procs := (docker_procs w)(b_next w \<mapsto> k),
           b_next := Suc (b_next w)\<rparr>, Inr (b_next w)))"

text \<open>The \<open>try\<close> of \<open>_run_worker\<close>: \<open>process\<close> is still unset when the launch raises or is reported.\<close>

definition launch_worker :: "broker_env \<Rightarrow> nat \<Rightarrow> start_request \<Rightarrow> nat option btask" where
  "launch_worker be c request =
     look (\<lambda>w. b_sum (build_worker_command (broker_files w) (oci be) request) (\<lambda>argv.
       on_error (then_do (start_container argv) (\<lambda>pid. return (Some pid)))
         (\<lambda>e. if is_os_error e
              then seq (safe_error c ''launch'' ''Isolated worker could not start'') (return None)
              else raising e)))"

definition run_claimed :: "broker_env \<Rightarrow> nat \<Rightarrow> start_request \<Rightarrow> unit btask" where
  "run_claimed be c request =
     outcome (launch_worker be c request) (\<lambda>r. case r of
       Inl e \<Rightarrow> always (raising e) (worker_cleanup be (req_session_id request) None)
     | Inr None \<Rightarrow> always (return ()) (worker_cleanup be (req_session_id request) None)
     | Inr (Some pid) \<Rightarrow> always (supervise be c pid (req_session_id request))
         (worker_cleanup be (req_session_id request) (Some pid)))"

definition run_worker :: "broker_env \<Rightarrow> nat \<Rightarrow> start_request \<Rightarrow> unit btask" where
  "run_worker be c request =
     then_do (claim be (req_session_id request)) (\<lambda>claimed.
       if \<not> claimed then safe_error c ''capacity'' ''All isolated workers are busy''
       else run_claimed be c request)"

end
