(* ===== verification/Broker_Service.thy ===== *)
theory Broker_Service
  imports Worker_Broker
begin

section \<open>Connections, start and end of the worker broker (worker_broker.py)\<close>

subsection \<open>A connection\<close>

definition peer_of :: "nat \<Rightarrow> bworld \<Rightarrow> int option" where
  "peer_of c w = (case conns w c of None \<Rightarrow> None | Some n \<Rightarrow> peer_uid n)"

text \<open>The first frame, within three seconds; what follows it stays with the connection.\<close>

definition first_frame :: "nat \<Rightarrow> broker_frame btask" where
  "first_frame c = waiting (\<lambda>w. True) (\<lambda>i w. case conns w c of
       None \<Rightarrow> (w, Inl TimeoutError)
     | Some n \<Rightarrow>
         if bi_timeout i then (w, Inl TimeoutError)
         else (case read_frame (client_end n) MAX_CONTROL_PAYLOAD (client_bytes n) of
           Inl e \<Rightarrow> (w, Inl e)
         | Inr (f, rest) \<Rightarrow> (update_conn c (\<lambda>n. n\<lparr>client_bytes := rest\<rparr>) w, Inr f)))"

definition runtime_unavailable :: "nat \<Rightarrow> unit btask" where
  "runtime_unavailable c = safe_error c ''runtime'' ''Worker runtime is unavailable''"

definition serve_first :: "broker_env \<Rightarrow> nat \<Rightarrow> broker_frame \<Rightarrow> unit btask" where
  "serve_first be c f =
     (if kind_of f = PING \<and> payload_of f = []
      then look (\<lambda>w. if runtime_healthy w then send_frame c PONG [] else runtime_unavailable c)
      else if kind_of f \<noteq> START
      then raising (BrokerProtocolError ''first broker frame must be ping or start'')
      else b_sum (start_from_payload (payload_of f)) (\<lambda>request.
        look (\<lambda>w. if \<not> runtime_healthy w then runtime_unavailable c else run_worker be c request)))"

definition report_failure :: "nat \<Rightarrow> exn \<Rightarrow> unit btask" where
  "report_failure c e =
     (if e = TimeoutError then safe_error c ''timeout'' ''Broker request timed out''
      else if is_broker_protocol_error e then safe_error c ''protocol'' ''Broker request was invalid''
      else if is_policy_error e then safe_error c ''policy'' ''Worker policy validation failed''
      else if is_connection_error e then return ()
      else raising e)"

definition handle_connection :: "broker_env \<Rightarrow> nat \<Rightarrow> unit btask" where
  "handle_connection be c = look (\<lambda>w.
     if peer_of c w \<noteq> Some (allowed_core_uid (oci be)) then close_conn c
     else always (on_error (then_do (first_frame c) (serve_first be c)) (report_failure c)) (close_conn c))"

subsection \<open>Start\<close>

definition validate_socket_parent :: "filesys \<Rightarrow> oci_settings \<Rightarrow> exn + unit" where
  "validate_socket_parent fs s = (case os_lstat fs (parent (broker_socket s)) of
       Inl (FileNotFoundError m) \<Rightarrow> Inl (OciPolicyError ''broker socket parent is unavailable'')
     | Inl e \<Rightarrow> Inl e
     | Inr n \<Rightarrow>
         if is_lnk (kind n) \<or> \<not> is_dir (kind n)
         then Inl (OciPolicyError ''broker socket parent must be a non-symlink directory'')
         else if gid n \<noteq> shared_group_gid s
         then Inl (OciPolicyError ''broker socket parent has an unexpected group'')
         else if mode n AND octal [0, 0, 7] \<noteq> 0
         then Inl (OciPolicyError ''broker socket parent must not be accessible to other users'')
         else Inr ())"

text \<open>The socket's own path: the last component below the resolved parent.\<close>

definition socket_path :: "broker_env \<Rightarrow> filesys \<Rightarrow> path" where
  "socket_path be fs = (case resolve_strict fs (parent (broker_socket (oci be))) of
       Inl e \<Rightarrow> broker_socket (oci be)
     | Inr d \<Rightarrow> child d (last (parts (broker_socket (oci be)))))"

definition remove_stale_socket :: "broker_env \<Rightarrow> filesys \<Rightarrow> exn + filesys" where
  "remove_stale_socket be fs = (case os_lstat fs (broker_socket (oci be)) of
       Inl (FileNotFoundError m) \<Rightarrow> Inr fs
     | Inl e \<Rightarrow> Inl e
     | Inr n \<Rightarrow>
         if \<not> is_sock (kind n) \<or> uid n \<noteq> my_uid (broker_id be)
         then Inl (OciPolicyError ''refusing to replace an unowned broker socket path'')
         else Inr (unlink (socket_path be fs) fs))"

definition broker_file_step :: "(filesys \<Rightarrow> exn + filesys) \<Rightarrow> unit btask" where
  "broker_file_step f = attempt (\<lambda>w. sum_bind (f (broker_files w)) (\<lambda>fs. Inr (w\<lparr>broker_files := fs\<rparr>)))"

text \<open>
  \<open>start_unix_server\<close> binds the socket with the process's identity and umask, in an existing directory
  and at a free name; it does not listen yet.
\<close>

definition bind_unix :: "broker_env \<Rightarrow> filesys \<Rightarrow> exn + filesys" where
  "bind_unix be fs = sum_bind (resolve_strict fs (parent (broker_socket (oci be)))) (\<lambda>d.
     if fs (socket_path be fs) \<noteq> None then Inl (OSError ''address already in use'')
     else Inr (fs(socket_path be fs \<mapsto>
       \<lparr>kind = Socket, mode = octal [7, 7, 7] - (octal [7, 7, 7] AND umask (broker_id be)),
         uid = my_uid (broker_id be), gid = my_gid (broker_id be)\<rparr>)))"

definition bind_socket :: "broker_env \<Rightarrow> unit btask" where
  "bind_socket be = waiting (\<lambda>w. True) (\<lambda>i w. case bi_drain i of
       Some e \<Rightarrow> (w, Inl e)
     | None \<Rightarrow> (case bind_unix be (broker_files w) of
         Inl e \<Rightarrow> (w, Inl e)
       | Inr fs \<Rightarrow> (w\<lparr>broker_files := fs\<rparr>, Inr ())))"

text \<open>\<open>os.chown\<close> of the group and \<open>chmod\<close>; the kernel may refuse the group.\<close>

definition share_socket :: "broker_env \<Rightarrow> unit btask" where
  "share_socket be = waiting (\<lambda>w. True) (\<lambda>i w. case bi_drain i of
       Some e \<Rightarrow> (w, Inl e)
     | None \<Rightarrow> (w\<lparr>broker_files := chmod (socket_path be (broker_files w)) (octal [6, 6, 0])
           (chgrp (socket_path be (broker_files w)) (shared_group_gid (oci be)) (broker_files w))\<rparr>, Inr ()))"

definition broker_start :: "broker_env \<Rightarrow> bool \<Rightarrow> nat \<Rightarrow> unit btask" where
  "broker_start be verify rounds =
     seq (look (\<lambda>w. b_sum (validate_oci (broker_files w) (my_uid (broker_id be)) (oci be)) return))
    (seq (look (\<lambda>w. b_sum (validate_socket_parent (broker_files w) (oci be)) return))
    (seq (if verify then seq (verify_runtime be) (reconcile_managed_containers be False) else return ())
    (seq (set_healthy True)
    (seq (broker_file_step (remove_stale_socket be))
    (seq (bind_socket be)
    (seq (share_socket be)
    (seq (change (\<lambda>w. w\<lparr>serving := True\<rparr>))
      (if verify
       then b_spawn (ReconcileLoop rounds) (\<lambda>t. change (\<lambda>w. w\<lparr>reconcile_task := Some t\<rparr>))
       else return ()))))))))"

definition serve_forever :: "unit btask" where
  "serve_forever = look (\<lambda>w. if \<not> serving w then raising (RuntimeError ''worker broker has not started'')
     else waiting (\<lambda>w. \<not> serving w) (\<lambda>i w. (w, Inl CancelledError)))"

subsection \<open>End\<close>

definition force_cleanup :: "broker_env \<Rightarrow> utext \<Rightarrow> nat option \<Rightarrow> unit btask" where
  "force_cleanup be sid process =
     seq (b_ignore (docker_control be ''kill'' sid))
    (seq (case process of None \<Rightarrow> return () | Some pid \<Rightarrow> look (\<lambda>w.
         if b_exited pid w then return () else seq (b_kill pid) (b_wait pid)))
      (b_ignore (docker_control be ''rm'' sid)))"

text \<open>\<open>gather\<close> of one clean-up per active worker, each a task of its own; then \<open>wait_closed\<close>.\<close>

fun spawn_cleanups :: "(utext \<times> nat option) list \<Rightarrow> nat list \<Rightarrow> (nat list \<Rightarrow> unit btask) \<Rightarrow> unit btask" where
  "spawn_cleanups [] ts k = k ts"
| "spawn_cleanups ((sid, process) # rest) ts k =
     b_spawn (ForceCleanup sid process) (\<lambda>t. spawn_cleanups rest (t # ts) k)"

definition all_closed :: "bworld \<Rightarrow> bool" where
  "all_closed w = list_all (\<lambda>c. case conns w c of None \<Rightarrow> True | Some n \<Rightarrow> conn_closed n) [0..<b_next w]"

definition broker_close :: "broker_env \<Rightarrow> unit btask" where
  "broker_close be =
     seq (set_healthy False)
    (look (\<lambda>w. let had_server = serving w in
     seq (change (\<lambda>w. w\<lparr>serving := False\<rparr>))
    (seq (look (\<lambda>w. case reconcile_task w of None \<Rightarrow> return ()
        | Some t \<Rightarrow> seq (b_cancel t) (seq (b_gather [t]) (change (\<lambda>w. w\<lparr>reconcile_task := None\<rparr>)))))
    (then_do (b_locked BrokerLock (look (\<lambda>w. return (map (\<lambda>sid. (sid, processes w sid)) (active w))))) (\<lambda>workers.
     seq (spawn_cleanups workers [] b_gather)
    (seq (if had_server then waiting all_closed (\<lambda>i w. (w, Inr ())) else return ())
      (broker_file_step (remove_stale_socket be))))))))"

text \<open>\<open>_run\<close>: the program, until a signal arrives.\<close>

definition broker_run :: "broker_env \<Rightarrow> nat \<Rightarrow> unit btask" where
  "broker_run be rounds =
     seq (broker_start be True rounds)
    (seq (waiting stop_requested (\<lambda>i w. (w, Inr ()))) (broker_close be))"

text \<open>
  \<open>main\<close>: the settings come from the environment, and a bad environment ends the program before it
  touches the runtime root, its socket or Docker.  (The option \<open>--log-level\<close> only configures logging.)
\<close>

definition broker_main :: "filesys \<Rightarrow> identity \<Rightarrow> environment \<Rightarrow> nat \<Rightarrow> unit btask" where
  "broker_main fs user environ rounds =
     (case oci_from_environment fs (my_uid user) environ of
        Inl e \<Rightarrow> raising e
      | Inr settings \<Rightarrow>
          broker_run \<lparr>oci = settings, broker_id = user, output_limit_bytes = 32 * 1024 * 1024\<rparr> rounds)"

subsection \<open>The running broker\<close>

fun broker_task :: "broker_env \<Rightarrow> bworld \<Rightarrow> broker_code \<Rightarrow> unit btask" where
  "broker_task be w (PumpOutput c stream k) = pump_output c stream k"
| "broker_task be w (RelayControl c pid sid) = (case conns w c of None \<Rightarrow> return ()
     | Some n \<Rightarrow> relay_control be (client_end n) (client_bytes n) pid sid)"
| "broker_task be w (ForceCleanup sid process) = force_cleanup be sid process"
| "broker_task be w (ReconcileLoop rounds) = reconcile_loop be rounds"

record broker_system =
  b_world :: bworld
  b_pool :: "(nat \<times> unit btask) list"

text \<open>
  The events: the program starts, a client connects, a created task begins, a suspended task goes on
  with an input, a worker exits, its transport drops it, a signal arrives.
\<close>

datatype broker_event =
    Run nat binput
  | Connect connection binput
  | BeginTask nat binput
  | ResumeTask nat binput
  | WorkerExit nat int
  | WorkerGone nat
  | Signal

definition b_turn :: "binput \<Rightarrow> nat \<Rightarrow> bworld \<Rightarrow> bworld" where
  "b_turn i t w = w\<lparr>b_me := t, b_clock := max (b_clock w) (bi_clock i)\<rparr>"

fun b_error :: "exn + unit \<Rightarrow> exn option" where
  "b_error (Inl e) = Some e"
| "b_error (Inr u) = None"

definition b_end :: "nat \<Rightarrow> exn option \<Rightarrow> bworld \<Rightarrow> bworld" where
  "b_end t r w = w\<lparr>b_finished := (t, r) # b_finished w, b_cancels := removeAll t (b_cancels w)\<rparr>"

fun b_conclude :: "nat \<Rightarrow> bworld \<times> unit btask \<Rightarrow> (nat \<times> unit btask) list \<Rightarrow> broker_system" where
  "b_conclude t (w, Ret r) others = \<lparr>b_world = b_end t (b_error r) w, b_pool = others\<rparr>"
| "b_conclude t (w, p) others = \<lparr>b_world = w, b_pool = (t, p) # others\<rparr>"

definition drop_task :: "nat \<Rightarrow> (nat \<times> 'a) list \<Rightarrow> (nat \<times> 'a) list" where
  "drop_task t xs = filter (\<lambda>(k, p). k \<noteq> t) xs"

fun broker_step :: "broker_env \<Rightarrow> broker_event \<Rightarrow> broker_system \<Rightarrow> broker_system" where
  "broker_step be (Run rounds i) sys =
     (let w = b_world sys; t = b_next w in
      b_conclude t (settle (broker_run be rounds) ((b_turn i t w)\<lparr>b_next := Suc t\<rparr>)) (b_pool sys))"
| "broker_step be (Connect n i) sys =
     (let w = b_world sys; t = b_next w in
      if \<not> serving w then sys
      else b_conclude t (settle (handle_connection be t)
        ((b_turn i t w)\<lparr>b_next := Suc t, conns := (conns w)(t \<mapsto> n\<lparr>sent := [], conn_closed := False\<rparr>)\<rparr>)) (b_pool sys))"
| "broker_step be (BeginTask t i) sys =
     (let w = b_world sys in
      case map_of (b_spawned w) t of None \<Rightarrow> sys
      | Some code \<Rightarrow>
          let w1 = (b_turn i t w)\<lparr>b_spawned := drop_task t (b_spawned w)\<rparr> in
          if t \<in> set (b_cancels w) then \<lparr>b_world = b_end t (Some CancelledError) w1, b_pool = b_pool sys\<rparr>
          else b_conclude t (settle (broker_task be w1 code) w1) (b_pool sys))"
| "broker_step be (ResumeTask t i) sys =
     (case map_of (b_pool sys) t of None \<Rightarrow> sys
      | Some p \<Rightarrow>
          let w1 = b_turn i t (b_world sys) in
          if runnable p w1 then b_conclude t (resume p i w1) (drop_task t (b_pool sys)) else sys)"
| "broker_step be (WorkerExit pid code) sys =
     sys\<lparr>b_world := update_docker pid (\<lambda>k. if dp_returncode k = None then k\<lparr>dp_returncode := Some code\<rparr> else k) (b_world sys)\<rparr>"
| "broker_step be (WorkerGone pid) sys =
     sys\<lparr>b_world := update_docker pid (\<lambda>k. if dp_returncode k = None then k else k\<lparr>dp_gone := True\<rparr>) (b_world sys)\<rparr>"
| "broker_step be Signal sys = sys\<lparr>b_world := (b_world sys)\<lparr>stop_requested := True\<rparr>\<rparr>"

definition broker_world :: "filesys \<Rightarrow> int \<Rightarrow> bworld" where
  "broker_world fs clock = \<lparr>active = [], processes = (\<lambda>_. None), runtime_healthy = False, serving = False,
     reconcile_task = None, docker_procs = (\<lambda>_. None), conns = (\<lambda>_. None), budgets = (\<lambda>_. None),
     broker_files = fs, docker_log = [], notices = [], b_next = 0, b_spawned = [], b_finished = [],
     b_cancels = [], b_held = [], b_me = 0, b_clock = clock, stop_requested = False\<rparr>"

inductive broker_reachable :: "broker_env \<Rightarrow> broker_system \<Rightarrow> bool" for be :: broker_env where
  broker_initially: "broker_reachable be \<lparr>b_world = broker_world fs clock, b_pool = []\<rparr>"
| broker_steps: "broker_reachable be sys \<Longrightarrow> broker_reachable be (broker_step be ev sys)"

definition broker_events :: "broker_env \<Rightarrow> broker_event list \<Rightarrow> broker_system \<Rightarrow> broker_system" where
  "broker_events be evs sys = fold (broker_step be) evs sys"

lemma broker_reachable_events: "broker_reachable be sys \<Longrightarrow> broker_reachable be (broker_events be evs sys)"
  unfolding broker_events_def by (induction evs arbitrary: sys) (auto intro: broker_steps)

end
