(* ===== verification/Broker_Invariants.thy ===== *)
theory Broker_Invariants
  imports Broker_Service
begin

section \<open>What holds in every reachable state of the broker\<close>

text \<open>
  A law of the broker's table of workers is closed under claiming a free slot, freeing one and
  everything that leaves the table alone; the locale proves that such a law holds
  under every interleaving.
\<close>

lemma start_from_payload_id: "start_from_payload p = Inr r \<Longrightarrow> fullmatch SESSION_ID_PATTERN (req_session_id r)"
  by (auto simp: start_from_payload_def StartRequest_def split: if_splits)

locale broker_law =
  fixes be :: broker_env and I :: "bworld \<Rightarrow> bool"
  assumes frame: "I w \<Longrightarrow> active w' = active w \<Longrightarrow> broker_files w' = broker_files w \<Longrightarrow> I w'"
    and claiming: "I w \<Longrightarrow> fullmatch SESSION_ID_PATTERN sid \<Longrightarrow> sid \<notin> set (active w) \<Longrightarrow>
      int (length (active w)) < max_workers (oci be) \<Longrightarrow>
      I (w\<lparr>active := sid # active w\<rparr>)"
    and freeing: "I w \<Longrightarrow> I (free_slot sid w)"
begin

lemma safe_waiting:
  "(\<And>i w. active (fst (f i w)) = active w \<and> broker_files (fst (f i w)) = broker_files w) \<Longrightarrow> safe I (waiting b f)"
  unfolding waiting_def
  by (rule safe_Await) (auto simp: split_beta intro: safe_Ret frame)

lemma safe_calm: "(\<And>w. active (f w) = active w \<and> broker_files (f w) = broker_files w) \<Longrightarrow> safe I (change f)"
  by (intro safe_change) (blast intro: frame)

lemma safe_b_locked [safe_intro]: "safe I p \<Longrightarrow> safe I (b_locked l p)"
  unfolding b_locked_def by (intro safe_intro safe_calm safe_waiting) auto

lemma safe_b_spawn [safe_intro]: "(\<And>t. safe I (k t)) \<Longrightarrow> safe I (b_spawn c k)"
  unfolding b_spawn_def by (intro safe_intro safe_calm) auto

lemma safe_b_sum [safe_intro]: "(\<And>x. r = Inr x \<Longrightarrow> safe I (f x)) \<Longrightarrow> safe I (b_sum r f)"
  unfolding b_sum_def by (cases r) (auto intro: safe_intro)

lemma safe_b_ignore [safe_intro]: "safe I p \<Longrightarrow> safe I (b_ignore p)"
  unfolding b_ignore_def by (intro safe_intro)

lemma safe_basics [safe_intro]:
  "safe I (b_cancel t)" "safe I (b_wait pid)" "safe I (b_kill pid)"
  "safe I (run_docker argv)" "safe I docker_finish" "safe I docker_killed" "safe I (set_healthy b)"
  unfolding b_cancel_def b_wait_def b_kill_def run_docker_def docker_finish_def docker_killed_def set_healthy_def
  by (intro safe_intro safe_calm safe_waiting; simp add: update_docker_def split: sum.split)+

lemma safe_b_gather [safe_intro]: "safe I (b_gather ts)"
  unfolding b_gather_def
  by (intro safe_Await) (auto intro!: safe_Await safe_Ret intro: frame)

lemma safe_sending [safe_intro]:
  "safe I (send_frame c k payload)" "safe I (safe_send c k payload)" "safe I (safe_error c code message)" "safe I (close_conn c)"
  unfolding safe_error_def safe_send_def send_frame_def close_conn_def
  by (intro safe_intro safe_calm safe_waiting; simp add: update_conn_def)+

lemma safe_docker [safe_intro]: "safe I (docker_output be' args)" "safe I (docker_control be' action sid)"
  unfolding docker_output_def docker_control_def by (intro safe_intro)+

lemma safe_consume [safe_intro]: "safe I (consume c n)"
  unfolding consume_def
  by (intro safe_intro safe_Do) (auto intro: safe_Ret frame split: option.split prod.split)

lemma safe_runtime [safe_intro]: "safe I (verify_runtime be')" "safe I (reconcile_managed_containers be' preserve)"
  unfolding verify_runtime_def reconcile_managed_containers_def by (intro safe_intro)+

lemma safe_reconcile_loop [safe_intro]: "safe I (reconcile_loop be' n)"
  by (induction n) (auto simp: reconcile_round_def intro!: safe_intro safe_waiting)

lemma safe_pump [safe_intro]: "safe I (pump c k bs)"
proof (induction c k bs rule: pump.induct)
  case (1 c k bs)
  then show ?case
    by (subst pump.simps) (auto intro!: safe_Await safe_intro)
qed

lemma safe_pump_output [safe_intro]: "safe I (pump_output c stream k)"
  unfolding pump_output_def by (intro safe_intro)

lemma safe_control_frame [safe_intro]: "safe I (control_frame be' pid sid f)"
  unfolding control_frame_def worker_input_def
  by (intro safe_intro safe_calm safe_waiting) (simp_all add: update_docker_def)

lemma safe_relay_control [safe_intro]: "safe I (relay_control be' fin bs pid sid)"
proof (induction be' fin bs pid sid rule: relay_control.induct)
  case (1 be' fin bs pid sid)
  then show ?case
    by (subst relay_control.simps) (auto intro!: safe_intro safe_waiting split: sum.split prod.split)
qed

lemma safe_claim: "fullmatch SESSION_ID_PATTERN sid \<Longrightarrow> safe I (claim be sid)"
  unfolding claim_def by (intro safe_intro safe_Do) (auto intro: safe_Ret claiming)

lemma safe_release_slot [safe_intro]: "safe I (release_slot sid)"
  unfolding release_slot_def by (intro safe_intro safe_change freeing)

lemma safe_worker_parts [safe_intro]:
  "safe I (end_worker be' pid sid d)" "safe I (first_completed c pid deadline control)"
  "safe I (start_container argv)"
  unfolding end_worker_def first_completed_def start_container_def
  by (intro safe_intro safe_calm safe_waiting; simp add: Let_def split: sum.split)+

lemma safe_supervise [safe_intro]: "safe I (supervise be' c pid sid)"
  unfolding supervise_def by (intro safe_intro safe_calm) simp_all

lemma safe_worker_cleanup [safe_intro]: "safe I (worker_cleanup be' sid process)"
  unfolding worker_cleanup_def by (intro safe_intro)

lemma safe_launch_worker [safe_intro]: "safe I (launch_worker be' c request)"
  unfolding launch_worker_def by (intro safe_intro)

lemma safe_run_worker:
  assumes "fullmatch SESSION_ID_PATTERN (req_session_id request)"
  shows "safe I (run_worker be c request)"
proof -
  have "safe I (run_claimed be c request)"
    unfolding run_claimed_def by (intro safe_outcome) (auto intro!: safe_intro split: sum.split option.split)
  then show ?thesis unfolding run_worker_def by (intro safe_intro safe_claim assms)
qed

lemma safe_first_frame [safe_intro]: "safe I (first_frame c)"
  unfolding first_frame_def
  by (rule safe_waiting) (simp add: update_conn_def split: option.split sum.split prod.split)

lemma safe_handle_connection [safe_intro]: "safe I (handle_connection be c)"
  unfolding handle_connection_def serve_first_def report_failure_def runtime_unavailable_def
  by (intro safe_intro safe_run_worker start_from_payload_id)

lemma safe_force_cleanup [safe_intro]: "safe I (force_cleanup be' sid process)"
  unfolding force_cleanup_def by (intro safe_intro)

lemma safe_spawn_cleanups [safe_intro]: "(\<And>ts. safe I (k ts)) \<Longrightarrow> safe I (spawn_cleanups ws ts k)"
  by (induction ws ts k rule: spawn_cleanups.induct) (auto intro: safe_intro)

end

text \<open>A law that also lets files change holds in every reachable state.\<close>

locale broker_file_law = broker_law +
  assumes filing: "I w \<Longrightarrow> I (w\<lparr>broker_files := fs\<rparr>)"
begin

lemma safe_broker_file_step [safe_intro]: "safe I (broker_file_step f)"
  unfolding broker_file_step_def by (rule safe_attempt) (auto intro: filing)

lemma safe_broker_start [safe_intro]: "safe I (broker_start be verify rounds)"
proof -
  have filing_wait: "safe I (waiting b g)" if "\<And>i w. fst (g i w) = w \<or> (\<exists>fs. fst (g i w) = w\<lparr>broker_files := fs\<rparr>)"
    for b and g :: "binput \<Rightarrow> bworld \<Rightarrow> bworld \<times> (exn + unit)"
  proof -
    have "I (fst (g i w))" if "I w" for i w
      using \<open>\<And>i w. fst (g i w) = w \<or> (\<exists>fs. fst (g i w) = w\<lparr>broker_files := fs\<rparr>)\<close> [of i w] filing that by auto
    then show ?thesis
      unfolding waiting_def by (intro safe_Await) (auto simp: split_beta intro: safe_Ret frame)
  qed
  have "safe I (bind_socket be)" "safe I (share_socket be)"
    unfolding bind_socket_def share_socket_def by (rule filing_wait; auto split: option.split sum.split)+
  then show ?thesis unfolding broker_start_def by (intro safe_intro safe_calm) simp_all
qed

lemma safe_broker_close [safe_intro]: "safe I (broker_close be')"
  unfolding broker_close_def Let_def
  by (intro safe_intro safe_calm safe_waiting) simp_all

lemma safe_broker_run: "safe I (broker_run be rounds)"
  unfolding broker_run_def by (intro safe_intro safe_waiting) simp

lemma safe_broker_task: "safe I (broker_task be w code)"
  by (cases code) (auto intro!: safe_intro)

subsection \<open>Every reachable state\<close>

lemma b_conclude_law:
  assumes "I (fst c) \<and> safe I (snd c)" "\<forall>(t, q)\<in>set others. safe I q"
  shows "I (b_world (b_conclude t c others)) \<and> (\<forall>(t, q)\<in>set (b_pool (b_conclude t c others)). safe I q)"
  using assms by (cases "(t, c, others)" rule: b_conclude.cases) (auto simp: b_end_def intro: frame)

lemma broker_step_law:
  assumes "I (b_world sys)" "\<forall>(t, q)\<in>set (b_pool sys). safe I q"
  shows "I (b_world (broker_step be ev sys)) \<and> (\<forall>(t, q)\<in>set (b_pool (broker_step be ev sys)). safe I q)"
proof -
  have w: "I w'" if "active w' = active (b_world sys)" "broker_files w' = broker_files (b_world sys)" for w'
    by (rule frame [OF assms(1) that])
  have o: "\<forall>(t, q)\<in>set (drop_task t (b_pool sys)). safe I q" for t
    using assms(2) by (auto simp: drop_task_def)
  have p: "safe I p" if "map_of (b_pool sys) t = Some p" for t p
    using assms(2) map_of_SomeD [OF that] by fastforce
  note run = safe_settle [OF safe_broker_run w] safe_settle [OF safe_handle_connection w]
    safe_settle [OF safe_broker_task w] safe_resume [OF p w]
  show ?thesis
    by (cases ev; simp add: Let_def assms b_turn_def update_docker_def split: option.split)
      (intro conjI impI allI b_conclude_law run o assms w; simp add: assms b_end_def w)+
qed

lemma broker_reachable_law:
  assumes "broker_reachable be sys" "\<And>fs clock. I (broker_world fs clock)"
  shows "I (b_world sys)"
proof -
  have "I (b_world sys) \<and> (\<forall>(t, q)\<in>set (b_pool sys). safe I q)"
    using assms(1)
  proof induction
    case (broker_initially fs clock)
    show ?case by (simp add: assms(2))
  next
    case (broker_steps sys ev)
    then show ?case using broker_step_law by blast
  qed
  then show ?thesis ..
qed

end

subsection \<open>The table of workers\<close>

definition table_ok :: "broker_env \<Rightarrow> bworld \<Rightarrow> bool" where
  "table_ok be w \<longleftrightarrow> distinct (active w) \<and> int (length (active w)) \<le> max 0 (max_workers (oci be))
     \<and> list_all (fullmatch SESSION_ID_PATTERN) (active w)"

interpretation table_law: broker_file_law be "table_ok be" for be
proof unfold_locales
  fix w sid
  assume w: "table_ok be w"
  have "int (length (removeAll sid (active w))) \<le> int (length (active w))"
    by (simp add: removeAll_filter_not_eq)
  also have "\<dots> \<le> max 0 (max_workers (oci be))" using w by (simp add: table_ok_def)
  finally have "int (length (removeAll sid (active w))) \<le> max 0 (max_workers (oci be))" .
  with w show "table_ok be (free_slot sid w)"
    by (auto simp: table_ok_def free_slot_def distinct_removeAll list_all_iff)
qed (auto simp: table_ok_def)

text \<open>No connection and no background task touches a file.\<close>

interpretation files_law: broker_law be "\<lambda>w. broker_files w = fs" for be fs
  by unfold_locales (auto simp: free_slot_def)

end
