(* ===== verification/Broker_Properties.thy ===== *)
theory Broker_Properties
  imports Broker_Invariants
begin

section \<open>What the worker broker guarantees\<close>

subsection \<open>Weakest preconditions of the broker's primitives\<close>

lemma wp_waiting:
  "wp R (waiting b f) Q w \<longleftrightarrow> (\<forall>u i. R w u \<longrightarrow> b u \<or> b_cancelled u \<longrightarrow>
     (if b_cancelled u then Q (Inl CancelledError) (u\<lparr>b_cancels := removeAll (b_me u) (b_cancels u)\<rparr>)
      else Q (snd (f i u)) (fst (f i u))))"
  by (simp add: waiting_def split_beta if_distrib [of "map_prod id (wp R)"] cong: if_cong)

lemma wp_b_sum [simp]:
  "wp R (b_sum r f) Q w = (case r of Inl e \<Rightarrow> Q (Inl e) w | Inr x \<Rightarrow> wp R (f x) Q w)"
  by (simp add: b_sum_def wp_simps split: sum.split)

text \<open>
  What a handler may rely on: the other tasks neither cancel it nor take back Docker
  commands, and an ended worker stays ended.
\<close>

definition handler_rely :: "(bworld \<Rightarrow> bworld \<Rightarrow> bool) \<Rightarrow> bool" where
  "handler_rely R \<longleftrightarrow> (\<forall>u v. R u v \<longrightarrow> \<not> b_cancelled v \<and> set (docker_log u) \<subseteq> set (docker_log v)
     \<and> (\<forall>pid. b_exited pid u \<longrightarrow> b_exited pid v))"

lemma wp_handler_waiting:
  assumes "handler_rely R" "\<And>u i. R w u \<Longrightarrow> b u \<Longrightarrow> Q (snd (f i u)) (fst (f i u))"
  shows "wp R (waiting b f) Q w"
  using assms unfolding wp_waiting handler_rely_def by auto

lemma wp_b_locked:
  assumes "handler_rely R"
    and "\<And>u. R w u \<or> u = w \<Longrightarrow> wp R p (\<lambda>r v. Q r (v\<lparr>b_held := removeAll l (b_held v)\<rparr>)) (u\<lparr>b_held := l # b_held u\<rparr>)"
  shows "wp R (b_locked l p) Q w"
  unfolding b_locked_def wp_simps
  by (auto simp: wp_simps intro!: wp_handler_waiting [OF assms(1)] assms(2)
      split: sum.split intro: wp_mono [OF assms(2)])

lemma rely_steps:
  assumes "handler_rely R" "R u v"
  shows "set (docker_log u) \<subseteq> set (docker_log v)" "b_exited pid u \<Longrightarrow> b_exited pid v"
  using assms unfolding handler_rely_def by blast+

lemma wp_docker_control:
  assumes "handler_rely R" "control_command (oci be) action sid = Inr argv"
    and "\<And>b u. argv \<in> set (docker_log u) \<Longrightarrow> set (docker_log w) \<subseteq> set (docker_log u) \<Longrightarrow>
      (\<And>pid. b_exited pid w \<Longrightarrow> b_exited pid u) \<Longrightarrow> Q (Inr b) u"
  shows "wp R (docker_control be action sid) Q w"
proof -
  define S where "S u \<longleftrightarrow> argv \<in> set (docker_log u) \<and> set (docker_log w) \<subseteq> set (docker_log u)
    \<and> (\<forall>pid. b_exited pid w \<longrightarrow> b_exited pid u)" for u
  have Q: "S u \<Longrightarrow> Q (Inr b) u" for b u using assms(3) by (simp add: S_def)
  have R: "S v" if "S u" "R u v" for u v
    using that rely_steps [OF assms(1) that(2)] unfolding S_def by blast
  have first: "S (u\<lparr>docker_log := docker_log u @ [argv]\<rparr>)" if "R w u" for u
    using rely_steps [OF assms(1) that] by (auto simp: S_def b_exited_def b_exit_def)
  have finish: "wp R docker_finish Q' v" if "S v"
      "\<And>u code out. S u \<Longrightarrow> Q' (Inr (code, out)) u" "\<And>u. S u \<Longrightarrow> Q' (Inl TimeoutError) u" for v Q'
    unfolding docker_finish_def by (rule wp_handler_waiting [OF assms(1)]) (auto split: option.split intro: that R)
  have killed: "wp R docker_killed Q' v" if "S v" "\<And>u. S u \<Longrightarrow> Q' (Inr ()) u"
      "\<And>u. S u \<Longrightarrow> Q' (Inl ProcessLookupError) u" for v Q'
    unfolding docker_killed_def by (rule wp_handler_waiting [OF assms(1)]) (auto intro: that R)
  show ?thesis
    unfolding docker_control_def assms(2) wp_b_sum sum.case wp_simps run_docker_def
    by (rule wp_handler_waiting [OF assms(1)])
      (auto simp: wp_simps split: sum.split intro!: finish killed Q dest: first)
qed

lemma wp_release_slot:
  assumes "handler_rely R" "\<And>u. u = w \<or> R w u \<Longrightarrow> Q (Inr ()) ((free_slot sid u)\<lparr>b_held := removeAll BrokerLock (b_held u)\<rparr>)"
  shows "wp R (release_slot sid) Q w"
  unfolding release_slot_def
  by (rule wp_b_locked [OF assms(1)]) (use assms(2) in \<open>auto simp: wp_simps free_slot_def\<close>)

lemma wp_seqI:
  assumes "wp R p P w" "\<And>r u. P r u \<Longrightarrow> (case r of Inl e \<Rightarrow> Q (Inl e) u | Inr x \<Rightarrow> wp R q Q u)"
  shows "wp R (seq p q) Q w"
  unfolding wp_simps(7) by (rule wp_mono [OF assms(1)]) (rule assms(2))

lemma wp_ignore_control:
  assumes "handler_rely R" "control_command (oci be) action sid = Inr argv"
    and "\<And>u. argv \<in> set (docker_log u) \<Longrightarrow> (\<And>pid. b_exited pid w \<Longrightarrow> b_exited pid u) \<Longrightarrow> wp R q Q u"
  shows "wp R (seq (b_ignore (docker_control be action sid)) q) Q w"
proof (rule wp_seqI [where P = "\<lambda>r u. r = Inr () \<and> wp R q Q u"])
  show "wp R (b_ignore (docker_control be action sid)) (\<lambda>r u. r = Inr () \<and> wp R q Q u) w"
    unfolding b_ignore_def wp_simps(6)
    by (rule wp_docker_control [OF assms(1,2)]) (simp only: sum.case wp_simps(1) simp_thms assms(3))
qed simp

lemma valid_control:
  assumes "fullmatch SESSION_ID_PATTERN sid"
  shows "\<exists>argv. control_command s ''kill'' sid = Inr argv" "\<exists>argv. control_command s ''rm'' sid = Inr argv"
  using assms by (simp_all add: control_command_def container_name_Inr)

text \<open>What is true once the clean-up of a worker has come to its end.\<close>

definition slot_free :: "broker_env \<Rightarrow> utext \<Rightarrow> bworld \<Rightarrow> bool" where
  "slot_free be sid w \<longleftrightarrow> sid \<notin> set (active w) \<and> processes w sid = None
     \<and> (\<exists>argv. control_command (oci be) ''rm'' sid = Inr argv \<and> argv \<in> set (docker_log w))"

lemma slot_freed [simp]:
  "slot_free be sid ((free_slot sid u)\<lparr>b_held := h\<rparr>) \<longleftrightarrow>
     (\<exists>argv. control_command (oci be) ''rm'' sid = Inr argv \<and> argv \<in> set (docker_log u))"
  "b_exited pid ((free_slot sid u)\<lparr>b_held := h\<rparr>) \<longleftrightarrow> b_exited pid u"
  by (simp_all add: slot_free_def free_slot_def b_exited_def b_exit_def)

lemma wp_remove_and_free:
  assumes rely: "handler_rely R" and c: "control_command (oci be) ''rm'' sid = Inr rm"
    and keep: "\<And>u v. (\<And>pid. b_exited pid u \<Longrightarrow> b_exited pid v) \<Longrightarrow> E u \<Longrightarrow> E v" and "E w"
  shows "wp R (seq (b_ignore (docker_control be ''rm'' sid)) (release_slot sid)) (\<lambda>r u. r = Inr () \<and> slot_free be sid u \<and> E u) w"
proof -
  have "wp R (release_slot sid) (\<lambda>r u. r = Inr () \<and> slot_free be sid u \<and> E u) v"
    if v: "rm \<in> set (docker_log v)" "E v" for v
  proof (rule wp_release_slot [OF rely])
    fix u assume "u = v \<or> R v u"
    then have "rm \<in> set (docker_log u)" and e: "\<And>pid. b_exited pid v \<Longrightarrow> b_exited pid u"
      using v rely_steps [OF rely] by blast+
    moreover have "E ((free_slot sid u)\<lparr>b_held := removeAll BrokerLock (b_held u)\<rparr>)"
      by (rule keep [OF _ v(2)]) (simp add: e)
    ultimately show "Inr () = Inr () \<and> slot_free be sid ((free_slot sid u)\<lparr>b_held := removeAll BrokerLock (b_held u)\<rparr>)
        \<and> E ((free_slot sid u)\<lparr>b_held := removeAll BrokerLock (b_held u)\<rparr>)"
      by (simp add: c)
  qed
  moreover have "E v" if "\<And>pid. b_exited pid w \<Longrightarrow> b_exited pid v" for v using keep that assms(4) by blast
  ultimately show ?thesis by (intro wp_ignore_control [OF rely c]) blast
qed

text \<open>The clean-up, once the process \<open>pid\<close> (when there is one) has been dealt with.\<close>

lemma wp_kill_and_wait:
  assumes rely: "handler_rely R"
  shows "wp R (seq (b_kill pid) (b_wait pid)) (\<lambda>r u. r = Inl ProcessLookupError \<or> r = Inr () \<and> b_exited pid u) w"
proof -
  have "wp R (b_wait pid) (\<lambda>r u. r = Inl ProcessLookupError \<or> r = Inr () \<and> b_exited pid u) u" for u
    unfolding b_wait_def by (rule wp_handler_waiting [OF rely]) simp
  then show ?thesis by (simp add: b_kill_def wp_simps split: option.split)
qed

lemma wp_kill_container:
  assumes rely: "handler_rely R" and c: "control_command (oci be) ''kill'' sid = Inr argv"
  shows "wp R (look (\<lambda>w. if b_exited pid w then return ()
      else seq (b_ignore (docker_control be ''kill'' sid)) (seq (b_kill pid) (b_wait pid))))
    (\<lambda>r u. r = Inl ProcessLookupError \<or> r = Inr () \<and> b_exited pid u) w"
proof -
  let ?Q = "\<lambda>r u. r = Inl ProcessLookupError \<or> r = Inr () \<and> b_exited pid u"
  have "wp R (seq (b_ignore (docker_control be ''kill'' sid)) (seq (b_kill pid) (b_wait pid))) ?Q w"
    by (rule wp_ignore_control [OF rely c]) (rule wp_kill_and_wait [OF rely])
  then show ?thesis by (simp add: wp_simps(1,4))
qed

definition worker_over :: "nat option \<Rightarrow> bworld \<Rightarrow> bool" where
  "worker_over process u \<longleftrightarrow> (\<forall>pid. process = Some pid \<longrightarrow> b_exited pid u)"

lemma wp_cleanup_rest:
  assumes "handler_rely R" "control_command (oci be) ''rm'' sid = Inr rm" "worker_over process w"
  shows "wp R (seq (b_ignore (docker_control be ''rm'' sid)) (release_slot sid))
    (\<lambda>r u. r = Inl ProcessLookupError \<or> r = Inr () \<and> slot_free be sid u \<and> worker_over process u) w"
proof (rule wp_mono)
  show "wp R (seq (b_ignore (docker_control be ''rm'' sid)) (release_slot sid))
      (\<lambda>r u. r = Inr () \<and> slot_free be sid u \<and> worker_over process u) w"
    by (rule wp_remove_and_free [OF assms(1,2)]) (use assms(3) in \<open>simp_all add: worker_over_def\<close>)
qed blast

lemma wp_worker_cleanup:
  assumes rely: "handler_rely R" and sid: "fullmatch SESSION_ID_PATTERN sid"
  shows "wp R (worker_cleanup be sid process)
    (\<lambda>r u. r = Inl ProcessLookupError \<or> r = Inr () \<and> slot_free be sid u \<and> worker_over process u) w"
proof -
  obtain kill rm where c: "control_command (oci be) ''kill'' sid = Inr kill" "control_command (oci be) ''rm'' sid = Inr rm"
    using valid_control [OF sid, of "oci be"] by (elim exE)
  note rest = wp_cleanup_rest [OF rely c(2)]
  show ?thesis
    unfolding worker_cleanup_def
  proof (cases process)
    case None
    show "wp R (seq (case process of None \<Rightarrow> return () | Some pid \<Rightarrow> look (\<lambda>w. if b_exited pid w then return ()
          else seq (b_ignore (docker_control be ''kill'' sid)) (seq (b_kill pid) (b_wait pid))))
        (seq (b_ignore (docker_control be ''rm'' sid)) (release_slot sid)))
      (\<lambda>r u. r = Inl ProcessLookupError \<or> r = Inr () \<and> slot_free be sid u \<and> worker_over process u) w"
      unfolding None option.case
      by (rule wp_seqI [where P = "\<lambda>r u. r = Inr () \<and> u = w"])
        (use rest [of None w] in \<open>simp_all add: wp_simps(1) worker_over_def\<close>)
  next
    case (Some pid)
    show "wp R (seq (case process of None \<Rightarrow> return () | Some pid \<Rightarrow> look (\<lambda>w. if b_exited pid w then return ()
          else seq (b_ignore (docker_control be ''kill'' sid)) (seq (b_kill pid) (b_wait pid))))
        (seq (b_ignore (docker_control be ''rm'' sid)) (release_slot sid)))
      (\<lambda>r u. r = Inl ProcessLookupError \<or> r = Inr () \<and> slot_free be sid u \<and> worker_over process u) w"
      unfolding Some option.case
      by (rule wp_seqI [OF wp_kill_container [OF rely c(1)]])
        (use rest [of "Some pid"] in \<open>auto simp: worker_over_def\<close>)
  qed
qed

subsection \<open>Slots\<close>

text \<open>
  C3. Under every interleaving of connections, workers, reconciliations and shutdown, the broker's
  table of workers lists each session once, never more than the configured number of them, and only
  valid session ids, for which every Docker command can be built.
\<close>

theorem slots_any_interleaving:
  assumes "broker_reachable be sys"
  shows "distinct (active (b_world sys))
    \<and> int (length (active (b_world sys))) \<le> max 0 (max_workers (oci be))
    \<and> list_all (fullmatch SESSION_ID_PATTERN) (active (b_world sys))"
proof -
  have "table_ok be (b_world sys)"
    by (rule table_law.broker_reachable_law [OF assms]) (simp add: table_ok_def broker_world_def)
  then show ?thesis by (simp add: table_ok_def)
qed

text \<open>
  C8. A slot is given back and its container removed, however the worker ends: when the part of a
  connection that holds a slot is over, whatever other tasks did meanwhile, the session is no longer in
  the table, has no process in it, and the removal of its container was commanded; the one exception
  is a \<open>ProcessLookupError\<close> from the signal to a worker that has just ended.
\<close>

theorem slot_released:
  assumes "handler_rely R" "fullmatch SESSION_ID_PATTERN (req_session_id request)"
    and "ends R (run_claimed be c request) w r w'"
  shows "r = Inl ProcessLookupError \<or> slot_free be (req_session_id request) w'"
proof -
  let ?sid = "req_session_id request"
  have clean: "wp R (worker_cleanup be ?sid process) (\<lambda>r u. r = Inl ProcessLookupError
      \<or> r = Inr () \<and> slot_free be ?sid u) v" for process v
    by (rule wp_mono [OF wp_worker_cleanup [OF assms(1,2)]]) blast
  have after: "wp R (always p (worker_cleanup be ?sid process)) (\<lambda>r u. r = Inl ProcessLookupError \<or> slot_free be ?sid u) v"
    for p :: "unit btask" and process v
    unfolding wp_simps(9) by (rule wp_any) (rule wp_mono [OF clean], auto)
  have "wp R (run_claimed be c request) (\<lambda>r u. r = Inl ProcessLookupError \<or> slot_free be ?sid u) w"
    unfolding run_claimed_def wp_outcome
    by (rule wp_any) (simp split: sum.split option.split add: after)
  from wp_sound [OF assms(3) this] show ?thesis .
qed

subsection \<open>Exhibiting a run\<close>

lemma ends_waiting:
  "R w u \<Longrightarrow> b u \<Longrightarrow> \<not> b_cancelled u \<Longrightarrow> f i u = (w', r) \<Longrightarrow> ends R (waiting b f) w r w'"
  unfolding waiting_def by (rule ends.ends_Await [of R w u _ _ i]) (auto intro: ends.ends_Ret)

lemma ends_b_ignore: "ends R p w (Inr x) u \<Longrightarrow> ends R (b_ignore p) w (Inr ()) u"
  unfolding b_ignore_def by (rule ends_then_do) (auto intro: ends_return)

lemma ends_b_locked:
  assumes "l \<notin> set (b_held w)" "ends R p (w\<lparr>b_held := l # b_held w\<rparr>) r u"
  shows "ends R (b_locked l p) w r (u\<lparr>b_held := removeAll l (b_held u)\<rparr>)"
  unfolding b_locked_def
  by (rule ends_seq [OF ends_look ends_always [OF assms(2) ends_change]]) (use assms(1) ends_change in simp)

definition docker_replies :: binput where
  "docker_replies = \<lparr>bi_clock = 0, bi_timeout = False, bi_drain = None,
     bi_spawn = Inr \<lparr>dp_returncode = None, dp_gone = False, dp_has_stdin = True, dp_stdin = [], dp_stdout = Some [],
       dp_stderr = Some [], dp_killed = False\<rparr>, bi_status = Some 0, bi_output = [], bi_size = 0, bi_done = {}\<rparr>"

lemma ends_docker_control:
  assumes "control_command (oci be) action sid = Inr argv"
    and "R w w" "\<not> b_cancelled w" "R (w\<lparr>docker_log := docker_log w @ [argv]\<rparr>) v" "\<not> b_cancelled v"
  shows "ends R (docker_control be action sid) w (Inr True) v"
proof -
  have "ends R (run_docker argv) w (Inr ()) (w\<lparr>docker_log := docker_log w @ [argv]\<rparr>)"
    unfolding run_docker_def
    by (rule ends_waiting [where u = w and i = docker_replies]) (simp_all add: assms docker_replies_def)
  moreover have "ends R docker_finish (w\<lparr>docker_log := docker_log w @ [argv]\<rparr>) (Inr (0, [])) v"
    unfolding docker_finish_def
    by (rule ends_waiting [where u = v and i = docker_replies]) (simp_all add: assms docker_replies_def)
  ultimately show ?thesis
    unfolding docker_control_def assms(1) b_sum_def sum.case
    by (intro ends_on_error ends_seq ends_then_do) (auto intro: ends_return [where x = True, simplified])
qed

text \<open>
  The exception of the theorem above does happen: the worker may exit, and its transport drop it, while
  the broker waits for \<open>docker kill\<close>.
\<close>

definition worker_may_exit :: "nat \<Rightarrow> bworld \<Rightarrow> bworld \<Rightarrow> bool" where
  "worker_may_exit pid u v \<longleftrightarrow>
     v = u \<or> v = update_docker pid (\<lambda>k. k\<lparr>dp_returncode := Some 137, dp_gone := True\<rparr>) u"

theorem slot_leaks:
  assumes "fullmatch SESSION_ID_PATTERN sid" "docker_procs w pid = Some k" "dp_returncode k = None"
    and "sid \<in> set (active w)" "\<not> b_cancelled w"
  shows "\<exists>w'. ends (worker_may_exit pid) (worker_cleanup be sid (Some pid)) w (Inl ProcessLookupError) w'
    \<and> sid \<in> set (active w')"
proof -
  let ?R = "worker_may_exit pid"
  obtain argv where argv: "control_command (oci be) ''kill'' sid = Inr argv"
    using valid_control(1) [OF assms(1), of "oci be"] by (elim exE)
  let ?v = "update_docker pid (\<lambda>k. k\<lparr>dp_returncode := Some 137, dp_gone := True\<rparr>) (w\<lparr>docker_log := docker_log w @ [argv]\<rparr>)"
  have "ends ?R (docker_control be ''kill'' sid) w (Inr True) ?v"
    by (rule ends_docker_control [OF argv]) (use assms(5) in \<open>simp_all add: worker_may_exit_def update_docker_def b_cancelled_def\<close>)
  moreover have "ends ?R (b_kill pid) ?v (Inl ProcessLookupError) ?v"
    unfolding b_kill_def by (rule ends_look) (simp add: update_docker_def assms(2) ends_raising)
  moreover have "\<not> b_exited pid w" using assms(2,3) by (simp add: b_exited_def b_exit_def)
  ultimately have "ends ?R (worker_cleanup be sid (Some pid)) w (Inl ProcessLookupError) ?v"
    unfolding worker_cleanup_def option.case
    by (intro ends_seq_raises ends_look) (auto intro: ends_seq ends_seq_raises ends_b_ignore)
  then show ?thesis using assms(4) by (auto simp: update_docker_def)
qed

subsection \<open>The output of a worker\<close>

text \<open>The bytes sent on a connection as output of one kind, and the allowance left.\<close>

definition relayed :: "nat \<Rightarrow> frame_kind \<Rightarrow> bworld \<Rightarrow> bytes" where
  "relayed c k w = (case conns w c of None \<Rightarrow> []
     | Some n \<Rightarrow> concat (map payload_of (filter (\<lambda>f. kind_of f = k) (sent n))))"

definition has_budget :: "nat \<Rightarrow> int \<Rightarrow> bworld \<Rightarrow> bool" where
  "has_budget c n w \<longleftrightarrow> conns w c \<noteq> None \<and> (\<exists>b. budgets w c = Some b \<and> 0 \<le> budget_remaining b \<and> budget_remaining b \<le> n)"

definition over_budget :: "nat \<Rightarrow> bworld \<Rightarrow> bool" where
  "over_budget c w = (case budgets w c of None \<Rightarrow> False | Some b \<Rightarrow> budget_exceeded b)"

text \<open>The other tasks send no output of this kind, and only use the allowance up.\<close>

definition pump_rely :: "nat \<Rightarrow> frame_kind \<Rightarrow> (bworld \<Rightarrow> bworld \<Rightarrow> bool) \<Rightarrow> bool" where
  "pump_rely c k R \<longleftrightarrow> (\<forall>u v. R u v \<longrightarrow> relayed c k v = relayed c k u \<and> (\<forall>n. has_budget c n u \<longrightarrow> has_budget c n v)
     \<and> (over_budget c u \<longrightarrow> over_budget c v))"

lemma relayed_frame [simp]:
  "relayed c k (w\<lparr>b_held := h\<rparr>) = relayed c k w" "relayed c k (w\<lparr>b_cancels := g\<rparr>) = relayed c k w"
  "has_budget c n (w\<lparr>b_held := h\<rparr>) = has_budget c n w" "has_budget c n (w\<lparr>b_cancels := g\<rparr>) = has_budget c n w"
  "over_budget c (w\<lparr>b_held := h\<rparr>) = over_budget c w" "over_budget c (w\<lparr>b_cancels := g\<rparr>) = over_budget c w"
  "relayed c k (w\<lparr>budgets := f\<rparr>) = relayed c k w"
  by (simp_all add: relayed_def has_budget_def over_budget_def)

lemma wp_b_locked_any:
  assumes "\<And>u v. S u \<Longrightarrow> R u v \<Longrightarrow> S v" "\<And>u h. S u \<Longrightarrow> S (u\<lparr>b_held := h\<rparr>)" "\<And>u g. S u \<Longrightarrow> S (u\<lparr>b_cancels := g\<rparr>)"
    and "S w" "\<And>u. S u \<Longrightarrow> wp R p (\<lambda>r v. Q r (v\<lparr>b_held := removeAll l (b_held v)\<rparr>)) u"
    and "\<And>u. S u \<Longrightarrow> Q (Inl CancelledError) u"
  shows "wp R (b_locked l p) Q w"
proof -
  have body: "wp R (always p (change (\<lambda>w. w\<lparr>b_held := removeAll l (b_held w)\<rparr>))) Q u" if "S u" for u
    using assms(5) [OF that] by (simp add: wp_simps)
  show ?thesis
    unfolding b_locked_def wp_simps(4,7)
    by (auto simp: wp_simps(3) wp_waiting intro!: body assms(2,3,6) intro: assms(1,4))
qed

definition pumped :: "nat \<Rightarrow> frame_kind \<Rightarrow> int \<Rightarrow> nat \<Rightarrow> bytes \<Rightarrow> bworld \<Rightarrow> bool" where
  "pumped c k limit used xs u \<longleftrightarrow> relayed c k u = xs \<and> has_budget c (limit - int used) u"

lemma pumped_frame [simp]:
  "pumped c k limit used xs (w\<lparr>b_held := h\<rparr>) = pumped c k limit used xs w"
  "pumped c k limit used xs (w\<lparr>b_cancels := g\<rparr>) = pumped c k limit used xs w"
  by (simp_all add: pumped_def)

lemma pumped_less: "pumped c k limit used xs u \<Longrightarrow> used' \<le> used \<Longrightarrow> pumped c k limit used' xs u"
  by (force simp: pumped_def has_budget_def)

lemma pumped_rely: "pump_rely c k R \<Longrightarrow> pumped c k limit used xs u \<Longrightarrow> R u v \<Longrightarrow> pumped c k limit used xs v"
  unfolding pump_rely_def pumped_def by blast

lemma wp_consume:
  assumes rely: "pump_rely c k R" and "pumped c k limit used xs w"
    and "\<And>u. pumped c k limit (used + n) xs u \<Longrightarrow> Q (Inr True) u"
    and "\<And>u. pumped c k limit used xs u \<Longrightarrow> over_budget c u \<Longrightarrow> Q (Inr False) u"
    and "\<And>e u. pumped c k limit used xs u \<Longrightarrow> Q (Inl e) u"
  shows "wp R (consume c (int n)) Q w"
  unfolding consume_def
proof (rule wp_b_locked_any [where S = "pumped c k limit used xs"])
  fix u
  assume u: "pumped c k limit used xs u"
  then obtain b where b: "budgets u c = Some b" "0 \<le> budget_remaining b" "budget_remaining b \<le> limit - int used" "conns u c \<noteq> None"
    by (auto simp: pumped_def has_budget_def)
  let ?u = "\<lambda>b'. u\<lparr>budgets := (budgets u)(c \<mapsto> b'), b_held := removeAll (BudgetLock c) (b_held u)\<rparr>"
  have grant: "pumped c k limit (used + n) xs (?u (b\<lparr>budget_remaining := budget_remaining b - int n\<rparr>))" if "int n \<le> budget_remaining b"
    using u b that by (simp add: pumped_def has_budget_def)
  have deny: "pumped c k limit used xs (?u (b\<lparr>budget_exceeded := True\<rparr>))" "over_budget c (?u (b\<lparr>budget_exceeded := True\<rparr>))"
    using u b by (simp_all add: pumped_def has_budget_def over_budget_def)
  show "wp R (Do (\<lambda>w. case budgets w c of None \<Rightarrow> (w, Ret (Inl (RuntimeError ''no output budget'')))
       | Some b \<Rightarrow> (case take_budget (int n) b of (b', granted) \<Rightarrow> (w\<lparr>budgets := (budgets w)(c \<mapsto> b')\<rparr>, Ret (Inr granted)))))
     (\<lambda>r v. Q r (v\<lparr>b_held := removeAll (BudgetLock c) (b_held v)\<rparr>)) u"
    using b(1) grant deny by (auto simp: take_budget_def intro!: assms(3,4))
qed (use assms pumped_rely [OF rely] in simp_all)

lemma wp_send_frame:
  assumes rely: "pump_rely c k R" and "pumped c k limit used xs w" "length payload \<le> MAX_FRAME_PAYLOAD"
    and "\<And>r u. pumped c k limit used (xs @ payload) u \<Longrightarrow> Q r u"
    and "\<And>e u. pumped c k limit used xs u \<Longrightarrow> Q (Inl e) u"
  shows "wp R (send_frame c k payload) Q w"
proof -
  have "wp R (b_locked (FrameLock c)
        (seq (change (update_conn c (\<lambda>n. n\<lparr>sent := sent n @ [\<lparr>kind_of = k, payload_of = payload\<rparr>]\<rparr>)))
          (waiting (\<lambda>w. True) (\<lambda>i w. (w, case bi_drain i of None \<Rightarrow> Inr () | Some e \<Rightarrow> Inl e))))) Q w"
  proof (rule wp_b_locked_any [where S = "pumped c k limit used xs"])
    fix u
    assume u: "pumped c k limit used xs u"
    then have "pumped c k limit used (xs @ payload) (update_conn c (\<lambda>n. n\<lparr>sent := sent n @ [\<lparr>kind_of = k, payload_of = payload\<rparr>]\<rparr>) u)"
      by (auto simp: pumped_def relayed_def has_budget_def update_conn_def)
    then show "wp R (seq (change (update_conn c (\<lambda>n. n\<lparr>sent := sent n @ [\<lparr>kind_of = k, payload_of = payload\<rparr>]\<rparr>)))
          (waiting (\<lambda>w. True) (\<lambda>i w. (w, case bi_drain i of None \<Rightarrow> Inr () | Some e \<Rightarrow> Inl e))))
        (\<lambda>r v. Q r (v\<lparr>b_held := removeAll (FrameLock c) (b_held v)\<rparr>)) u"
      by (auto simp: wp_simps wp_waiting intro!: assms(4) dest: pumped_rely [OF rely])
  qed (use assms pumped_rely [OF rely] in simp_all)
  then show ?thesis using assms(3) by (simp add: send_frame_def)
qed

lemma wp_pump:
  assumes rely: "pump_rely c k R" and "pumped c k limit (length xs - base) xs w" "base \<le> length xs"
  shows "wp R (pump c k bs) (\<lambda>r u. \<exists>n. pumped c k limit (length xs + n - base) (xs @ take n bs) u \<and> n \<le> length bs
      \<and> (r = Inr () \<longrightarrow> over_budget c u \<or> n = length bs)) w"
  using assms(2,3)
proof (induction bs arbitrary: xs w rule: length_induct)
  case (1 bs)
  let ?Q = "\<lambda>(r :: exn + unit) u. \<exists>n. pumped c k limit (length xs + n - base) (xs @ take n bs) u \<and> n \<le> length bs
      \<and> (r = Inr () \<longrightarrow> over_budget c u \<or> n = length bs)"
  have none: "?Q r u" if "pumped c k limit (length xs - base) xs u" "r = Inr () \<longrightarrow> over_budget c u \<or> bs = []" for r u
    using that by (intro exI [of _ 0]) auto
  have step: "wp R (then_do (consume c (int (length (take m bs)))) (\<lambda>granted.
       if \<not> granted then return () else seq (send_frame c k (take m bs)) (pump c k (drop m bs)))) ?Q u"
    if u: "pumped c k limit (length xs - base) xs u" "bs \<noteq> []" and m: "0 < m" "m \<le> MAX_STREAM_CHUNK" for u m
  proof -
    have size: "length (take m bs) \<le> MAX_FRAME_PAYLOAD"
      using m(2) by (simp add: MAX_STREAM_CHUNK_def MAX_FRAME_PAYLOAD_def)
    have used: "length xs - base + length (take m bs) = length (xs @ take m bs) - base" using 1(3) by simp
    have rest: "wp R (pump c k (drop m bs)) ?Q v"
      if v: "pumped c k limit (length (xs @ take m bs) - base) (xs @ take m bs) v" for v
    proof (rule wp_mono)
      have "length (drop m bs) < length bs" using u(2) m(1) by (cases bs) auto
      then show "wp R (pump c k (drop m bs)) (\<lambda>r u. \<exists>n. pumped c k limit (length (xs @ take m bs) + n - base)
          ((xs @ take m bs) @ take n (drop m bs)) u \<and> n \<le> length (drop m bs)
          \<and> (r = Inr () \<longrightarrow> over_budget c u \<or> n = length (drop m bs))) v"
        by (intro 1(1) [rule_format] v) (use 1(3) in \<open>simp_all add: trans_le_add1\<close>)
    next
      fix r :: "exn + unit" and u
      assume "\<exists>n. pumped c k limit (length (xs @ take m bs) + n - base)
          ((xs @ take m bs) @ take n (drop m bs)) u \<and> n \<le> length (drop m bs)
          \<and> (r = Inr () \<longrightarrow> over_budget c u \<or> n = length (drop m bs))"
      then obtain n where n: "pumped c k limit (length (xs @ take m bs) + n - base) ((xs @ take m bs) @ take n (drop m bs)) u"
        "n \<le> length (drop m bs)" "r = Inr () \<longrightarrow> over_budget c u \<or> n = length (drop m bs)" by blast
      have "take (length (take m bs) + n) bs = take m bs @ take n (drop m bs)"
        by (cases "m \<le> length bs") (simp_all add: take_add)
      moreover have "length (take m bs) + n \<le> length bs" "n = length (drop m bs) \<longrightarrow> length (take m bs) + n = length bs"
        using n(2) by auto
      ultimately show "?Q r u" using n by (intro exI [of _ "length (take m bs) + n"]) (auto simp: add.assoc)
    qed
    have gone: "?Q r v" if "pumped c k limit (length (xs @ take m bs) - base) (xs @ take m bs) v" "r \<noteq> Inr ()" for r v
      using that by (intro exI [of _ "length (take m bs)"]) (auto simp: take_all_iff min_def)
    have paid: "?Q r v" if "pumped c k limit (length (xs @ take m bs) - base) xs v" "r \<noteq> Inr ()" for r v
      by (rule none) (use that pumped_less [OF that(1), of "length xs - base"] in auto)
    have err: "Inl e \<noteq> (Inr () :: exn + unit)" for e by simp
    show ?thesis
      unfolding wp_simps(6)
    proof (rule wp_consume [OF rely u(1)])
      fix v assume v: "pumped c k limit (length xs - base + length (take m bs)) xs v"
      show "case Inr True of Inl e \<Rightarrow> ?Q (Inl e) v | Inr granted \<Rightarrow> wp R (if \<not> granted then return ()
          else seq (send_frame c k (take m bs)) (pump c k (drop m bs))) ?Q v"
        unfolding sum.case wp_simps(7) if_False simp_thms
      proof (rule wp_send_frame [OF rely v [unfolded used] size])
        fix r :: "exn + unit" and v'
        assume v': "pumped c k limit (length (xs @ take m bs) - base) (xs @ take m bs) v'"
        show "case r of Inl e \<Rightarrow> ?Q (Inl e) v' | Inr x \<Rightarrow> wp R (pump c k (drop m bs)) ?Q v'"
        proof (cases r)
          case (Inl e)
          then show ?thesis using gone [OF v' err [of e]] by (simp only: sum.case)
        next
          case (Inr x)
          with rest [OF v'] show ?thesis by (simp only: sum.case)
        qed
      next
        fix e v'
        assume v': "pumped c k limit (length (xs @ take m bs) - base) xs v'"
        show "case Inl e of Inl e \<Rightarrow> ?Q (Inl e) v' | Inr x \<Rightarrow> wp R (pump c k (drop m bs)) ?Q v'"
          unfolding sum.case by (rule paid [OF v' err])
      qed
    next
      fix v assume v: "pumped c k limit (length xs - base) xs v" "over_budget c v"
      show "case Inr False of Inl e \<Rightarrow> ?Q (Inl e) v | Inr granted \<Rightarrow> wp R (if \<not> granted then return ()
          else seq (send_frame c k (take m bs)) (pump c k (drop m bs))) ?Q v"
        unfolding sum.case wp_simps(1) if_True not_False_eq_True by (rule none [OF v(1)]) (simp add: v(2))
    next
      fix e v assume v: "pumped c k limit (length xs - base) xs v"
      show "case Inl e of Inl e \<Rightarrow> ?Q (Inl e) v | Inr granted \<Rightarrow> wp R (if \<not> granted then return ()
          else seq (send_frame c k (take m bs)) (pump c k (drop m bs))) ?Q v"
        unfolding sum.case by (rule none [OF v]) simp
    qed
  qed
  have at_end: "wp R (return ()) ?Q u" if "pumped c k limit (length xs - base) xs u" "bs = []" for u
    unfolding wp_simps(1) by (rule none [OF that(1)]) (simp add: that(2))
  have each: "wp R (if bs = [] then return () else then_do (consume c (int (length (take (read_size n) bs)))) (\<lambda>granted.
       if \<not> granted then return ()
       else seq (send_frame c k (take (read_size n) bs)) (pump c k (drop (read_size n) bs)))) ?Q u"
    if "pumped c k limit (length xs - base) xs u" for u n
  proof (cases "bs = []")
    case True
    then show ?thesis unfolding if_P [OF True] by (rule at_end [OF that])
  next
    case False
    show ?thesis unfolding if_not_P [OF False] by (rule step [OF that False]) simp_all
  qed
  show ?case
    unfolding pump.simps [of c k bs] wp.simps map_prod_simp prod.case id_apply simp_thms
    by (intro allI impI each) (rule pumped_rely [OF rely 1(2)])
qed

text \<open>
  A worker's output is relayed faithfully and within the budget: whatever the other tasks do, a
  pump that ends has sent an initial piece of the worker's output, in order and without gaps, no longer
  than the allowance there was at its start; and when it ends normally it has sent all of it, unless the
  budget was exceeded.
\<close>

theorem output_relayed:
  assumes "pump_rely c k R" "conns w c \<noteq> None" "budgets w c = Some b" "0 \<le> budget_remaining b"
    and "ends R (pump_output c (Some bs) k) w r w'"
  shows "\<exists>n\<le>length bs. relayed c k w' = relayed c k w @ take n bs \<and> int n \<le> budget_remaining b
    \<and> (r = Inr () \<longrightarrow> over_budget c w' \<or> n = length bs)"
proof -
  let ?xs = "relayed c k w"
  have "pumped c k (budget_remaining b) (length ?xs - length ?xs) ?xs w"
    using assms(2-4) by (simp add: pumped_def has_budget_def)
  from wp_pump [OF assms(1) this order_refl, of bs] assms(5)
  obtain n where "pumped c k (budget_remaining b) (length ?xs + n - length ?xs) (?xs @ take n bs) w'" "n \<le> length bs"
    "r = Inr () \<longrightarrow> over_budget c w' \<or> n = length bs"
    unfolding pump_output_def option.case by (blast dest: wp_sound)
  then show ?thesis by (intro exI [of _ n]) (auto simp: pumped_def has_budget_def)
qed

end
