(* ===== verification/Broker_Start.thy ===== *)
theory Broker_Start
  imports Broker_Properties
begin

section \<open>Start, strangers and the runtime check of the worker broker\<close>

text \<open>
  What a successful start has done to the file system, what a connection of another user can cause, and
  how the periodic check of the runtime ends.
\<close>

subsection \<open>The socket\<close>

lemma walk_elsewhere:
  "walk links fs done todo = Inr ds \<Longrightarrow> p \<noteq> Abs ds \<Longrightarrow> (\<And>n. fs p = Some n \<Longrightarrow> \<not> is_dir (kind n) \<and> \<not> is_lnk (kind n)) \<Longrightarrow>
    walk links (fs(p := x)) done todo = Inr ds"
proof (induction links fs "done" todo rule: walk.induct)
  case (1 links fs "done")
  then show ?case by simp
next
  case (2 links fs "done" c todo)
  show ?case
  proof (cases "c = ''..''")
    case True
    then show ?thesis using 2 by simp
  next
    case False
    then obtain node where node: "fs (Abs (done @ [c])) = Some node" using 2 by (cases "fs (Abs (done @ [c]))") auto
    show ?thesis
    proof (cases "p = Abs (done @ [c])")
      case True
      then show ?thesis using 2 False node by (auto split: file_kind.splits if_splits)
    next
      case other: False
      then have node': "(fs(p := x)) (Abs (done @ [c])) = Some node" using node by simp
      show ?thesis
      proof (cases "kind node")
        case Directory
        with "2.IH"(2) [OF False node Directory] 2 False node node' show ?thesis by simp
      next
        case (Symlink target)
        then show ?thesis using 2 False node node' by (cases target) (auto split: if_splits)
      qed (use "2.prems" False node node' in \<open>auto split: if_splits\<close>)
    qed
  qed
qed

lemma resolve_elsewhere:
  assumes "resolve_strict fs q = Inr d" "\<And>n. fs (child d c) = Some n \<Longrightarrow> is_sock (kind n)"
  shows "resolve_strict (fs(child d c := x)) q = Inr d"
proof -
  obtain ds where ds: "walk 0 fs [] (parts q) = Inr ds" "d = Abs ds"
    using assms(1) by (auto simp: resolve_strict_def split: sum.splits)
  have "\<not> is_dir (kind n) \<and> \<not> is_lnk (kind n)" if "fs (child d c) = Some n" for n
    using assms(2) [OF that] by (cases "kind n") auto
  with walk_elsewhere [OF ds(1), of "child d c" x] ds(2) show ?thesis by (simp add: resolve_strict_def)
qed

lemma socket_path_elsewhere:
  assumes "resolve_strict fs (parent (broker_socket (oci be))) = Inr d"
    and "\<And>n. fs (socket_path be fs) = Some n \<Longrightarrow> is_sock (kind n)"
  shows "socket_path be (fs(socket_path be fs := x)) = socket_path be fs"
proof -
  have p: "socket_path be fs = child d (last (parts (broker_socket (oci be))))" using assms(1) by (simp add: socket_path_def)
  have "resolve_strict (fs(child d (last (parts (broker_socket (oci be)))) := x)) (parent (broker_socket (oci be))) = Inr d"
    by (rule resolve_elsewhere [OF assms(1)]) (use assms(2) p in simp)
  then show ?thesis unfolding p by (simp add: socket_path_def)
qed
definition own_socket :: "broker_env \<Rightarrow> node" where
  "own_socket be = \<lparr>kind = Socket, mode = octal [6, 6, 0], uid = my_uid (broker_id be), gid = shared_group_gid (oci be)\<rparr>"

text \<open>The file steps of the start, one after the other.\<close>

lemma socket_steps:
  assumes socket_parts: "parts (broker_socket (oci be)) \<noteq> []" and "remove_stale_socket be fs = Inr fs1" "bind_unix be fs1 = Inr fs2"
  shows "chmod (socket_path be fs2) (octal [6, 6, 0]) (chgrp (socket_path be fs2) (shared_group_gid (oci be)) fs2)
      = fs(socket_path be fs \<mapsto> own_socket be)
    \<and> (\<forall>n. fs (socket_path be fs) = Some n \<longrightarrow> kind n = Socket \<and> uid n = my_uid (broker_id be))"
proof -
  let ?p = "socket_path be fs"
  obtain d where d: "resolve_strict fs1 (parent (broker_socket (oci be))) = Inr d" and free: "fs1 (socket_path be fs1) = None"
    and fs2: "fs2 = fs1(socket_path be fs1 \<mapsto> \<lparr>kind = Socket, mode = octal [7, 7, 7] - (octal [7, 7, 7] AND umask (broker_id be)),
         uid = my_uid (broker_id be), gid = my_gid (broker_id be)\<rparr>)"
    using assms(3) by (auto simp: bind_unix_def split: if_splits)
  have "socket_path be fs1 = ?p \<and> fs1 = fs(?p := None) \<and>
      (\<forall>n. fs ?p = Some n \<longrightarrow> kind n = Socket \<and> uid n = my_uid (broker_id be))"
  proof (cases "os_lstat fs (broker_socket (oci be))")
    case (Inl e)
    with assms(2) have "fs1 = fs" by (cases e) (simp_all add: remove_stale_socket_def)
    with free show ?thesis by auto
  next
    case (Inr n)
    with assms(2) have n: "is_sock (kind n)" "uid n = my_uid (broker_id be)" "fs1 = unlink ?p fs"
      by (auto simp: remove_stale_socket_def split: if_splits)
    obtain d' where d': "resolve_strict fs (parent (broker_socket (oci be))) = Inr d'" "parts (broker_socket (oci be)) \<noteq> []"
      using Inr socket_parts by (auto simp: os_lstat_def split: sum.splits)
    then have "fs ?p = Some n" using Inr by (simp add: os_lstat_def socket_path_def)
    with n socket_path_elsewhere [OF d'(1), of None] show ?thesis
      by (auto simp: unlink_def elim: is_sock.elims)
  qed
  moreover have "socket_path be fs2 = socket_path be fs1"
    unfolding fs2 by (rule socket_path_elsewhere [OF d]) (simp add: free)
  ultimately show ?thesis by (auto simp: fs2 chmod_def chgrp_def own_socket_def fun_eq_iff)
qed

text \<open>The other tasks leave the files alone, as \<open>files_law\<close> shows they do.\<close>

definition files_kept :: "(bworld \<Rightarrow> bworld \<Rightarrow> bool) \<Rightarrow> bool" where
  "files_kept R \<longleftrightarrow> (\<forall>u v. R u v \<longrightarrow> broker_files v = broker_files u)"

definition on_success :: "(bworld \<Rightarrow> bool) \<Rightarrow> exn + 'a \<Rightarrow> bworld \<Rightarrow> bool" where
  "on_success P r w \<longleftrightarrow> (case r of Inl e \<Rightarrow> True | Inr x \<Rightarrow> P w)"

lemma on_success_simps [simp]: "on_success P (Inl e) w" "on_success P (Inr x) w \<longleftrightarrow> P w"
  by (simp_all add: on_success_def)

lemma wp_seq_success:
  assumes "wp R p (on_success S) w" "\<And>u. S u \<Longrightarrow> wp R q (on_success T) u"
  shows "wp R (seq p q) (on_success T) w"
  by (rule wp_seqI [OF assms(1)]) (use assms(2) in \<open>auto simp: on_success_def split: sum.splits\<close>)

lemma wp_checked:
  "(\<And>x. f w = Inr x \<Longrightarrow> S w) \<Longrightarrow> wp R (look (\<lambda>w. b_sum (f w) return)) (on_success S) w"
  by (simp add: wp_simps split: sum.split)

lemma wp_files:
  assumes "files_kept R" "safe (\<lambda>w. broker_files w = fs) p" "broker_files w = fs"
  shows "wp R p (on_success (\<lambda>w. broker_files w = fs)) w"
  by (rule wp_mono [OF wp_safe [OF assms(2) _ assms(3)]])
    (use assms(1) in \<open>auto simp: files_kept_def on_success_def split: sum.split\<close>)

lemma wp_file_wait:
  assumes "files_kept R" "broker_files w = fs"
    and "\<And>i u. broker_files u = fs \<Longrightarrow> is_ok (snd (f i u)) \<Longrightarrow> S (fst (f i u))"
  shows "wp R (waiting b f) (on_success S) w"
  using assms by (auto simp: wp_waiting files_kept_def on_success_def is_ok_def split: sum.splits)

lemma wp_socket_stages:
  assumes "files_kept R" "broker_files u = fs"
  shows "wp R (share_socket be) (on_success (\<lambda>v. broker_files v = chmod (socket_path be fs) (octal [6, 6, 0])
      (chgrp (socket_path be fs) (shared_group_gid (oci be)) fs))) u"
    "wp R (bind_socket be) (on_success (\<lambda>v. bind_unix be fs = Inr (broker_files v))) u"
    "wp R (broker_file_step (remove_stale_socket be)) (on_success (\<lambda>v. remove_stale_socket be fs = Inr (broker_files v))) u"
  unfolding share_socket_def bind_socket_def broker_file_step_def
    apply (rule wp_file_wait [OF assms]; auto split: option.splits)
   apply (rule wp_file_wait [OF assms]; auto split: option.splits sum.splits)
  apply (auto simp: wp_simps assms(2) split: sum.split)
  done

lemma wp_verification:
  assumes "files_kept R" "broker_files u = fs"
  shows "wp R (if verify then seq (verify_runtime be) (reconcile_managed_containers be False) else return ())
    (on_success (\<lambda>v. broker_files v = fs)) u"
  by (rule wp_files [OF assms(1) _ assms(2)]) (intro safe_intro files_law.safe_runtime)

text \<open>
  C15. The broker listens on its own, private socket only: when its start succeeds, whatever other tasks
  did meanwhile, the settings passed their validation, the directory of the socket is a real one of the
  shared group that others cannot enter, at the socket's place there was nothing or an old socket of the
  broker's own user, and now there is its socket, open to the shared group and closed to others; no other
  file has changed.
\<close>

theorem start_private:
  assumes "files_kept R" "parts (broker_socket (oci be)) \<noteq> []"
    and "ends R (broker_start be verify rounds) w (Inr ()) w'"
  shows "validate_oci (broker_files w) (my_uid (broker_id be)) (oci be) = Inr ()
    \<and> (\<exists>n. os_lstat (broker_files w) (parent (broker_socket (oci be))) = Inr n \<and> kind n = Directory
        \<and> gid n = shared_group_gid (oci be) \<and> mode n AND 7 = 0)
    \<and> (\<forall>n. broker_files w (socket_path be (broker_files w)) = Some n \<longrightarrow>
        kind n = Socket \<and> uid n = my_uid (broker_id be))
    \<and> broker_files w' = (broker_files w)(socket_path be (broker_files w) \<mapsto> own_socket be)"
proof -
  let ?f = "broker_files w" and ?p = "socket_path be (broker_files w)"
  let ?A = "validate_oci ?f (my_uid (broker_id be)) (oci be) = Inr ()"
  let ?B = "validate_socket_parent ?f (oci be) = Inr ()"
  let ?final = "?f(?p \<mapsto> own_socket be)"
  let ?E = "\<forall>n. ?f ?p = Some n \<longrightarrow> kind n = Socket \<and> uid n = my_uid (broker_id be)"
  define G where "G u \<longleftrightarrow> ?A \<and> ?B \<and> ?E \<and> broker_files u = ?final" for u :: bworld
  have fin: "G v" if "?A" "?B" "remove_stale_socket be ?f = Inr fs1" "bind_unix be fs1 = Inr fs2"
      "broker_files v = chmod (socket_path be fs2) 432 (chgrp (socket_path be fs2) (shared_group_gid (oci be)) fs2)" for v fs1 fs2
    using socket_steps [OF assms(2) that(3,4)] that by (simp add: G_def)
  have "wp R (broker_start be verify rounds) (on_success G) w"
    unfolding broker_start_def
    apply (rule wp_seq_success [where S = "\<lambda>u. ?A \<and> broker_files u = ?f"])
     apply (rule wp_checked, simp)
    apply (rule wp_seq_success [where S = "\<lambda>u. ?A \<and> ?B \<and> broker_files u = ?f"])
     apply (rule wp_checked, simp)
    apply (rule wp_seq_success [where S = "\<lambda>u. ?A \<and> ?B \<and> broker_files u = ?f"])
     apply (rule wp_mono [OF wp_verification [OF assms(1)]], blast, simp add: on_success_def split: sum.splits)
    apply (rule wp_seq_success [where S = "\<lambda>u. ?A \<and> ?B \<and> broker_files u = ?f"])
     apply (simp add: set_healthy_def wp_simps)
    apply (rule wp_seq_success [where S = "\<lambda>u. ?A \<and> ?B \<and> remove_stale_socket be ?f = Inr (broker_files u)"])
     apply (rule wp_mono [OF wp_socket_stages(3) [OF assms(1)]], blast, simp add: on_success_def split: sum.splits)
    apply (rule wp_seq_success [where S = "\<lambda>u. ?A \<and> ?B \<and> (\<exists>fs1. remove_stale_socket be ?f = Inr fs1 \<and> bind_unix be fs1 = Inr (broker_files u))"])
     apply (rule wp_mono [OF wp_socket_stages(2) [OF assms(1) refl]], auto simp: on_success_def split: sum.splits)[1]
    apply (rule wp_seq_success [where S = G])
     apply (rule wp_mono [OF wp_socket_stages(1) [OF assms(1) refl]],
       auto simp: on_success_def intro: fin split: sum.splits)[1]
    apply (rule wp_seq_success [where S = G])
     apply (simp add: wp_simps G_def)
    apply (simp add: wp_simps G_def b_spawn_def)
    done
  from wp_sound [OF assms(3) this] have "G w'" by simp
  then show ?thesis
    by (auto simp: G_def validate_socket_parent_def elim!: is_dir.elims split: sum.splits exn.splits if_splits)
qed

definition sample_broker :: broker_env where
  "sample_broker = \<lparr>oci = sample_oci, broker_id = \<lparr>my_uid = 7, my_gid = 7, umask = 18\<rparr>, output_limit_bytes = 1000\<rparr>"

definition undisturbed :: "bworld \<Rightarrow> bworld \<Rightarrow> bool" where
  "undisturbed u v \<longleftrightarrow> v = u \<and> \<not> b_cancelled u"

lemma undisturbed_relies:
  "handler_rely undisturbed" "pump_rely c k undisturbed" "files_kept undisturbed"
  by (auto simp: handler_rely_def pump_rely_def files_kept_def undisturbed_def)

lemma ends_undisturbed:
  "\<not> b_cancelled w \<Longrightarrow> b w \<Longrightarrow> f i w = (w', r) \<Longrightarrow> ends undisturbed (waiting b f) w r w'"
  by (rule ends_waiting [of _ w w]) (simp_all add: undisturbed_def)

lemma b_cancelled_frame [simp]:
  "b_cancelled (w\<lparr>broker_files := fs\<rparr>) = b_cancelled w" "b_cancelled (w\<lparr>runtime_healthy := b\<rparr>) = b_cancelled w"
  "b_cancelled (w\<lparr>docker_log := l\<rparr>) = b_cancelled w" "b_cancelled (w\<lparr>b_held := h\<rparr>) = b_cancelled w"
  "\<not> b_cancelled (broker_world fs clock)"
  by (simp_all add: b_cancelled_def broker_world_def)

theorem slots_any_interleaving_witness:
  "list_all (fullmatch SESSION_ID_PATTERN) (active (b_world (broker_step sample_broker (Run 3 docker_replies)
     \<lparr>b_world = broker_world sample_oci_files 0, b_pool = []\<rparr>)))"
  using slots_any_interleaving [OF broker_steps [OF broker_initially]] by blast

theorem slot_released_witness:
  "\<exists>r w'. ends undisturbed (run_claimed sample_broker 0 sample_request)
       ((broker_world (\<lambda>_. None) 0)\<lparr>active := [sample_id]\<rparr>) r w' \<and> sample_id \<notin> set (active w')"
proof -
  let ?w = "(broker_world (\<lambda>_. None) 0)\<lparr>active := [sample_id]\<rparr>"
  have sid: "fullmatch SESSION_ID_PATTERN (req_session_id sample_request)"
    by (simp add: SESSION_ID_PATTERN_iff sample_request_def sample_id_def in_class_def hex_class_def list_all_iff)
  then obtain argv where argv: "control_command (oci sample_broker) ''rm'' (req_session_id sample_request) = Inr argv"
    using valid_control(2) by blast
  obtain e where "build_worker_command (\<lambda>_. None) sample_oci sample_request = Inl e" "e \<noteq> ProcessLookupError"
    by (simp add: build_worker_command_def session_directory_def os_lstat_def resolve_strict_def sample_oci_def lstat_def)
  then have launch: "ends undisturbed (launch_worker sample_broker 0 sample_request) ?w (Inl e) ?w"
    unfolding launch_worker_def
    by (intro ends_look) (simp add: b_sum_def ends_raising sample_broker_def broker_world_def)
  let ?u = "?w\<lparr>docker_log := [argv]\<rparr>"
  have n: "\<not> b_cancelled ?w" by (simp add: b_cancelled_def broker_world_def)
  have control: "ends undisturbed (docker_control sample_broker ''rm'' (req_session_id sample_request)) ?w (Inr True) ?u"
    by (rule ends_docker_control [OF argv]) (use n in \<open>simp_all add: undisturbed_def broker_world_def b_cancelled_def\<close>)
  have "\<exists>v. ends undisturbed (release_slot (req_session_id sample_request)) ?u (Inr ()) v"
    unfolding release_slot_def by (rule exI, rule ends_b_locked [OF _ ends_change]) (simp add: broker_world_def)
  then obtain v where release: "ends undisturbed (release_slot (req_session_id sample_request)) ?u (Inr ()) v" ..
  have "ends undisturbed (worker_cleanup sample_broker (req_session_id sample_request) None) ?w (Inr ()) v"
    unfolding worker_cleanup_def option.case
    by (rule ends_seq [OF ends_return ends_seq [OF ends_b_ignore [OF control] release]])
  then have "ends undisturbed (run_claimed sample_broker 0 sample_request) ?w (Inl e) v"
    unfolding run_claimed_def by (intro ends_outcome [OF launch]) (simp add: ends_always [OF ends_raising])
  moreover from slot_released [OF undisturbed_relies(1) sid this] \<open>e \<noteq> ProcessLookupError\<close>
  have "sample_id \<notin> set (active v)" by (simp add: slot_free_def sample_request_def)
  ultimately show ?thesis by blast
qed

theorem output_relayed_witness:
  "\<exists>r w'. ends undisturbed (pump_output 0 (Some [1, 2]) STDOUT)
       ((broker_world (\<lambda>_. None) 0)\<lparr>conns := (\<lambda>_. None)(0 \<mapsto> \<lparr>peer_uid = None, client_bytes = [], client_end = Eof,
          sent = [], conn_closed = False\<rparr>), budgets := (\<lambda>_. None)(0 \<mapsto> \<lparr>budget_remaining = 1, budget_exceeded = False\<rparr>)\<rparr>) r w'
     \<and> length (relayed 0 STDOUT w') \<le> 1"
proof -
  let ?w = "(broker_world (\<lambda>_. None) 0)\<lparr>conns := (\<lambda>_. None)(0 \<mapsto> \<lparr>peer_uid = None, client_bytes = [], client_end = Eof,
          sent = [], conn_closed = False\<rparr>), budgets := (\<lambda>_. None)(0 \<mapsto> \<lparr>budget_remaining = 1, budget_exceeded = False\<rparr>)\<rparr>"
  let ?i = "docker_replies\<lparr>bi_size := 9\<rparr>"
  have "\<exists>v. ends undisturbed (consume 0 2) ?w (Inr False) v"
    unfolding consume_def
    by (rule exI, rule ends_b_locked, simp add: broker_world_def, rule ends.ends_Do, simp add: take_budget_def, rule ends.ends_Ret)
  then obtain v where "ends undisturbed (consume 0 2) ?w (Inr False) v" ..
  moreover have "read_size 9 = 9" by (simp add: read_size_def MAX_STREAM_CHUNK_def)
  ultimately have run: "ends undisturbed (pump_output 0 (Some [1, 2]) STDOUT) ?w (Inr ()) v"
    unfolding pump_output_def option.case pump.simps [of 0 STDOUT "[1, 2]"]
    by (intro ends.ends_Await [of undisturbed ?w ?w _ _ ?i])
      (simp_all add: undisturbed_def b_cancelled_def broker_world_def docker_replies_def
        ends_then_do [of _ _ _ False] ends_return)
  have w: "conns ?w 0 \<noteq> None" "budgets ?w 0 = Some \<lparr>budget_remaining = 1, budget_exceeded = False\<rparr>"
    "0 \<le> budget_remaining \<lparr>budget_remaining = 1, budget_exceeded = False\<rparr>" by simp_all
  have "relayed 0 STDOUT ?w = []" by (simp add: relayed_def)
  with output_relayed [OF undisturbed_relies(2) w run] have "length (relayed 0 STDOUT v) \<le> 1" by auto
  with run show ?thesis by blast
qed

lemma sample_start: "\<exists>w'. ends undisturbed (broker_start sample_broker False 0) (broker_world sample_oci_files 0) (Inr ()) w'"
proof -
  let ?w = "broker_world sample_oci_files 0"
  have v: "validate_oci (broker_files ?w) (my_uid (broker_id sample_broker)) (oci sample_broker) = Inr ()"
    using sample_validated by (simp add: sample_broker_def broker_world_def)
  have p: "resolve_strict sample_oci_files (Abs [''run'']) = Inr (Abs [''run''])"
    by (simp add: resolve_strict_def sample_oci_files_def)
  have q: "validate_socket_parent (broker_files ?w) (oci sample_broker) = Inr ()"
    by (simp add: validate_socket_parent_def sample_broker_def broker_world_def sample_oci_def os_lstat_def
        resolve_strict_def lstat_def sample_oci_files_def)
  have "sample_dir \<noteq> ''b.sock''" by code_simp
  then have f: "sample_oci_files (Abs [''run'', ''b.sock'']) = None" by (simp add: sample_oci_files_def)
  have r: "remove_stale_socket sample_broker sample_oci_files = Inr sample_oci_files"
    by (simp add: remove_stale_socket_def sample_broker_def sample_oci_def os_lstat_def p f lstat_def)
  have b: "\<exists>fs. bind_unix sample_broker sample_oci_files = Inr fs"
    by (simp add: bind_unix_def socket_path_def sample_broker_def sample_oci_def p f)
  then obtain fs where b: "bind_unix sample_broker sample_oci_files = Inr fs" ..
  have n: "\<not> b_cancelled ?w" by simp
  note go = ends_seq ends_look ends_return ends_change ends.ends_Ret
  show ?thesis
    unfolding broker_start_def set_healthy_def broker_file_step_def bind_socket_def share_socket_def if_False
    apply (rule exI)
    apply (rule ends_seq, rule ends_look, simp only: v b_sum_def sum.case, rule ends_return)
    apply (rule ends_seq, rule ends_look, simp only: q b_sum_def sum.case, rule ends_return)
    apply (rule ends_seq, rule ends_return)
    apply (rule ends_seq, rule ends_change)
    apply (rule ends_seq, unfold attempt_def, rule ends.ends_Do, simp add: broker_world_def r, rule ends.ends_Ret)
    apply (rule ends_seq, rule ends_undisturbed [where i = docker_replies], simp add: b_cancelled_def, rule TrueI,
        simp add: b docker_replies_def)
    apply (rule ends_seq, rule ends_undisturbed [where i = docker_replies], simp add: b_cancelled_def, rule TrueI,
        simp add: docker_replies_def)
    apply (rule ends_seq, rule ends_change)
    apply (rule ends_return)
    done
qed

theorem start_private_witness:
  "\<exists>w'. ends undisturbed (broker_start sample_broker False 0) (broker_world sample_oci_files 0) (Inr ()) w'
     \<and> broker_files w' (socket_path sample_broker sample_oci_files) = Some (own_socket sample_broker)"
proof -
  obtain w' where w': "ends undisturbed (broker_start sample_broker False 0) (broker_world sample_oci_files 0) (Inr ()) w'"
    using sample_start ..
  have "parts (broker_socket (oci sample_broker)) \<noteq> []" by (simp add: sample_broker_def sample_oci_def)
  from start_private [OF undisturbed_relies(3) this w']
  have "broker_files w' = sample_oci_files(socket_path sample_broker sample_oci_files \<mapsto> own_socket sample_broker)"
    by (simp add: broker_world_def)
  with w' show ?thesis by (auto intro!: exI [of _ w'])
qed

subsection \<open>Strangers\<close>

text \<open>
  A connection from any other user than the core service's is closed without a word: all it ever does is
  mark its own connection closed; no frame is sent, no slot is taken and no command is run, and whatever
  happens until it is over is the doing of other tasks.
\<close>

theorem strangers_ignored:
  assumes "peer_of c w \<noteq> Some (allowed_core_uid (oci be))" "ends R (handle_connection be c) w r w'"
  shows "\<exists>u. R (update_conn c (\<lambda>n. n\<lparr>conn_closed := True\<rparr>) w) u
    \<and> w' \<in> {u, u\<lparr>b_cancels := removeAll (b_me u) (b_cancels u)\<rparr>}"
proof -
  have "wp R (handle_connection be c) (\<lambda>r w'. \<exists>u. R (update_conn c (\<lambda>n. n\<lparr>conn_closed := True\<rparr>) w) u
    \<and> w' \<in> {u, u\<lparr>b_cancels := removeAll (b_me u) (b_cancels u)\<rparr>}) w"
    using assms(1) by (auto simp: handle_connection_def close_conn_def wp_simps wp_waiting)
  from wp_sound [OF assms(2) this] show ?thesis .
qed

theorem strangers_ignored_witness:
  "\<exists>r w'. ends undisturbed (handle_connection sample_broker 0) (broker_world sample_oci_files 0) r w' \<and> active w' = []"
proof -
  let ?w = "broker_world sample_oci_files 0"
  have p: "peer_of 0 ?w \<noteq> Some (allowed_core_uid (oci sample_broker))" by (simp add: peer_of_def broker_world_def)
  have "ends undisturbed (handle_connection sample_broker 0) ?w (Inr ()) (update_conn 0 (\<lambda>n. n\<lparr>conn_closed := True\<rparr>) ?w)"
    unfolding handle_connection_def close_conn_def
    by (rule ends_look, simp add: p, rule ends_seq [OF ends_change], rule ends_undisturbed [where i = docker_replies])
      (simp_all add: update_conn_def b_cancelled_def broker_world_def docker_replies_def)
  moreover from strangers_ignored [OF p this] have "active (update_conn 0 (\<lambda>n. n\<lparr>conn_closed := True\<rparr>) ?w) = []"
    by (simp add: update_conn_def broker_world_def)
  ultimately show ?thesis by blast
qed

subsection \<open>The periodic check\<close>

text \<open>
  A Docker client that cannot be started ends the periodic check for good, and the broker goes on calling itself
  healthy: \<open>OSError\<close> is not an \<open>OciPolicyError\<close>, so it leaves the loop, and the flag is left alone.
\<close>

theorem health_check_dies:
  "\<exists>w'. ends undisturbed (reconcile_loop sample_broker (Suc rounds))
       ((broker_world sample_oci_files 0)\<lparr>runtime_healthy := True\<rparr>) (Inl (OSError m)) w' \<and> runtime_healthy w'"
proof -
  let ?w = "(broker_world sample_oci_files 0)\<lparr>runtime_healthy := True\<rparr>"
  let ?argv = "docker_prefix sample_oci @ security_query"
  let ?v = "?w\<lparr>docker_log := [?argv]\<rparr>"
  have "ends undisturbed (run_docker ?argv) ?w (Inl (OSError m)) ?v"
    unfolding run_docker_def
    by (rule ends_undisturbed [where i = "docker_replies\<lparr>bi_spawn := Inl m\<rparr>"]) (simp_all add: broker_world_def b_cancelled_def)
  then have "ends undisturbed (docker_output sample_broker security_query) ?w (Inl (OSError m)) ?v"
    unfolding docker_output_def by (intro ends_seq_raises) (simp add: sample_broker_def)
  then have "ends undisturbed (verify_runtime sample_broker) ?w (Inl (OSError m)) ?v"
    unfolding verify_runtime_def by (rule ends_then_do_raises)
  then have "ends undisturbed (reconcile_round sample_broker) ?w (Inl (OSError m)) ?v"
    unfolding reconcile_round_def
    by (rule ends_on_error_handled [OF ends_seq_raises]) (simp only: is_policy_error.simps if_False ends_raising)
  then have "ends undisturbed (reconcile_loop sample_broker (Suc rounds)) ?w (Inl (OSError m)) ?v"
    unfolding reconcile_loop.simps
    by (intro ends_seq [OF ends_undisturbed [where i = docker_replies]] ends_seq_raises) simp_all
  then show ?thesis by (intro exI [of _ ?v]) simp
qed

end
