(* ===== verification/Broker_Liveness.thy ===== *)
theory Broker_Liveness
  imports Broker_Start
begin

section \<open>The wall time is enforced\<close>

text \<open>
  Progress of the supervision of a worker: an overdue worker does not depend on its own good will,
  nor on the client's.  \<open>watch\<close> is the part of \<open>_run_worker\<close> from the wait on the four tasks to the end of
  the worker.
\<close>

definition watch :: "broker_env \<Rightarrow> nat \<Rightarrow> nat \<Rightarrow> utext \<Rightarrow> int \<Rightarrow> nat \<Rightarrow> unit btask" where
  "watch be c pid sid deadline control =
     then_do (first_completed c pid deadline control) (\<lambda>d. end_worker be pid sid d)"

text \<open>It is that part of \<open>supervise\<close>, whatever follows.\<close>

lemma watch_then:
  "then_do (first_completed c pid deadline control) (\<lambda>d. seq (end_worker be pid sid d) rest)
     = seq (watch be c pid sid deadline control) rest"
  by (simp add: watch_def seq_def then_do_def outcome_outcome)
    (rule arg_cong [where f = "outcome _"], auto simp: fun_eq_iff split: sum.split)

lemma settle_waiting: "settle (waiting b f) w = (w, waiting b f)"
  "carry (w, waiting b f) k = (w, outcome (waiting b f) k)"
  "carry (w, outcome (waiting b f) k) k' = (w, outcome (waiting b f) (\<lambda>r. outcome (k r) k'))"
proof -
  show "settle (waiting b f) w = (w, waiting b f)" "carry (w, waiting b f) k = (w, outcome (waiting b f) k)"
    by (simp_all add: waiting_def)
  have "carry (w, outcome (waiting b f) k) k' = (w, outcome (outcome (waiting b f) k) k')" by (simp add: waiting_def)
  then show "carry (w, outcome (waiting b f) k) k' = (w, outcome (waiting b f) (\<lambda>r. outcome (k r) k'))"
    by (simp only: outcome_outcome)
qed

lemma runnable_waiting: "runnable (outcome (waiting b f) k) w \<longleftrightarrow> b w \<or> b_cancelled w"
  by (simp add: waiting_def)

lemma resume_waiting: "\<not> b_cancelled w \<Longrightarrow>
    resume (outcome (waiting b f) k) i w = (case f i w of (w', r) \<Rightarrow> settle (k r) w')"
  by (simp add: waiting_def split: prod.split)

text \<open>A piece that runs no Docker command.\<close>

definition silent :: "(exn + 'b \<Rightarrow> 'a btask) \<Rightarrow> exn + 'b \<Rightarrow> bool" where
  "silent k r \<longleftrightarrow> (\<forall>v. docker_log (fst (settle (k r) v)) = docker_log v)"

lemma settle_end_worker:
  assumes "control_command (oci be) ''kill'' sid = Inr argv" "WorkerDone \<notin> d"
  shows "\<exists>k. settle (end_worker be pid sid d) w
      = (w\<lparr>notices := notices w @ [(reason_of d, sid)]\<rparr>, outcome (run_docker argv) k)
    \<and> silent k (Inr ()) \<and> (\<forall>m. silent k (Inl (OSError m)))"
proof -
  have "docker_log (fst (settle (b_kill pid) v)) = docker_log v" for v
    by (simp add: b_kill_def settle_simps update_docker_def split: option.split)
  note simps = settle_simps settle_outcome settle_waiting
  show ?thesis
    using assms
    by (simp add: end_worker_def docker_control_def b_ignore_def b_sum_def run_docker_def simps)
      (intro exI conjI allI, rule refl; simp add: silent_def docker_finish_def simps b_wait_def b_kill_def update_docker_def split: option.split)
qed

lemma wp_end_worker:
  assumes "WorkerDone \<in> d \<Longrightarrow> b_exited pid w"
  shows "wp R (end_worker be pid sid d) (\<lambda>r u. r = Inr () \<longrightarrow> b_exited pid u) w"
proof -
  have "wp R (b_wait pid) (\<lambda>r u. r = Inr () \<longrightarrow> b_exited pid u) v" for v
    by (simp add: b_wait_def wp_waiting)
  then have "wp R (seq p (b_wait pid)) (\<lambda>r u. r = Inr () \<longrightarrow> b_exited pid u) v" for p :: "unit btask" and v
    unfolding wp_simps(7) by (intro wp_any) (simp split: sum.split)
  then show ?thesis
    using assms unfolding end_worker_def
    by (auto simp: wp_simps(1) wp_simps(7) [of _ "change f" for f] wp_simps(7) [of _ "b_ignore p" for p] wp_simps(3)
        intro!: wp_any split: sum.split)
qed

text \<open>
  C9. An overdue worker is ended: once the wall time is over and the worker still runs, the
  supervisor's wait can end at once, whatever the client and the output do; its turn records the
  reason, its next turn commands \<open>docker kill\<close>, however long other tasks ran in between; and when the
  supervision comes to its end the worker has exited.
\<close>

theorem overdue_worker_killed:
  assumes "control_command (oci be) ''kill'' sid = Inr argv"
    and "deadline \<le> b_clock w" "\<not> b_exited pid w" "\<not> b_cancelled w"
  shows "runnable (watch be c pid sid deadline control) w
    \<and> (\<forall>i u j. \<exists>w1 q reason. resume (watch be c pid sid deadline control) i w = (w1, q)
        \<and> notices w1 = notices w @ [(reason, sid)] \<and> runnable q u
        \<and> (\<not> b_cancelled u \<longrightarrow> docker_log (fst (resume q j u)) = docker_log u @ [argv]))
    \<and> (\<forall>R w'. ends R (watch be c pid sid deadline control) w (Inr ()) w' \<longrightarrow> b_exited pid w')"
proof (intro conjI allI impI)
  show "runnable (watch be c pid sid deadline control) w"
    using assms(2) by (simp add: watch_def first_completed_def then_do_def runnable_waiting done_waiters_def)
  have "wp R (watch be c pid sid deadline control) (\<lambda>r u. r = Inr () \<longrightarrow> b_exited pid u) w" for R
  proof -
    have "wp R (end_worker be pid sid d) (\<lambda>r u. r = Inr () \<longrightarrow> b_exited pid u) u"
      if "d \<subseteq> done_waiters c pid deadline control u" for d u
      by (rule wp_end_worker) (use that in \<open>auto simp: done_waiters_def split: if_splits option.splits\<close>)
    then show ?thesis
      by (auto simp: watch_def first_completed_def wp_simps(6) wp_waiting Let_def)
  qed
  then show "b_exited pid w'" if "ends R (watch be c pid sid deadline control) w (Inr ()) w'" for R w'
    using wp_sound [OF that] by blast
  fix i j :: binput and u :: bworld
  define d where "d = (if bi_done i \<inter> done_waiters c pid deadline control w = {} then done_waiters c pid deadline control w
    else bi_done i \<inter> done_waiters c pid deadline control w)"
  have "WorkerDone \<notin> d" using assms(3) by (auto simp: d_def done_waiters_def split: if_splits option.splits)
  from settle_end_worker [OF assms(1) this] obtain k where k: "settle (end_worker be pid sid d) w
    = (w\<lparr>notices := notices w @ [(reason_of d, sid)]\<rparr>, outcome (run_docker argv) k)"
    and silent: "silent k (Inr ())" "\<And>m. silent k (Inl (OSError m))" by blast
  have log: "docker_log (fst (resume (outcome (run_docker argv) k) j u)) = docker_log u @ [argv]" if "\<not> b_cancelled u"
    using silent by (cases "bi_spawn j") (simp_all add: run_docker_def resume_waiting [OF that] silent_def)
  have "resume (watch be c pid sid deadline control) i w = settle (end_worker be pid sid d) w"
    by (simp add: watch_def first_completed_def then_do_def resume_waiting [OF assms(4)] Let_def d_def)
  moreover have "runnable (outcome (run_docker argv) k) u" by (simp add: run_docker_def runnable_waiting)
  ultimately show "\<exists>w1 q reason. resume (watch be c pid sid deadline control) i w = (w1, q)
        \<and> notices w1 = notices w @ [(reason, sid)] \<and> runnable q u
        \<and> (\<not> b_cancelled u \<longrightarrow> docker_log (fst (resume q j u)) = docker_log u @ [argv])"
    by (simp add: k log)
qed

theorem overdue_worker_killed_witness:
  "\<exists>argv. control_command sample_oci ''kill'' sample_id = Inr argv
     \<and> runnable (watch sample_broker 0 0 sample_id 0 1) (broker_world (\<lambda>_. None) 0)"
proof -
  have "fullmatch SESSION_ID_PATTERN sample_id"
    by (simp add: SESSION_ID_PATTERN_iff sample_id_def in_class_def hex_class_def list_all_iff)
  then obtain argv where argv: "control_command sample_oci ''kill'' sample_id = Inr argv" using valid_control(1) by blast
  have "control_command (oci sample_broker) ''kill'' sample_id = Inr argv" using argv by (simp add: sample_broker_def)
  from overdue_worker_killed [OF this, of 0 "broker_world (\<lambda>_. None) 0" 0 0 1] argv show ?thesis
    by (simp add: broker_world_def b_exited_def b_exit_def b_cancelled_def)
qed

end
