(* ===== verification/Broker_Pipe.thy ===== *)
theory Broker_Pipe
  imports Broker_Start
begin

section \<open>From the manager to the worker and back\<close>

text \<open>
  The two ends of a broker connection put together: what the manager writes to the stdin of its
  \<open>BrokerWorkerProcess\<close> and what the worker reads, what the worker prints and what the manager reads.
\<close>

subsection \<open>Standard input\<close>

text \<open>The manager writes each piece and drains it (\<open>write_serial\<close>).\<close>

definition typed :: "bytes list \<Rightarrow> broker_stdin \<Rightarrow> broker_stdin" where
  "typed ps s = fold (\<lambda>p s. snd (stdin_drain (snd (stdin_write p s)))) ps s"

lemma typed_frames:
  assumes "\<forall>p\<in>set ps. length p \<le> MAX_BUFFERED_STDIN"
    and "pending s = []" "pending_bytes s = 0" "\<not> stdin_closed s" "drain_outcomes (stdin_frames s) = []"
  shows "written (stdin_frames (typed ps s))
    = written (stdin_frames s) @ stdin_frames_of (concat (map (chunks MAX_STREAM_CHUNK) ps))"
  using assms
proof (induction ps arbitrary: s)
  case Nil
  then show ?case by (simp add: typed_def stdin_frames_of_def)
next
  case (Cons p ps)
  let ?f = "(stdin_frames s)\<lparr>written := written (stdin_frames s) @ stdin_frames_of (chunks MAX_STREAM_CHUNK p)\<rparr>"
  have "\<forall>c\<in>set (chunks MAX_STREAM_CHUNK p). length c \<le> MAX_STREAM_CHUNK" using chunks_bounds by blast
  then have step: "snd (stdin_drain (snd (stdin_write p s))) = s\<lparr>stdin_frames := ?f\<rparr>"
    using Cons.prems by (simp add: stdin_write_def stdin_drain_def drain_chunks)
  have "typed (p # ps) s = typed ps (s\<lparr>stdin_frames := ?f\<rparr>)" unfolding typed_def fold_Cons o_apply step ..
  then show ?case
    using Cons.IH [of "s\<lparr>stdin_frames := ?f\<rparr>"] Cons.prems by (simp add: stdin_frames_of_def)
qed

text \<open>What the worker has been given, and the steps of the other tasks, which leave its stdin alone.\<close>

definition fed :: "nat \<Rightarrow> bytes list \<Rightarrow> bworld \<Rightarrow> bool" where
  "fed pid cs w \<longleftrightarrow> (\<exists>k. docker_procs w pid = Some k \<and> dp_has_stdin k \<and> dp_stdin k = cs)"

definition feed_rely :: "nat \<Rightarrow> (bworld \<Rightarrow> bworld \<Rightarrow> bool) \<Rightarrow> bool" where
  "feed_rely pid R \<longleftrightarrow> (\<forall>u v cs. R u v \<longrightarrow> fed pid cs u \<longrightarrow> fed pid cs v)"

lemma fed_frame [simp]: "fed pid cs (w\<lparr>b_cancels := g\<rparr>) = fed pid cs w"
  by (simp add: fed_def)

lemma wp_fed_waiting:
  assumes "feed_rely pid R" "fed pid cs w"
    and "\<And>e u. fed pid cs u \<Longrightarrow> Q (Inl e) u" "\<And>i u. fed pid cs u \<Longrightarrow> Q (f i) u"
  shows "wp R (waiting b (\<lambda>i w. (w, f i))) Q w"
  using assms unfolding wp_waiting feed_rely_def by simp

lemma read_stdin_frame:
  assumes "length c \<le> MAX_STREAM_CHUNK"
  shows "read_frame fin MAX_STREAM_CHUNK (stdin_frames_of (c # cs)) = Inr (\<lparr>kind_of = STDIN, payload_of = c\<rparr>, stdin_frames_of cs)"
  using assms by (intro read_frame_encode) (simp add: stdin_frames_of_def MAX_STREAM_CHUNK_def MAX_FRAME_PAYLOAD_def)


lemma wp_relay:
  assumes rely: "feed_rely pid R" and "\<forall>c\<in>set cs. length c \<le> MAX_STREAM_CHUNK" "fed pid xs w"
  shows "wp R (relay_control be fin (stdin_frames_of cs) pid sid)
    (\<lambda>r u. \<exists>n\<le>length cs. fed pid (xs @ take n cs) u \<and> (r = Inr () \<longrightarrow> b_exited pid u)) w"
  using assms(2,3)
proof (induction cs arbitrary: xs w)
  case Nil
  have "\<exists>e. read_frame fin MAX_STREAM_CHUNK (stdin_frames_of []) = Inl e"
    by (simp add: read_frame_def readexactly_def stdin_frames_of_def)
  then obtain e where "read_frame fin MAX_STREAM_CHUNK (stdin_frames_of []) = Inl e" ..
  then show ?case
    unfolding relay_control.simps [of be fin "stdin_frames_of []"] wp_simps
    using Nil.prems by (auto simp: wp_simps intro!: wp_fed_waiting [OF rely])
next
  case (Cons c cs)
  let ?Q = "\<lambda>r u. \<exists>n\<le>length (c # cs). fed pid (xs @ take n (c # cs)) u \<and> (r = Inr () \<longrightarrow> b_exited pid u)"
  have none: "?Q (Inl e) u" if "fed pid xs u" for e :: exn and u using that by (intro exI [of _ 0]) simp
  have one: "?Q (Inl e) u" if "fed pid (xs @ [c]) u" for e :: exn and u using that by (intro exI [of _ 1]) simp
  have rest: "wp R (relay_control be fin (stdin_frames_of cs) pid sid) ?Q u" if "fed pid (xs @ [c]) u" for u
    by (rule wp_mono [OF Cons.IH [OF _ that]]) (use Cons.prems in \<open>auto intro: exI [of _ "Suc _"]\<close>)
  have input: "wp R (worker_input pid c) (\<lambda>r u. case r of Inl e \<Rightarrow> ?Q (Inl e) u
      | Inr x \<Rightarrow> wp R (relay_control be fin (stdin_frames_of cs) pid sid) ?Q u) u" if u: "fed pid xs u" for u
  proof -
    obtain k where k: "docker_procs u pid = Some k" "dp_has_stdin k" "dp_stdin k = xs" using u by (auto simp: fed_def)
    then have "fed pid (xs @ [c]) (update_docker pid (\<lambda>k. k\<lparr>dp_stdin := dp_stdin k @ [c]\<rparr>) u)"
      by (simp add: fed_def update_docker_def)
    then show ?thesis
      unfolding worker_input_def
      by (simp add: wp_simps k) (rule wp_fed_waiting [OF rely], auto intro: one rest rest [simplified] split: option.split)
  qed
  have frame: "control_frame be pid sid \<lparr>kind_of = STDIN, payload_of = c\<rparr> = worker_input pid c" by (simp add: control_frame_def)
  have read: "read_frame fin MAX_STREAM_CHUNK (stdin_frames_of (c # cs))
      = Inr (\<lparr>kind_of = STDIN, payload_of = c\<rparr>, stdin_frames_of cs)"
    using Cons.prems(1) by (simp add: read_stdin_frame)
  show ?case
  proof (cases "b_exited pid w")
    case True
    then show ?thesis
      using Cons.prems(2) by (auto simp: relay_control.simps [of be fin "stdin_frames_of (c # cs)"] wp_simps intro: exI [of _ 0])
  next
    case False
    show ?thesis
      unfolding relay_control.simps [of be fin "stdin_frames_of (c # cs)"] wp_simps(4) if_not_P [OF False] read sum.case
        prod.case wp_simps(7) frame
    by (rule wp_fed_waiting [OF rely Cons.prems(2)]; unfold sum.case; (rule none input); assumption)
  qed
qed

text \<open>With a worker that lives and a transport that takes it, everything can get there.\<close>

lemma relay_delivers:
  assumes "\<And>u. \<not> b_cancelled u \<Longrightarrow> R u u" "\<forall>c\<in>set cs. length c \<le> MAX_STREAM_CHUNK" "fed pid xs w" "\<not> b_exited pid w" "\<not> b_cancelled w"
  shows "\<exists>w' e. ends R (relay_control be Eof (stdin_frames_of cs) pid sid) w (Inl e) w' \<and> fed pid (xs @ cs) w'"
  using assms(2-5)
proof (induction cs arbitrary: xs w)
  case Nil
  let ?e = "BrokerProtocolError ''broker connection ended before a complete frame''"
  have "read_frame Eof MAX_STREAM_CHUNK (stdin_frames_of []) = Inl ?e"
    by (simp add: read_frame_def readexactly_def stdin_frames_of_def incomplete_def)
  then have "ends R (relay_control be Eof (stdin_frames_of []) pid sid) w (Inl ?e) w"
    unfolding relay_control.simps [of be Eof "stdin_frames_of []"]
    using Nil.prems by (intro ends_look) (auto intro!: ends_waiting [where i = docker_replies] simp: assms(1))
  then show ?case using Nil.prems by auto
next
  case (Cons c cs)
  let ?v = "update_docker pid (\<lambda>k. k\<lparr>dp_stdin := dp_stdin k @ [c]\<rparr>) w"
  obtain k where k: "docker_procs w pid = Some k" "dp_has_stdin k" "dp_stdin k = xs" using Cons.prems(2) by (auto simp: fed_def)
  then have v: "fed pid (xs @ [c]) ?v" "\<not> b_exited pid ?v" "\<not> b_cancelled ?v"
    using Cons.prems by (simp_all add: fed_def update_docker_def b_exited_def b_exit_def b_cancelled_def)
  obtain w' e where e: "ends R (relay_control be Eof (stdin_frames_of cs) pid sid) ?v (Inl e) w'" "fed pid (xs @ c # cs) w'"
    using Cons.IH [OF _ v] Cons.prems(1) by auto
  have "ends R (worker_input pid c) w (Inr ()) ?v"
    unfolding worker_input_def
    by (rule ends_look) (use k Cons.prems v in \<open>auto intro!: ends_seq [OF ends_change] ends_waiting [where i = docker_replies and u = ?v]
      simp: assms(1) docker_replies_def\<close>)
  moreover have "control_frame be pid sid \<lparr>kind_of = STDIN, payload_of = c\<rparr> = worker_input pid c" by (simp add: control_frame_def)
  moreover have "ends R (waiting (\<lambda>w. True) (\<lambda>i w. (w, Inr ()))) w (Inr ()) w"
    by (rule ends_waiting [where i = docker_replies]) (use Cons.prems in \<open>simp_all add: assms(1)\<close>)
  ultimately have "ends R (relay_control be Eof (stdin_frames_of (c # cs)) pid sid) w (Inl e) w'"
    unfolding relay_control.simps [of be Eof "stdin_frames_of (c # cs)"]
    using Cons.prems e(1) by (intro ends_look) (auto simp: read_stdin_frame intro!: ends_seq)
  with e(2) show ?case by auto
qed

text \<open>
  With a client that has closed its end and a transport that takes everything, the relay ends before all is
  delivered only when the worker is over or the relay is cancelled.
\<close>

definition draining :: "binput \<Rightarrow> bool" where
  "draining i \<longleftrightarrow> bi_drain i = None"

lemma ends_on_waiting:
  assumes "ends_on J R (waiting b f) w r w'"
  obtains u where "R w u" "r = Inl CancelledError" "w' = u\<lparr>b_cancels := removeAll (b_me u) (b_cancels u)\<rparr>"
  | u i where "R w u" "b u" "J i" "\<not> b_cancelled u" "r = snd (f i u)" "w' = fst (f i u)"
  using assms unfolding waiting_def
  by (rule ends_on_AwaitE) (auto simp: split_beta elim!: ends_on_RetE split: if_splits intro: that)

lemma relay_all:
  assumes rely: "feed_rely pid R" and "\<forall>c\<in>set cs. length c \<le> MAX_STREAM_CHUNK" "fed pid xs w"
    and "ends_on draining R (relay_control be Eof (stdin_frames_of cs) pid sid) w r w'"
  shows "r = Inr () \<or> r = Inl CancelledError \<or> fed pid (xs @ cs) w'"
  using assms(2-4)
proof (induction cs arbitrary: xs w)
  case Nil
  let ?e = "BrokerProtocolError ''broker connection ended before a complete frame''"
  have read: "read_frame Eof MAX_STREAM_CHUNK (stdin_frames_of []) = Inl ?e"
    by (simp add: read_frame_def readexactly_def stdin_frames_of_def incomplete_def)
  show ?case
  proof (cases "b_exited pid w")
    case True
    then show ?thesis using Nil.prems(3)
      by (simp add: relay_control.simps [of be Eof "stdin_frames_of []"] ends_on_simps return_def)
  next
    case False
    then have "ends_on draining R (waiting (\<lambda>w. ?e \<noteq> TimeoutError) (\<lambda>i w. (w, Inl ?e)) :: unit btask) w r w'"
      using Nil.prems(3) by (simp add: relay_control.simps [of be Eof "stdin_frames_of []"] ends_on_simps read)
    then show ?thesis
      by (rule ends_on_waiting) (use rely Nil.prems(2) in \<open>auto simp: feed_rely_def\<close>)
  qed
next
  case (Cons c cs)
  have read: "read_frame Eof MAX_STREAM_CHUNK (stdin_frames_of (c # cs))
      = Inr (\<lparr>kind_of = STDIN, payload_of = c\<rparr>, stdin_frames_of cs)"
    using Cons.prems(1) by (simp add: read_stdin_frame)
  have frame: "control_frame be pid sid \<lparr>kind_of = STDIN, payload_of = c\<rparr> = worker_input pid c" by (simp add: control_frame_def)
  show ?case
  proof (cases "b_exited pid w")
    case True
    then show ?thesis using Cons.prems(3)
      by (simp add: relay_control.simps [of be Eof "stdin_frames_of (c # cs)"] ends_on_simps return_def)
  next
    case False
    let ?rest = "relay_control be Eof (stdin_frames_of cs) pid sid"
    have "ends_on draining R (seq (waiting (\<lambda>w. True) (\<lambda>i w. (w, Inr ()))) (seq (worker_input pid c) ?rest)) w r w'"
      using Cons.prems(3) False
      by (simp add: relay_control.simps [of be Eof "stdin_frames_of (c # cs)"] ends_on_simps read frame)
    then show ?thesis
    proof (rule ends_on_seq)
      fix e
      assume "ends_on draining R (waiting (\<lambda>w. True) (\<lambda>i w. (w, Inr ())) :: unit btask) w (Inl e) w'" "r = Inl e"
      then show ?thesis by (auto elim!: ends_on_waiting)
    next
      fix x u
      assume "ends_on draining R (waiting (\<lambda>w. True) (\<lambda>i w. (w, Inr ())) :: unit btask) w (Inr x) u"
        and more: "ends_on draining R (seq (worker_input pid c) ?rest) u r w'"
      then have "fed pid xs u"
        by (auto elim!: ends_on_waiting) (use rely Cons.prems(2) in \<open>auto simp: feed_rely_def\<close>)
      then obtain k where k: "docker_procs u pid = Some k" "dp_has_stdin k" "dp_stdin k = xs" by (auto simp: fed_def)
      let ?v = "update_docker pid (\<lambda>k. k\<lparr>dp_stdin := dp_stdin k @ [c]\<rparr>) u"
      have v: "fed pid (xs @ [c]) ?v" using k by (simp add: fed_def update_docker_def)
      have given: "ends_on draining R (worker_input pid c) u s t \<Longrightarrow> s = Inl CancelledError \<or> s = Inr () \<and> fed pid (xs @ [c]) t" for s t
        using k v rely
        by (auto simp: worker_input_def ends_on_simps draining_def feed_rely_def elim!: ends_on_seq ends_on_waiting)
      from more show ?thesis
      proof (rule ends_on_seq)
        fix e
        assume "ends_on draining R (worker_input pid c) u (Inl e) w'" "r = Inl e"
        then show ?thesis using given by auto
      next
        fix y t
        assume "ends_on draining R (worker_input pid c) u (Inr y) t" "ends_on draining R ?rest t r w'"
        then show ?thesis using given Cons.IH [of "xs @ [c]" t] Cons.prems(1) by auto
      qed
    qed
  qed
qed

definition client_input :: "bytes list \<Rightarrow> bytes" where
  "client_input ps = written (stdin_frames (typed ps (new_stdin (fresh_writer []))))"

lemma client_input_frames:
  "\<forall>p\<in>set ps. length p \<le> MAX_BUFFERED_STDIN \<Longrightarrow>
     client_input ps = stdin_frames_of (concat (map (chunks MAX_STREAM_CHUNK) ps))"
  by (simp add: client_input_def typed_frames new_stdin_def fresh_writer_def)

lemma concat_pieces: "concat (concat (map (chunks MAX_STREAM_CHUNK) ps)) = concat (ps :: bytes list)"
proof -
  have "concat (chunks MAX_STREAM_CHUNK p) = p" for p :: bytes by (rule concat_chunks) (simp add: MAX_STREAM_CHUNK_def)
  then show ?thesis by (induction ps) simp_all
qed

lemma concat_take: "\<exists>m. concat (take n xs) = take m (concat xs)"
  by (metis append_eq_conv_conj append_take_drop_id concat_append)

text \<open>
  C28. What is typed reaches the guest: the manager cuts the pieces it writes into frames, the broker
  reads them back and feeds the worker, and whatever the other tasks do, when the relay ends the worker
  has been given an initial piece of what was written, in order, nothing lost or doubled in between; the
  relay ends without an error only when the worker is over.  When the client has closed its end and the
  worker's pipe takes every piece, every end of the relay leaves all of it delivered, unless the worker
  is over or the relay was cancelled; and with a worker that goes on such an end is possible.
\<close>

theorem stdin_end_to_end:
  assumes "feed_rely pid R" "\<forall>p\<in>set ps. length p \<le> MAX_BUFFERED_STDIN"
    and "docker_procs w pid = Some k" "dp_has_stdin k" "dp_stdin k = []"
    and "ends R (relay_control be fin (client_input ps) pid sid) w r w'"
  shows "(\<exists>k' n. docker_procs w' pid = Some k' \<and> concat (dp_stdin k') = take n (concat ps))
    \<and> (r = Inr () \<longrightarrow> b_exited pid w')
    \<and> (ends_on draining R (relay_control be Eof (client_input ps) pid sid) w r w' \<longrightarrow>
        r \<noteq> Inr () \<longrightarrow> r \<noteq> Inl CancelledError \<longrightarrow>
        (\<exists>k'. docker_procs w' pid = Some k' \<and> concat (dp_stdin k') = concat ps))
    \<and> ((\<forall>u. \<not> b_cancelled u \<longrightarrow> R u u) \<and> \<not> b_exited pid w \<and> \<not> b_cancelled w \<longrightarrow>
        (\<exists>w1 e k1. ends R (relay_control be Eof (client_input ps) pid sid) w (Inl e) w1
          \<and> docker_procs w1 pid = Some k1 \<and> concat (dp_stdin k1) = concat ps))"
proof -
  let ?cs = "concat (map (chunks MAX_STREAM_CHUNK) ps)"
  have small: "\<forall>c\<in>set ?cs. length c \<le> MAX_STREAM_CHUNK" using chunks_bounds by auto
  have w: "fed pid [] w" using assms(3-5) by (simp add: fed_def)
  note input = client_input_frames [OF assms(2)]
  from wp_sound [OF assms(6) [unfolded input] wp_relay [OF assms(1) small w]] obtain n k' where
    k': "docker_procs w' pid = Some k'" "dp_stdin k' = take n ?cs" "r = Inr () \<longrightarrow> b_exited pid w'"
    by (auto simp: fed_def)
  obtain m where "concat (take n ?cs) = take m (concat ?cs)" using concat_take by blast
  moreover have "\<exists>k'. docker_procs w' pid = Some k' \<and> concat (dp_stdin k') = concat ps"
    if "ends_on draining R (relay_control be Eof (client_input ps) pid sid) w r w'" "r \<noteq> Inr ()" "r \<noteq> Inl CancelledError"
    using relay_all [OF assms(1) small w that(1) [unfolded input]] that(2,3) by (auto simp: fed_def concat_pieces)
  moreover have "\<exists>w1 e k1. ends R (relay_control be Eof (client_input ps) pid sid) w (Inl e) w1
          \<and> docker_procs w1 pid = Some k1 \<and> concat (dp_stdin k1) = concat ps"
    if "(\<forall>u. \<not> b_cancelled u \<longrightarrow> R u u) \<and> \<not> b_exited pid w \<and> \<not> b_cancelled w"
    using relay_delivers [OF _ small w, of R be sid] that unfolding input by (auto simp: fed_def concat_pieces)
  ultimately show ?thesis using k' by (auto simp: concat_pieces)
qed

definition typing_world :: bworld where
  "typing_world = (broker_world (\<lambda>_. None) 0)\<lparr>docker_procs := (\<lambda>_. None)(0 \<mapsto> \<lparr>dp_returncode = None, dp_gone = False,
     dp_has_stdin = True, dp_stdin = [], dp_stdout = None, dp_stderr = None, dp_killed = False\<rparr>)\<rparr>"

theorem stdin_end_to_end_witness:
  "\<exists>r w1 k1. ends undisturbed (relay_control sample_broker Eof (client_input [[7], [8, 9]]) 0 sample_id) typing_world r w1
     \<and> docker_procs w1 0 = Some k1 \<and> concat (dp_stdin k1) = [7, 8, 9]"
proof -
  obtain k where k: "docker_procs typing_world 0 = Some k" "dp_has_stdin k" "dp_stdin k = []" by (simp add: typing_world_def)
  have rely: "feed_rely 0 undisturbed" "\<forall>u. \<not> b_cancelled u \<longrightarrow> undisturbed u u" by (simp_all add: feed_rely_def undisturbed_def)
  have ps: "\<forall>p\<in>set [[7], [8, 9]]. length (p :: bytes) \<le> MAX_BUFFERED_STDIN" by (simp add: MAX_BUFFERED_STDIN_def)
  have alive: "\<not> b_exited 0 typing_world" "\<not> b_cancelled typing_world"
    by (simp_all add: typing_world_def b_exited_def b_exit_def b_cancelled_def broker_world_def)
  have "fed 0 [] typing_world" using k by (simp add: fed_def)
  then obtain r w' where "ends undisturbed (relay_control sample_broker Eof (client_input [[7], [8, 9]]) 0 sample_id) typing_world r w'"
    using relay_delivers [of undisturbed "concat (map (chunks MAX_STREAM_CHUNK) [[7], [8, 9]])" 0 "[]" typing_world] rely alive
      chunks_bounds unfolding client_input_frames [OF ps] by fastforce
  from stdin_end_to_end [OF rely(1) ps k this] rely(2) alive show ?thesis by auto
qed

subsection \<open>Output\<close>

text \<open>The handshake, when the broker answers it.\<close>

lemma connect_started:
  assumes "StartRequest (req_session_id request) (req_board_id request) = Inr request"
  shows "\<exists>writer. connect_broker_worker None request None fin (encode_frame \<lparr>kind_of = STARTED, payload_of = []\<rparr> @ rest) closing
    = Inr (BrokerWorkerProcess writer, rest)"
proof -
  obtain p where "start_to_payload request = Inr p" "length p \<le> MAX_CONTROL_PAYLOAD" using start_payload_read [OF assms] by blast
  moreover have "read_frame fin MAX_CONTROL_PAYLOAD (encode_frame \<lparr>kind_of = STARTED, payload_of = []\<rparr> @ rest)
      = Inr (\<lparr>kind_of = STARTED, payload_of = []\<rparr>, rest)"
    by (rule read_frame_encode) simp
  ultimately show ?thesis
    by (auto simp: connect_broker_worker_def handshake_def send_def andthen_def bind_def fresh_writer_def drain_writer_def
        MAX_CONTROL_PAYLOAD_def MAX_FRAME_PAYLOAD_def)
qed

text \<open>
  C14. What the worker prints is what the manager reads: after the handshake, when the broker's pump of an
  output stream has come to its end and the exit message is sent, the manager's reader for that
  stream holds an initial piece of what the worker printed, in order and within the budget, all of
  it when the pump ended normally within the budget; and the manager reports the return code that was sent.
\<close>

theorem output_end_to_end:
  assumes "pump_rely c k R" "k \<in> {STDOUT, STDERR}" "conns w c \<noteq> None" "budgets w c = Some b" "0 \<le> budget_remaining b"
    and "relayed c k w = []" "ends R (pump_output c (Some bs) k) w r w'"
    and "conns w' c = Some n" "sent n = \<lparr>kind_of = STARTED, payload_of = []\<rparr> # fs"
    and "\<forall>f\<in>set fs. kind_of f \<in> {STDOUT, STDERR} \<and> length (payload_of f) \<le> MAX_FRAME_PAYLOAD"
    and "exit_to_payload code = Inr payload" "- 255 \<le> code" "code \<le> 255"
    and "StartRequest (req_session_id request) (req_board_id request) = Inr request"
  shows "\<exists>proc rest m. connect_broker_worker None request None fin
        (concat (map encode_frame (sent n @ [\<lparr>kind_of = EXIT, payload_of = payload\<rparr>]))) closing = Inr (proc, rest)
    \<and> proc_returncode (receive fin rest proc) = Some code
    \<and> (if k = STDOUT then proc_stdout else proc_stderr) (receive fin rest proc) = take m bs \<and> int m \<le> budget_remaining b
    \<and> (r = Inr () \<longrightarrow> over_budget c w' \<or> m = length bs)"
proof -
  let ?rest = "concat (map encode_frame fs) @ encode_frame \<lparr>kind_of = EXIT, payload_of = payload\<rparr>"
  obtain m where m: "m \<le> length bs" "relayed c k w' = take m bs" "int m \<le> budget_remaining b"
    "r = Inr () \<longrightarrow> over_budget c w' \<or> m = length bs"
    using output_relayed [OF assms(1,3-5,7)] assms(6) by auto
  have out: "output_of k fs = take m bs"
    using m(2) assms(2,8,9) by (auto simp: relayed_def output_of_def)
  obtain writer where c: "connect_broker_worker None request None fin
      (concat (map encode_frame (sent n @ [\<lparr>kind_of = EXIT, payload_of = payload\<rparr>]))) closing = Inr (BrokerWorkerProcess writer, ?rest)"
    using connect_started [OF assms(14), of fin ?rest closing] assms(9) by auto
  have "proc_returncode (BrokerWorkerProcess writer) = None" "proc_stdout (BrokerWorkerProcess writer) = []"
    "proc_stderr (BrokerWorkerProcess writer) = []" by (simp_all add: BrokerWorkerProcess_def)
  with receive_relays_output [OF assms(10-13), of "BrokerWorkerProcess writer" fin "[]"]
  have "proc_returncode (receive fin ?rest (BrokerWorkerProcess writer)) = Some code"
    "(if k = STDOUT then proc_stdout else proc_stderr) (receive fin ?rest (BrokerWorkerProcess writer)) = take m bs"
    using out assms(2) by auto
  with c m(3,4) show ?thesis by blast
qed

definition printing_world :: bworld where
  "printing_world = (broker_world (\<lambda>_. None) 0)\<lparr>conns := (\<lambda>_. None)(0 \<mapsto> \<lparr>peer_uid = None, client_bytes = [],
     client_end = Eof, sent = [\<lparr>kind_of = STARTED, payload_of = []\<rparr>], conn_closed = False\<rparr>),
     budgets := (\<lambda>_. None)(0 \<mapsto> \<lparr>budget_remaining = 10, budget_exceeded = False\<rparr>)\<rparr>"

lemma printing_run:
  "\<exists>w'. ends undisturbed (pump_output 0 (Some [65]) STDOUT) printing_world (Inr ()) w' \<and> \<not> over_budget 0 w'
     \<and> conns w' 0 = Some \<lparr>peer_uid = None, client_bytes = [], client_end = Eof,
       sent = [\<lparr>kind_of = STARTED, payload_of = []\<rparr>, \<lparr>kind_of = STDOUT, payload_of = [65]\<rparr>], conn_closed = False\<rparr>"
proof -
  let ?b = "\<lparr>budget_remaining = 9, budget_exceeded = False\<rparr>"
  let ?v = "printing_world\<lparr>budgets := (budgets printing_world)(0 \<mapsto> ?b)\<rparr>"
  let ?n = "\<lparr>peer_uid = None, client_bytes = [], client_end = Eof,
       sent = [\<lparr>kind_of = STARTED, payload_of = []\<rparr>, \<lparr>kind_of = STDOUT, payload_of = [65]\<rparr>], conn_closed = False\<rparr>"
  let ?u = "?v\<lparr>conns := (conns ?v)(0 \<mapsto> ?n)\<rparr>"
  have still: "undisturbed printing_world printing_world" "undisturbed ?u ?u"
    by (simp_all add: undisturbed_def b_cancelled_def printing_world_def broker_world_def)
  have "ends undisturbed (consume 0 1) printing_world (Inr True) ((?v\<lparr>b_held := [BudgetLock 0]\<rparr>)\<lparr>b_held :=
      removeAll (BudgetLock 0) (b_held (?v\<lparr>b_held := [BudgetLock 0]\<rparr>))\<rparr>)"
    unfolding consume_def
    by (rule ends_b_locked; (rule ends.ends_Do)?) (simp_all add: printing_world_def broker_world_def take_budget_def ends.ends_Ret)
  then have c: "ends undisturbed (consume 0 1) printing_world (Inr True) ?v" by (simp add: printing_world_def broker_world_def)
  have "ends undisturbed (send_frame 0 STDOUT [65]) ?v (Inr ()) ((?u\<lparr>b_held := [FrameLock 0]\<rparr>)\<lparr>b_held :=
      removeAll (FrameLock 0) (b_held (?u\<lparr>b_held := [FrameLock 0]\<rparr>))\<rparr>)"
  proof -
    have "ends undisturbed (seq (change (update_conn 0 (\<lambda>n. n\<lparr>sent := sent n @ [\<lparr>kind_of = STDOUT, payload_of = [65]\<rparr>]\<rparr>)))
        (waiting (\<lambda>w. True) (\<lambda>i w. (w, case bi_drain i of None \<Rightarrow> Inr () | Some e \<Rightarrow> Inl e))))
        (?v\<lparr>b_held := FrameLock 0 # b_held ?v\<rparr>) (Inr ()) (?u\<lparr>b_held := [FrameLock 0]\<rparr>)"
      by (rule ends_seq [OF ends_change], rule ends_undisturbed [where i = docker_replies])
        (simp_all add: printing_world_def broker_world_def b_cancelled_def update_conn_def docker_replies_def)
    moreover have "\<not> MAX_FRAME_PAYLOAD < length [65 :: byte]" by (simp add: MAX_FRAME_PAYLOAD_def)
    ultimately show ?thesis
      unfolding send_frame_def by (simp only: if_False) (rule ends_b_locked, simp_all add: printing_world_def broker_world_def)
  qed
  then have s: "ends undisturbed (send_frame 0 STDOUT [65]) ?v (Inr ()) ?u" by (simp add: printing_world_def broker_world_def)
  have "ends undisturbed (pump 0 STDOUT []) ?u (Inr ()) ?u"
    unfolding pump.simps [of 0 STDOUT "[]"]
    by (rule ends.ends_Await [of undisturbed ?u ?u _ _ docker_replies]) (simp_all only: still(2), simp_all add: ends_return)
  moreover have "read_size 9 = 9" by (simp add: read_size_def MAX_STREAM_CHUNK_def)
  ultimately have "ends undisturbed (pump_output 0 (Some [65]) STDOUT) printing_world (Inr ()) ?u"
    unfolding pump_output_def option.case pump.simps [of 0 STDOUT "[65]"]
    using still(1) c s
    by (intro ends.ends_Await [of undisturbed printing_world printing_world _ _ "docker_replies\<lparr>bi_size := 9\<rparr>"])
      (auto intro!: ends_then_do [OF c] ends_seq [OF s])
  then show ?thesis by (intro exI [of _ ?u]) (simp add: over_budget_def)
qed

theorem output_end_to_end_witness:
  "\<exists>proc rest payload. connect_broker_worker None \<lparr>req_session_id = sample_id, req_board_id = lit ''sticks3''\<rparr> None Eof
      (concat (map encode_frame [\<lparr>kind_of = STARTED, payload_of = []\<rparr>, \<lparr>kind_of = STDOUT, payload_of = [65]\<rparr>,
        \<lparr>kind_of = EXIT, payload_of = payload\<rparr>])) None = Inr (proc, rest)
    \<and> proc_stdout (receive Eof rest proc) = [65] \<and> proc_returncode (receive Eof rest proc) = Some 0"
proof -
  let ?r = "\<lparr>req_session_id = sample_id, req_board_id = lit ''sticks3''\<rparr>"
  have r: "StartRequest (req_session_id ?r) (req_board_id ?r) = Inr ?r"
    by (simp add: StartRequest_def SESSION_ID_PATTERN_iff known_board_iff sample_id_def in_class_def hex_class_def list_all_iff)
  obtain payload where p: "exit_to_payload 0 = Inr payload" using exit_roundtrip [of 0] by auto
  obtain w' where run: "ends undisturbed (pump_output 0 (Some [65]) STDOUT) printing_world (Inr ()) w'" "\<not> over_budget 0 w'"
    and n: "conns w' 0 = Some \<lparr>peer_uid = None, client_bytes = [], client_end = Eof,
       sent = [\<lparr>kind_of = STARTED, payload_of = []\<rparr>, \<lparr>kind_of = STDOUT, payload_of = [65]\<rparr>], conn_closed = False\<rparr>"
    using printing_run by blast
  have w: "STDOUT \<in> {STDOUT, STDERR}" "conns printing_world 0 \<noteq> None"
    "budgets printing_world 0 = Some \<lparr>budget_remaining = 10, budget_exceeded = False\<rparr>"
    "0 \<le> budget_remaining \<lparr>budget_remaining = 10, budget_exceeded = False\<rparr>" "relayed 0 STDOUT printing_world = []"
    by (simp_all add: printing_world_def relayed_def)
  show ?thesis
    using output_end_to_end [OF undisturbed_relies(2) w run(1) n, of "[\<lparr>kind_of = STDOUT, payload_of = [65]\<rparr>]" 0 payload ?r Eof None]
      p r run(2) by (fastforce simp: MAX_FRAME_PAYLOAD_def)
qed

end
