(* ===== verification/Api_Privacy.thy ===== *)
theory Api_Privacy
  imports Api_Properties
begin

section \<open>What the read endpoints can reveal\<close>

text \<open>
  The diagnostics download declares that it contains no firmware, no flash and no serial payload.
  As noninterference: sessions that agree on their public part are indistinguishable through
  the endpoints that read, so the flash image, the captured serial bytes, the recorded actions, the
  sensors, the breakpoints and the private paths have no influence on any answer.
\<close>

text \<open>The public part: of the serial tail its metadata, of the recorded actions their number.\<close>

definition same_public :: "session \<Rightarrow> session \<Rightarrow> bool" where
  "same_public s t \<longleftrightarrow> session_id s = session_id t \<and> board_id (session_board s) = board_id (session_board t)
     \<and> firmware s = firmware t \<and> created_at s = created_at t \<and> expires_at s = expires_at t \<and> state s = state t
     \<and> exit_code s = exit_code t \<and> generation s = generation t \<and> events s = events t
     \<and> events_dropped s = events_dropped t \<and> next_event_sequence s = next_event_sequence t
     \<and> generation_started_ns s = generation_started_ns t
     \<and> length (replay_actions s) = length (replay_actions t)
     \<and> replay_actions_dropped s = replay_actions_dropped t \<and> replay_status s = replay_status t
     \<and> replay_error s = replay_error t \<and> replay_speed s = replay_speed t
     \<and> serial_output_bytes s = serial_output_bytes t
     \<and> serial_metadata (concat (serial_buffer s)) = serial_metadata (concat (serial_buffer t))
     \<and> trace_events_recorded s = trace_events_recorded t \<and> trace_events_dropped s = trace_events_dropped t"

lemma same_public_answers:
  assumes "same_public s t"
  shows "list_events st s after lim = list_events st t after lim" "diagnostics st s = diagnostics st t"
    "replay_dict s = replay_dict t" "session_public_dict s = session_public_dict t"
proof -
  note eqs = assms [unfolded same_public_def]
  have r: "replay_dict s = replay_dict t" using eqs by (simp add: replay_dict_def)
  have "page_events st s after lim = page_events st t after lim" using eqs by (simp add: page_events_def)
  then show "list_events st s after lim = list_events st t after lim"
    using eqs by (simp add: list_events_def next_after_def cursor_truncated_def)
  show "replay_dict s = replay_dict t" by (rule r)
  show "diagnostics st s = diagnostics st t" unfolding diagnostics_def r using eqs by simp
  show "session_public_dict s = session_public_dict t" using eqs by (simp add: session_public_dict_def)
qed

lemma same_public_record:
  assumes "same_public s t"
  shows "same_public (fst (record_event st now c ty sr x s)) (fst (record_event st now c ty sr x t))"
    "snd (record_event st now c ty sr x s) = snd (record_event st now c ty sr x t)"
proof -
  have e: "new_event now c ty sr x s = new_event now c ty sr x t" "events s = events t" "events_dropped s = events_dropped t"
    using assms by (simp_all add: new_event_def same_public_def)
  show "same_public (fst (record_event st now c ty sr x s)) (fst (record_event st now c ty sr x t))"
    "snd (record_event st now c ty sr x s) = snd (record_event st now c ty sr x t)"
    using assms by (auto simp: record_event_def Let_def e same_public_def split: sum.split)
qed

text \<open>Pushing different items on recordings of the same length fares alike.\<close>

lemma same_public_append:
  assumes "same_public s t"
  shows "(\<exists>e. append_replay_action st a s = Inl e \<and> append_replay_action st b t = Inl e)
    \<or> (\<exists>s' t'. append_replay_action st a s = Inr s' \<and> append_replay_action st b t = Inr t' \<and> same_public s' t')"
proof -
  have l: "length (replay_actions s) = length (replay_actions t)" using assms by (simp add: same_public_def)
  then have "replay_actions s = [] \<longleftrightarrow> replay_actions t = []" by (cases "replay_actions s"; cases "replay_actions t") auto
  with assms show ?thesis
    by (cases "replay_actions s"; cases "replay_actions t")
      (auto simp: append_replay_action_def bounded_push_def same_public_def)
qed

definition same_view :: "string \<Rightarrow> world \<Rightarrow> world \<Rightarrow> bool" where
  "same_view sid u v \<longleftrightarrow> (\<exists>s t. find_session u sid = Some s \<and> find_session v sid = Some t \<and> same_public s t)"

text \<open>The requests that only read.\<close>

definition reads :: "string \<Rightarrow> api_request \<Rightarrow> bool" where
  "reads sid rq \<longleftrightarrow> rq = GetDiagnostics sid \<or> rq = GetReplay sid \<or> (\<exists>after lim. rq = GetEvents sid after lim)"

lemma same_view_answers:
  assumes "same_view sid u v" "reads sid rq"
  shows "snd (settle (serve en rq) u) = snd (settle (serve en rq) v)"
proof -
  obtain s t where "find_session u sid = Some s" "find_session v sid = Some t" "same_public s t"
    using assms(1) by (auto simp: same_view_def)
  with same_public_answers [OF this(3)] assms(2) show ?thesis
    by (auto simp: reads_def serve_def settle_translating run_simps)
qed

lemma same_view_record_input:
  assumes "same_view sid u v" "clock_ns u = clock_ns v"
  shows "same_view sid (fst (settle (record_input en sid (SerialAction p) x) u)) (fst (settle (record_input en sid (SerialAction q) x) v))"
proof -
  obtain s t where s: "find_session u sid = Some s" and t: "find_session v sid = Some t" and p: "same_public s t"
    using assms(1) by (auto simp: same_view_def)
  let ?a = "\<lparr>ra_offset_ms = now_offset_ms u s, ra_action = SerialAction p\<rparr>"
    and ?b = "\<lparr>ra_offset_ms = now_offset_ms v t, ra_action = SerialAction q\<rparr>"
  note simps = record_input_def offset_then_def append_act_def record_ev_def run_simps settle_recording s t to_result_def
  from same_public_append [OF p, of "cfg en" ?a ?b] show ?thesis
  proof (elim disjE exE conjE)
    fix e assume "append_replay_action (cfg en) ?a s = Inl e" "append_replay_action (cfg en) ?b t = Inl e"
    then show ?thesis using p by (simp add: simps same_view_def)
  next
    fix s' t'
    assume r: "append_replay_action (cfg en) ?a s = Inr s'" "append_replay_action (cfg en) ?b t = Inr t'" "same_public s' t'"
    from same_public_record(1) [OF r(3)] assms(2) r(1,2) show ?thesis
      by (auto simp: simps same_view_def split: option.split prod.split) (metis fst_conv)+
  qed
qed

text \<open>
  C19. The read endpoints reveal nothing private: two services whose sessions agree on their public
  part give the same events, diagnostics and replay status, whatever flash image, serial bytes,
  recorded actions and sensor values they hold; and recording serial input from the client keeps
  them indistinguishable when the payloads have the same length and digest.
\<close>

theorem reads_reveal_nothing_private:
  assumes "same_view sid u v" "reads sid rq" "clock_ns u = clock_ns v" "serial_metadata p = serial_metadata q"
  shows "snd (settle (serve en rq) u) = snd (settle (serve en rq) v)
    \<and> snd (settle (serve en rq) (fst (settle (record_input en sid (SerialAction p) (serial_metadata p)) u)))
     = snd (settle (serve en rq) (fst (settle (record_input en sid (SerialAction q) (serial_metadata q)) v)))"
  using same_view_answers [OF assms(1,2)] same_view_answers [OF same_view_record_input [OF assms(1,3)] assms(2)] assms(4)
  by simp

theorem reads_reveal_nothing_private_witness:
  "snd (settle (serve sample_env (GetDiagnostics ''s1'')) (idle_world RUNNING))
     = snd (settle (serve sample_env (GetDiagnostics ''s1'')) (update_session ''s1''
         (\<lambda>s. s\<lparr>initial_flash_image := [], virtual_power_state := Some (1, 2, True), debug_breakpoints := [3]\<rparr>) (idle_world RUNNING)))"
proof -
  have "same_view ''s1'' (idle_world RUNNING) (update_session ''s1''
      (\<lambda>s. s\<lparr>initial_flash_image := [], virtual_power_state := Some (1, 2, True), debug_breakpoints := [3]\<rparr>) (idle_world RUNNING))"
    by (simp add: same_view_def same_public_def)
  from reads_reveal_nothing_private [OF this, of "GetDiagnostics ''s1''" "[]" "[]"] show ?thesis
    by (simp add: reads_def)
qed

end
