(* ===== verification/Conformance.thy ===== *)
theory Conformance
  imports Api_Privacy
begin

section \<open>The base firmware contract (scripts/run-base-conformance.py)\<close>

text \<open>
  The script that drives one session of the manager through boot, debugging, input, power cycle and
  replay, and waits for what the firmware prints.  It is a client in the same process: a coroutine
  that calls the manager and reads the session record.  The messages of its errors, which only end
  the run, are shortened; what it prints is its result.  The property is what a run that passes has
  established, and a run of the contract without QMP is followed to its end.
\<close>

subsection \<open>Waiting for output\<close>

text \<open>
  \<open>bytes.decode("utf-8", "replace")\<close>: one replacement character for every maximal piece of an invalid
  sequence.  \<open>utf8_step\<close> is the first character and the number of bytes it takes.
\<close>

definition byte_in :: "bytes \<Rightarrow> nat \<Rightarrow> nat \<Rightarrow> nat \<Rightarrow> bool" where
  "byte_in bs i lo hi = (i < length bs \<and> lo \<le> unat (bs ! i) \<and> unat (bs ! i) \<le> hi)"

definition low_bits :: "bytes \<Rightarrow> nat \<Rightarrow> nat" where
  "low_bits bs i = unat (bs ! i) mod 64"

definition utf8_step :: "bytes \<Rightarrow> nat \<times> nat" where
  "utf8_step bs = (let b = unat (hd bs) in
     if b < 0x80 then (b, 1)
     else if 0xC2 \<le> b \<and> b \<le> 0xDF then
       (if byte_in bs 1 0x80 0xBF then ((b - 0xC0) * 64 + low_bits bs 1, 2) else (0xFFFD, 1))
     else if 0xE0 \<le> b \<and> b \<le> 0xEF then
       (if \<not> byte_in bs 1 (if b = 0xE0 then 0xA0 else 0x80) (if b = 0xED then 0x9F else 0xBF) then (0xFFFD, 1)
        else if \<not> byte_in bs 2 0x80 0xBF then (0xFFFD, 2)
        else (((b - 0xE0) * 64 + low_bits bs 1) * 64 + low_bits bs 2, 3))
     else if 0xF0 \<le> b \<and> b \<le> 0xF4 then
       (if \<not> byte_in bs 1 (if b = 0xF0 then 0x90 else 0x80) (if b = 0xF4 then 0x8F else 0xBF) then (0xFFFD, 1)
        else if \<not> byte_in bs 2 0x80 0xBF then (0xFFFD, 2)
        else if \<not> byte_in bs 3 0x80 0xBF then (0xFFFD, 3)
        else ((((b - 0xF0) * 64 + low_bits bs 1) * 64 + low_bits bs 2) * 64 + low_bits bs 3, 4))
     else (0xFFFD, 1))"

lemma utf8_step_progress: "0 < snd (utf8_step bs)"
  by (simp add: utf8_step_def Let_def)

function decode_replace :: "bytes \<Rightarrow> utext" where
  "decode_replace bs = (if bs = [] then [] else fst (utf8_step bs) # decode_replace (drop (snd (utf8_step bs)) bs))"
  by auto
termination by (relation "measure length") (auto simp: utf8_step_progress)

declare decode_replace.simps [simp del]

definition serial_text :: "session \<Rightarrow> utext" where
  "serial_text s = decode_replace (concat (serial_buffer s))"

text \<open>\<open>str.count\<close>: occurrences that do not overlap.\<close>

function count_text :: "utext \<Rightarrow> utext \<Rightarrow> nat" where
  "count_text p t =
     (if p = [] then Suc (length t) else if t = [] then 0
      else if take (length p) t = p then Suc (count_text p (drop (length p) t)) else count_text p (tl t))"
  by auto
termination by (relation "measure (\<lambda>(p, t). length t)") auto

declare count_text.simps [simp del]

definition wait_timeout_ns :: int where "wait_timeout_ns = 8000000000"

text \<open>The rounds: a sleep takes 50 milliseconds, so no more of them fit before the deadline.\<close>

definition wait_rounds :: nat where "wait_rounds = 162"

fun text_rounds :: "nat \<Rightarrow> int \<Rightarrow> string \<Rightarrow> utext \<Rightarrow> nat \<Rightarrow> utext task" where
  "text_rounds 0 deadline sid expected n = raising TimeoutError"
| "text_rounds (Suc k) deadline sid expected n = look (\<lambda>w. with_session sid (\<lambda>s.
     if deadline \<le> clock_ns w then raising TimeoutError
     else if n \<le> count_text expected (serial_text s) then return (serial_text s)
     else if state s \<noteq> RUNNING then raising (RuntimeError ''worker stopped before the expected text'')
     else seq pause_point (text_rounds k deadline sid expected n)))"

definition wait_for_text :: "string \<Rightarrow> string \<Rightarrow> nat \<Rightarrow> utext task" where
  "wait_for_text sid expected n = look (\<lambda>w. text_rounds wait_rounds (clock_ns w + wait_timeout_ns) sid (lit expected) n)"

definition expect :: "string \<Rightarrow> string \<Rightarrow> unit task" where
  "expect sid t = seq (wait_for_text sid t 1) (return ())"

definition observed_types :: "session \<Rightarrow> string list" where
  "observed_types s = map ev_type (filter (\<lambda>e. ev_generation e = generation s \<and> ev_category e = Peripheral) (events s))"

fun trace_rounds :: "nat \<Rightarrow> int \<Rightarrow> string \<Rightarrow> string list \<Rightarrow> string list task" where
  "trace_rounds 0 deadline sid expected = raising TimeoutError"
| "trace_rounds (Suc k) deadline sid expected = look (\<lambda>w. with_session sid (\<lambda>s.
     if deadline \<le> clock_ns w then raising TimeoutError
     else if list_all (\<lambda>t. t \<in> set (observed_types s)) expected then return (observed_types s)
     else if state s \<noteq> RUNNING then raising (RuntimeError ''worker stopped before the expected peripheral traces appeared'')
     else seq pause_point (trace_rounds k deadline sid expected)))"

definition wait_for_trace_types :: "string \<Rightarrow> string list \<Rightarrow> string list task" where
  "wait_for_trace_types sid expected =
     look (\<lambda>w. trace_rounds wait_rounds (clock_ns w + wait_timeout_ns) sid expected)"

subsection \<open>What the contract expects\<close>

definition is_cardputer :: "board_profile \<Rightarrow> bool" where
  "is_cardputer board = (board_id board = ''cardputer-adv'')"

definition imu_zero_text :: string where "imu_zero_text = ''SIM:IMU_RAW ax=0 ay=0 az=4096 gx=0 gy=0 gz=0''"
definition imu_tilted_text :: string where "imu_tilted_text = ''SIM:IMU_RAW ax=4096 ay=0 az=0 gx=0 gy=0 gz=4096''"

definition power_text :: "board_profile \<Rightarrow> string" where
  "power_text board = (if is_cardputer board
     then ''SIM:POWER battery_mv=3704 adc_raw=2001 source=adc charging=unavailable''
     else ''SIM:POWER battery_mv=3700 vin_mv=0 source=2 charging=0'')"

definition boot_texts :: "board_profile \<Rightarrow> string list" where
  "boot_texts board =
     (if is_cardputer board then
        [''SIM:TCA8418 address=0x34 cfg=0x01'', ''SIM:TCA8418_IRQ pin=11 mode=change'',
         ''SIM:LEDC channel=7 pin=38 frequency=256 duty=110 configured=1'',
         ''SIM:BMI270 address=0x68 chip_id=0x24 ready=1'',
         ''SIM:BATTERY_ADC gpio=10 unit=1 channel=9 ratio=2.0'', imu_zero_text,
         ''SIM:POWER battery_mv=3898 adc_raw=2107 source=adc charging=unavailable'']
      else
        [''SIM:PSRAM bytes=8388608 test=pass'', ''SIM:BUTTONS a_gpio=11 b_gpio=12 active=low'',
         ''SIM:BMI270 address=0x68 chip_id=0x24 ready=1'', ''SIM:M5PM1 address=0x6e device_id=0x51 ready=1'',
         imu_zero_text, ''SIM:POWER battery_mv=3900 vin_mv=5000 source=0 charging=1''])
     @ [''SIM:DISPLAY controller=st7789 width='' @ str_int (disp_width (display board)) @ '' height=''
          @ str_int (disp_height (display board)) @ '' pattern=red-blue'',
        ''SIM:BOOT version=1 profile='' @ board_id board,
        ''SIM:NVS boot_count=1 write_bytes=4 readback=1'', ''SIM:READY'']"

definition nvs_text :: "nat \<Rightarrow> string" where
  "nvs_text n = ''SIM:NVS boot_count='' @ str_nat n @ '' write_bytes=4 readback='' @ str_nat n"

definition boot_trace_types :: "board_profile \<Rightarrow> string list" where
  "boot_trace_types board =
     [''peripheral.display.command'', ''peripheral.display.window'', ''peripheral.gpio.output'',
      ''peripheral.i2c.event'', ''peripheral.spi.transaction'']
     @ (if is_cardputer board then [''peripheral.adc.conversion''] else [])"

definition input_trace_types :: "board_profile \<Rightarrow> string list" where
  "input_trace_types board = (if is_cardputer board then [''peripheral.imu.sample'', ''peripheral.keyboard.event'']
     else [''peripheral.button'', ''peripheral.imu.sample'', ''peripheral.power.state''])"

definition navigation_keys :: "(string \<times> byte) list" where
  "navigation_keys = [(''w'', 0x0C), (''a'', 0x0D), (''s'', 0x11), (''d'', 0x17), (''enter'', 0x43)]"

definition raw_key_text :: "byte \<Rightarrow> string" where
  "raw_key_text b = ''SIM:KEY raw=0x'' @ hex_bytes [b]"

text \<open>The sensor values of the contract: 1, 0 and 250 are exact floats.\<close>

definition tilt :: vec3 where "tilt = (Fin 1 0, Fin 0 0, Fin 0 0)"
definition turn :: vec3 where "turn = (Fin 0 0, Fin 0 0, Fin 250 0)"

subsection \<open>The run\<close>

definition check :: "bool \<Rightarrow> string \<Rightarrow> unit task" where
  "check b message = guard b (RuntimeError message)"

definition heartbeat :: string where "heartbeat = ''SIM:HEARTBEAT''"

definition count_heartbeats :: "session \<Rightarrow> nat" where
  "count_heartbeats s = count_text (lit heartbeat) (serial_text s)"

definition expect_beats :: "string \<Rightarrow> nat \<Rightarrow> unit task" where
  "expect_beats sid n = seq (wait_for_text sid heartbeat n) (return ())"

definition boot_stage :: "string \<Rightarrow> board_profile \<Rightarrow> unit task" where
  "boot_stage sid board =
     seq (foreach (boot_texts board) (expect sid))
    (seq (expect_beats sid 3)
    (seq (wait_for_trace_types sid (boot_trace_types board)) (return ())))"

definition debug_stage :: "env \<Rightarrow> string \<Rightarrow> unit task" where
  "debug_stage en sid =
     seq (pause en sid)
    (seq (with_session sid (\<lambda>s. check (state s = PAUSED) ''session did not enter paused state''))
    (then_do (debug_registers en sid) (\<lambda>registers. case map_of registers (lit ''pc'') of
       Some (Some pc) \<Rightarrow>
         then_do (debug_read_memory en sid (int pc) 4) (\<lambda>instruction.
         seq (check (length instruction = 4) ''debugger returned a short instruction read'')
        (seq (debug_set_breakpoint en sid (int pc) True)
        (seq (debug_set_breakpoint en sid (int pc) False)
        (then_do (debug_step en sid) (\<lambda>stop_reason.
           check (starts ''S'' stop_reason \<or> starts ''T'' stop_reason) ''debugger single-step did not stop the CPU'')))))
     | _ \<Rightarrow> raising (RuntimeError ''debugger did not expose the Xtensa PC register''))))"

text \<open>Top half red, bottom half blue, at the corners and at the boundary.\<close>

definition pixel_checks :: "board_profile \<Rightarrow> (int \<times> int \<times> bytes) list" where
  "pixel_checks board = (let w = disp_width (display board); h = disp_height (display board) in
     [(0, 0, [255, 0, 0]), (w - 1, h div 2 - 1, [255, 0, 0]), (0, h div 2, [0, 0, 255]), (w - 1, h - 1, [0, 0, 255])])"

definition check_frame :: "board_profile \<Rightarrow> rgb_frame \<Rightarrow> unit task" where
  "check_frame board f =
     seq (check (frame_width f = disp_width (display board) \<and> frame_height f = disp_height (display board))
         ''unexpected framebuffer size'')
       (foreach (pixel_checks board) (\<lambda>(x, y, rgb). then_do (sum_task (frame_pixel f x y)) (\<lambda>p.
          check (p = rgb) ''framebuffer pattern is incorrect'')))"

definition key_step :: "env \<Rightarrow> string \<Rightarrow> string \<times> byte \<Rightarrow> unit task" where
  "key_step en sid step = (case step of (key, raw_code) \<Rightarrow>
     seq (send_key en sid key True) (seq pause_point (seq (send_key en sid key False)
    (seq (expect sid (raw_key_text (raw_code OR 0x80))) (expect sid (raw_key_text raw_code))))))"

definition button_step :: "env \<Rightarrow> string \<Rightarrow> string \<times> bool \<Rightarrow> unit task" where
  "button_step en sid step = (case step of (button, pressed) \<Rightarrow>
     seq (send_button en sid button pressed)
       (expect sid (''SIM:BUTTON id='' @ button @ '' pressed='' @ (if pressed then ''1'' else ''0''))))"

definition button_steps :: "(string \<times> bool) list" where
  "button_steps = [(''a'', True), (''a'', False), (''b'', True), (''b'', False)]"

definition input_stage :: "env \<Rightarrow> string \<Rightarrow> board_profile \<Rightarrow> unit task" where
  "input_stage en sid board =
     seq (if is_cardputer board then foreach navigation_keys (key_step en sid) else foreach button_steps (button_step en sid))
    (seq (set_imu_sample en sid tilt turn)
    (seq (expect sid imu_tilted_text)
    (seq (set_power_state en sid 3700 0 False)
    (seq (expect sid (power_text board))
    (seq (wait_for_trace_types sid (boot_trace_types board @ input_trace_types board)) (return ()))))))"

text \<open>Pause, look, resume, and the board's inputs: the stages that need QMP.\<close>

definition interactive_stage :: "env \<Rightarrow> string \<Rightarrow> board_profile \<Rightarrow> unit task" where
  "interactive_stage en sid board =
     seq (debug_stage en sid)
    (seq pause_point
    (with_session sid (\<lambda>s. let paused = count_heartbeats s in
       seq pause_point
      (seq (with_session sid (\<lambda>s. check (count_heartbeats s = paused) ''firmware continued running while session was paused''))
      (seq (then_do (capture_framebuffer en sid) (check_frame board))
      (seq (resume_session en sid)
      (seq (with_session sid (\<lambda>s. check (state s = RUNNING) ''session did not return to running state''))
      (seq (expect_beats sid (paused + 1))
        (input_stage en sid board)))))))))"

definition power_cycle_stage :: "env \<Rightarrow> string \<Rightarrow> board_profile \<Rightarrow> unit task" where
  "power_cycle_stage en sid board = with_session sid (\<lambda>s. let beats = count_heartbeats s in
     seq (reset en sid)
    (seq (expect sid (nvs_text 2))
    (seq (expect_beats sid (beats + 1))
    (seq (power_off en sid)
    (seq (with_session sid (\<lambda>s. check (state s = POWERED_OFF) ''session did not enter powered-off state''))
    (seq (look (\<lambda>w. with_session sid (\<lambda>s. check (process s = None \<and> is_file (files w) (flash_path s))
         ''powered-off session did not retain only private flash'')))
    (seq (power_on en sid)
    (seq (with_session sid (\<lambda>s. check (state s = RUNNING) ''session did not cold-boot back to running state''))
    (seq (expect sid (nvs_text 3))
    (seq (expect sid imu_tilted_text)
      (expect sid (power_text board))))))))))))"

text \<open>\<open>await replay_task\<close> passes on how the task ended.\<close>

definition await_task :: "nat \<Rightarrow> unit task" where
  "await_task t = suspend (is_done t) (\<lambda>i w. (w, case map_of (finished w) t of Some (Some e) \<Rightarrow> Inl e | _ \<Rightarrow> Inr ()))"

definition replayed_inputs :: "session \<Rightarrow> nat" where
  "replayed_inputs s = length (filter (\<lambda>e. ev_generation e = generation s \<and> ev_source e = FromReplay
     \<and> list_ex (\<lambda>p. take (length p) (ev_type e) = p) [''input.'', ''session.reset'', ''session.powered_'']) (events s))"

definition replay_stage :: "env \<Rightarrow> string \<Rightarrow> board_profile \<Rightarrow> nat \<Rightarrow> utext task" where
  "replay_stage en sid board boots = with_session sid (\<lambda>s0.
     let actions = length (replay_actions s0) in
     seq (check (actions \<noteq> 0) ''conformance run did not record replayable input'')
    (seq (start_replay en sid (Fin 1 0))
    (seq (with_session sid (\<lambda>s. check (replay_status s = ''queued'' \<and> replay_task s \<noteq> None)
         ''replay did not enter its queued state''))
    (seq (with_session sid (\<lambda>s. case replay_task s of None \<Rightarrow> return () | Some t \<Rightarrow> await_task t))
    (seq (with_session sid (\<lambda>s. check (replay_status s = ''completed'') ''replay did not complete''))
    (seq (with_session sid (\<lambda>s. check (generation s = generation s0 + 1) ''replay did not start a new worker generation''))
    (then_do (wait_for_text sid (nvs_text boots) 1) (\<lambda>replay_output.
     seq (wait_for_trace_types sid (boot_trace_types board @ input_trace_types board))
    (seq (with_session sid (\<lambda>s. check (replayed_inputs s = actions) ''replay event count did not match the recorded external inputs''))
    (seq (with_session sid (\<lambda>s. check (\<exists>e\<in>set (events s). ev_generation e = generation s \<and> ev_type e = ''replay.completed'')
         ''replay completion was not recorded''))
      (return replay_output)))))))))))"

definition contract :: "env \<Rightarrow> string \<Rightarrow> board_profile \<Rightarrow> bool \<Rightarrow> utext task" where
  "contract en sid board qmp =
     seq (boot_stage sid board)
    (seq (if qmp then interactive_stage en sid board else return ())
    (seq (write_serial en sid (map (of_nat \<circ> of_char) (''ping'' @ [CHR 0x0A])))
    (seq (expect sid ''SIM:PONG'')
    (seq (if qmp then power_cycle_stage en sid board else return ())
    (with_session sid (\<lambda>s. let beats = count_heartbeats s; boots = (if qmp then 4 else 2) in
       seq (write_serial en sid (map (of_nat \<circ> of_char) (''reset'' @ [CHR 0x0A])))
      (then_do (wait_for_text sid (nvs_text boots) 1) (\<lambda>output.
       seq (expect_beats sid (beats + 1))
      (then_do (if qmp then replay_stage en sid board boots else return output) (\<lambda>output.
       seq (stop en sid False)
      (seq (look (\<lambda>w. with_session sid (\<lambda>s. check (\<not> exists_path (files w) (runtime_directory s))
           ''session runtime directory was not removed'')))
        (return output))))))))))))"

record contract_args =
  arg_qemu :: path
  arg_rom :: path
  arg_firmware :: path
  arg_board :: string
  arg_sandbox :: string
  arg_sandbox_executable :: path
  arg_readonly :: "path list"
  arg_qmp :: bool

definition contract_settings :: "string list \<Rightarrow> filesys \<Rightarrow> path \<Rightarrow> contract_args \<Rightarrow> exn + settings" where
  "contract_settings dir fs root a =
     sum_bind (resolve fs dir (arg_qemu a)) (\<lambda>qemu. sum_bind (resolve fs dir (arg_rom a)) (\<lambda>rom.
     sum_bind (WorkerSandboxMode (arg_sandbox a)) (\<lambda>sandbox.
     sum_bind (resolve fs dir (arg_sandbox_executable a)) (\<lambda>bwrap.
       Inr ((default_settings root qemu rom)\<lparr>native_workers_enabled := True, worker_qmp_enabled := arg_qmp a,
         worker_debug_enabled := arg_qmp a, worker_sandbox_mode := sandbox, worker_sandbox_executable := bwrap,
         worker_sandbox_readonly_paths := (if arg_readonly a \<noteq> [] then map (absolute dir) (arg_readonly a)
           else DEFAULT_SANDBOX_READONLY_PATHS),
         session_ttl_seconds := 30, worker_memory_limit_mib := 1536, worker_cpu_limit_seconds := 20\<rparr>)))))"

definition read_file :: "path \<Rightarrow> bytes task" where
  "read_file p = look (\<lambda>w. case files w (follow (files w) p) of
     None \<Rightarrow> raising (FileNotFoundError (str_path p))
   | Some n \<Rightarrow> (case kind n of Regular bs \<Rightarrow> return bs | _ \<Rightarrow> raising (OSError (str_path p))))"

text \<open>The exit of \<open>TemporaryDirectory\<close> raises when something cannot be removed.\<close>

definition remove_temporary :: "path \<Rightarrow> unit task" where
  "remove_temporary root = Do (\<lambda>w. let fs = rmtree (stuck w) root (files w) in
     (w\<lparr>files := fs\<rparr>, Ret (if fs root = None then Inr () else Inl (OSError (str_path root)))))"

text \<open>\<open>run\<close>, in a temporary directory of its own that is removed in the end.\<close>

definition run_contract :: "env \<Rightarrow> nat \<Rightarrow> path \<Rightarrow> contract_args \<Rightarrow> utext task" where
  "run_contract en rounds root a =
     then_do (sum_task (get_board_profile (arg_board a))) (\<lambda>board.
     seq (change (\<lambda>w. w\<lparr>files := make_dir (os_id en) (octal [7, 0, 0]) root (files w)\<rparr>))
       (always
         (look (\<lambda>w. then_do (sum_task (contract_settings (cwd en) (files w) root a)) (\<lambda>st.
            let en = en\<lparr>cfg := st\<rparr> in
            seq (start en rounds)
              (always
                (then_do (read_file (arg_firmware a)) (\<lambda>upload.
                 then_do (create_session en board upload) (\<lambda>sid. contract en sid board (arg_qmp a))))
                (close en)))))
         (remove_temporary root)))"

subsection \<open>What the contract can rely on\<close>

text \<open>Waiting for a text is sound, whatever runs meanwhile.\<close>

lemma wp_text_rounds:
  "wp R (text_rounds k deadline sid expected n) (\<lambda>r u. \<forall>out. r = Inr out \<longrightarrow>
     (\<exists>s. find_session u sid = Some s \<and> out = serial_text s \<and> n \<le> count_text expected out)) w"
proof (induction k arbitrary: w)
  case (Suc k)
  have "wp R (seq pause_point (text_rounds k deadline sid expected n)) (\<lambda>r u. \<forall>out. r = Inr out \<longrightarrow>
     (\<exists>s. find_session u sid = Some s \<and> out = serial_text s \<and> n \<le> count_text expected out)) u" for u
    by (rule wp_seq_any) (use Suc.IH in auto)
  then show ?case by (simp add: wp_simps(1,2,4) split: option.split)
qed (simp add: wp_simps)

lemma wp_wait_for_text:
  "wp R (wait_for_text sid expected n) (\<lambda>r u. \<forall>out. r = Inr out \<longrightarrow>
     (\<exists>s. find_session u sid = Some s \<and> out = serial_text s \<and> n \<le> count_text (lit expected) out)) w"
  unfolding wait_for_text_def wp_simps(4) by (rule wp_text_rounds)

theorem awaited_text_printed:
  assumes "ends R (wait_for_text sid expected n) w (Inr out) w'"
  shows "\<exists>s. find_session w' sid = Some s \<and> out = serial_text s \<and> n \<le> count_text (lit expected) out"
  using wp_sound [OF assms wp_wait_for_text] by simp

text \<open>A replayed contract prints the boot banner of the replayed generation.\<close>

lemma wp_then_do_from:
  "wp R p P w \<Longrightarrow> (\<And>x u. P (Inr x) u \<Longrightarrow> wp R (f x) Q u) \<Longrightarrow> (\<And>e u. Q (Inl e) u) \<Longrightarrow> wp R (then_do p f) Q w"
  unfolding wp_simps by (erule wp_mono) (auto split: sum.split)

lemma wp_replay_stage:
  "wp R (replay_stage en sid board boots) (\<lambda>r u. \<forall>out. r = Inr out \<longrightarrow> 1 \<le> count_text (lit (nvs_text boots)) out) w"
proof -
  let ?Q = "\<lambda>r (u :: world). \<forall>out. r = Inr out \<longrightarrow> 1 \<le> count_text (lit (nvs_text boots)) out"
  have "wp R (seq p (seq q (seq q' (return out)))) ?Q u" if "1 \<le> count_text (lit (nvs_text boots)) out"
    for p :: "string list task" and q q' :: "unit task" and out u
    by (rule wp_seq_any, rule wp_seq_any, rule wp_seq_any) (use that in \<open>simp_all add: wp_simps(1)\<close>)
  then have "wp R (then_do (wait_for_text sid (nvs_text boots) 1) (\<lambda>out. seq p (seq q (seq q' (return out))))) ?Q u"
    for p :: "string list task" and q q' :: "unit task" and u
    by (intro wp_then_do_from [OF wp_wait_for_text]) auto
  then show ?thesis
    unfolding replay_stage_def Let_def
    by (intro wp_with_session_any wp_seq_any) simp_all
qed

text \<open>
  C39. What a passed contract says: when the script's run of the base contract returns, whatever else went on
  in the service, the session is stopped, with nothing private left of it and its directory gone, its log
  ends with the stop, and the output it prints holds the boot banner of the last boot the contract
  counts: the fourth with a power cycle and a replay, the second without.
\<close>

theorem contract_passed:
  assumes "ends R (contract en sid board qmp) w (Inr out) w'"
  shows "(\<exists>s. find_session w' sid = Some s \<and> state s = STOPPED \<and> private_data_gone s w'
      \<and> \<not> exists_path (files w') (runtime_directory s)
      \<and> events s \<noteq> [] \<and> ev_type (last (events s)) = ''session.stopped'')
    \<and> 1 \<le> count_text (lit (nvs_text (if qmp then 4 else 2))) out"
proof -
  let ?n = "if qmp then 4 else 2 :: nat"
  define G where "G = (\<lambda>out u. (\<exists>s. find_session u sid = Some s \<and> state s = STOPPED \<and> private_data_gone s u
      \<and> \<not> exists_path (files u) (runtime_directory s)
      \<and> events s \<noteq> [] \<and> ev_type (last (events s)) = ''session.stopped'')
    \<and> 1 \<le> count_text (lit (nvs_text ?n)) out)"
  let ?Q = "\<lambda>r u. \<forall>out. r = Inr out \<longrightarrow> G out u"
  let ?check = "look (\<lambda>w. with_session sid (\<lambda>s. check (\<not> exists_path (files w) (runtime_directory s))
           ''session runtime directory was not removed''))"
  have final: "wp R (seq (stop en sid False) (seq ?check (return out))) ?Q u"
    if "1 \<le> count_text (lit (nvs_text ?n)) out" for out u
    by (rule wp_seq_from [OF wp_stop]) (use that in \<open>auto simp: G_def check_def wp_simps split: option.split\<close>)
  have stage: "wp R (then_do (if qmp then replay_stage en sid board ?n else return out)
      (\<lambda>out. seq (stop en sid False) (seq ?check (return out)))) ?Q u"
    if "1 \<le> count_text (lit (nvs_text ?n)) out" for out u
    by (rule wp_then_do_from [where P = "\<lambda>r u. \<forall>out. r = Inr out \<longrightarrow> 1 \<le> count_text (lit (nvs_text ?n)) out"])
      (use that wp_replay_stage [of R en sid board 4] final in \<open>auto simp: wp_simps(1)\<close>)
  have "wp R (then_do (wait_for_text sid (nvs_text ?n) 1) (\<lambda>output. seq (expect_beats sid b)
     (then_do (if qmp then replay_stage en sid board ?n else return output)
       (\<lambda>out. seq (stop en sid False) (seq ?check (return out)))))) ?Q u" for b u
    by (rule wp_then_do_from [OF wp_wait_for_text], rule wp_seq_any, rule stage) auto
  then have "wp R (contract en sid board qmp) ?Q w"
    unfolding contract_def Let_def
    by (intro wp_seq_any wp_with_session_any) simp_all
  from wp_sound [OF assms this] show ?thesis by (simp add: G_def)
qed

subsection \<open>A run that passes\<close>

text \<open>ASCII output reads as it was printed, and what was printed is counted.\<close>

lemma decode_ascii: "list_all (\<lambda>b. unat b < 128) bs \<Longrightarrow> decode_replace bs = map unat bs"
  by (induction bs) (simp_all add: decode_replace.simps utf8_step_def Let_def)

definition ascii_text :: "string \<Rightarrow> bool" where
  "ascii_text t \<longleftrightarrow> list_all (\<lambda>c. of_char c < (128 :: nat)) t"

lemma decode_ascii_text: "ascii_text t \<Longrightarrow> decode_replace (ascii t) = lit t"
proof -
  assume a: "ascii_text t"
  have "unat (of_char c :: byte) = of_char c" for c :: char
    by (simp add: unat_of_char)
  with a show ?thesis by (subst decode_ascii) (simp_all add: ascii_text_def ascii_def lit_def list_all_iff)
qed

lemma count_first: "p \<noteq> [] \<Longrightarrow> count_text p (p @ t) = Suc (count_text p t)"
  by (simp add: count_text.simps [of p "p @ t"])

lemma count_replicate: "p \<noteq> [] \<Longrightarrow> count_text p (concat (replicate n p) @ t) = n + count_text p t"
  by (induction n) (simp_all add: count_first)

lemma count_inside: "p \<noteq> [] \<Longrightarrow> 1 \<le> count_text p (a @ p @ b)"
proof (induction a)
  case Nil
  then show ?case by (simp add: count_first)
next
  case (Cons x a)
  then show ?case by (simp add: count_text.simps [of p "x # a @ p @ b"])
qed

lemma count_printed: "l \<in> set ls \<Longrightarrow> l \<noteq> [] \<Longrightarrow> 1 \<le> count_text (lit l) (lit (concat ls))"
proof -
  assume l: "l \<in> set ls" "l \<noteq> []"
  then obtain xs ys where "ls = xs @ l # ys" by (meson split_list)
  then have "lit (concat ls) = lit (concat xs) @ lit l @ lit (concat ys)" by (simp add: lit_def)
  moreover have "lit l \<noteq> []" using l by (simp add: lit_def)
  ultimately show ?thesis using count_inside by metis
qed

text \<open>Waiting is over at once when the text is there.\<close>

lemma ends_wait_for_text:
  assumes "find_session w sid = Some s" "n \<le> count_text (lit t) (serial_text s)"
  shows "ends R (wait_for_text sid t n) w (Inr (serial_text s)) w"
proof (rule ends_settled)
  obtain k where k: "wait_rounds = Suc k" using gr0_implies_Suc [of wait_rounds] by (auto simp: wait_rounds_def)
  show "settle (wait_for_text sid t n) w = (w, Ret (Inr (serial_text s)))"
    using assms unfolding wait_for_text_def k by (simp add: run_simps wait_timeout_ns_def)
qed

lemma ends_expect:
  assumes "find_session w sid = Some s" "1 \<le> count_text (lit t) (serial_text s)"
  shows "ends R (expect sid t) w (Inr ()) w"
  unfolding expect_def by (rule ends_seq [OF ends_wait_for_text [OF assms] ends_return])

lemma ends_beats:
  assumes "find_session w sid = Some s" "n \<le> count_heartbeats s"
  shows "ends R (expect_beats sid n) w (Inr ()) w"
  unfolding expect_beats_def
  by (rule ends_seq [OF ends_wait_for_text ends_return]) (use assms in \<open>auto simp: count_heartbeats_def\<close>)

lemma ends_wait_for_traces:
  assumes "find_session w sid = Some s" "list_all (\<lambda>t. t \<in> set (observed_types s)) ts"
  shows "ends R (wait_for_trace_types sid ts) w (Inr (observed_types s)) w"
proof (rule ends_settled)
  obtain k where k: "wait_rounds = Suc k" using gr0_implies_Suc [of wait_rounds] by (auto simp: wait_rounds_def)
  show "settle (wait_for_trace_types sid ts) w = (w, Ret (Inr (observed_types s)))"
    using assms unfolding wait_for_trace_types_def k by (simp add: run_simps wait_timeout_ns_def)
qed

lemma ends_boot_stage:
  assumes "find_session w sid = Some s" "\<forall>t\<in>set (boot_texts board). 1 \<le> count_text (lit t) (serial_text s)"
    and "3 \<le> count_heartbeats s" "list_all (\<lambda>t. t \<in> set (observed_types s)) (boot_trace_types board)"
  shows "ends R (boot_stage sid board) w (Inr ()) w"
  unfolding boot_stage_def
  by (rule ends_seq [OF ends_foreach ends_seq [OF ends_beats [OF assms(1,3)] ends_seq [OF ends_wait_for_traces [OF assms(1,4)] ends_return]]])
    (use assms(2) in \<open>auto intro: ends_expect [OF assms(1)]\<close>)

text \<open>A guest that has printed a text.\<close>

definition traced_event :: "string \<Rightarrow> session_event" where
  "traced_event ty = \<lparr>ev_sequence = 0, ev_generation = 1, ev_offset_ms = 0, ev_category = Peripheral, ev_type = ty,
     ev_source = FromWorker, ev_data = no_data\<rparr>"

definition printed_session :: "string \<Rightarrow> nat option \<Rightarrow> session" where
  "printed_session t pr = (idle_session RUNNING)\<lparr>serial_buffer := [ascii t], process := pr,
     events := map traced_event (boot_trace_types STICKS3)\<rparr>"

definition printed_world :: "string \<Rightarrow> nat option \<Rightarrow> world" where
  "printed_world t pr = (idle_world RUNNING)\<lparr>sessions := [(''s1'', printed_session t pr)],
     procs := (\<lambda>_. None)(5 \<mapsto> quiet_worker)\<rparr>"

definition after_input :: "bytes \<Rightarrow> world \<Rightarrow> world" where
  "after_input p v = fst (settle (record_input sample_env ''s1'' (SerialAction p) (serial_metadata p)) v)"

lemma printed_simps [simp]:
  "find_session (printed_world t pr) ''s1'' = Some (printed_session t pr)" "\<not> cancel_pending (printed_world t pr)"
  "held (printed_world t pr) = []" "files (printed_world t pr) = sample_files" "stuck (printed_world t pr) = (\<lambda>_. False)"
  "procs (printed_world t pr) = (\<lambda>_. None)(5 \<mapsto> quiet_worker)"
  by (simp_all add: printed_world_def find_session_def cancel_pending_def idle_world_def initial_world_def)

lemma boot_types_length [simp]: "length (boot_trace_types STICKS3) = 5"
  by (simp add: boot_trace_types_def is_cardputer_def STICKS3_def imu_zero_text_def str_int_def str_nat_def base_digits.simps
        digit_char_def)

lemma printed_session_simps [simp]:
  "state (printed_session t pr) = RUNNING" "accept_live_input (printed_session t pr)" "process (printed_session t pr) = pr"
  "serial_buffer (printed_session t pr) = [ascii t]" "replay_actions (printed_session t pr) = []"
  "reader_task (printed_session t pr) = None" "trace_reader_task (printed_session t pr) = None"
  "replay_task (printed_session t pr) = None" "gdb_ref (printed_session t pr) = None" "debug_run_task (printed_session t pr) = None"
  "generation (printed_session t pr) = 1"
  "events (printed_session t pr) = map traced_event (boot_trace_types STICKS3)"
  by (simp_all add: printed_session_def idle_session_def new_session_def Let_def boot_trace_types_def is_cardputer_def STICKS3_def imu_zero_text_def str_int_def str_nat_def base_digits.simps
        digit_char_def)

lemma taken_world:
  "settle (record_input sample_env ''s1'' (SerialAction p) (serial_metadata p)) (printed_world t pr)
     = (after_input p (printed_world t pr), Ret (Inr ()))"
  "\<exists>s. find_session (after_input p (printed_world t pr)) ''s1'' = Some s \<and> serial_buffer s = [ascii t] \<and> process s = pr
     \<and> state s = RUNNING \<and> accept_live_input s \<and> reader_task s = None \<and> trace_reader_task s = None \<and> replay_task s = None
     \<and> gdb_ref s = None \<and> debug_run_task s = None \<and> int (length (events s)) < 4096
     \<and> runtime_directory s = runtime_directory (idle_session RUNNING)"
  "files (after_input p (printed_world t pr)) = sample_files" "held (after_input p (printed_world t pr)) = []"
  "stuck (after_input p (printed_world t pr)) = (\<lambda>_. False)"
  "procs (after_input p (printed_world t pr)) = (\<lambda>_. None)(5 \<mapsto> quiet_worker)"
  by (simp_all add: after_input_def record_input_def offset_then_def append_act_def record_ev_def settle_recording run_simps
      append_replay_action_def bounded_push_def record_event_room to_result_def) (simp_all add: printed_session_def)

text \<open>Serial input is taken while the guest goes on printing.\<close>

lemma ends_write:
  assumes "find_session w ''s1'' = Some s" "state s = RUNNING" "accept_live_input s" "process s = Some 5"
    and "procs w 5 = Some quiet_worker"
  shows "ends (\<lambda>u v. True) (write_serial sample_env ''s1'' p) w (Inr ()) (after_input p (printed_world t pr))"
proof -
  let ?f = "update_worker 5 (\<lambda>k. k\<lparr>stdin_written := stdin_written k @ [p]\<rparr>)"
  have "ends (\<lambda>u v. True) (stdin_send 5 p) w (Inr ()) (printed_world t pr)"
    unfolding stdin_send_def suspend_def
    by (rule ends_seq [OF ends_change], rule ends_Await [where u = "printed_world t pr" and i = sample_input])
      (auto simp: sample_input_def intro: ends.ends_Ret)
  then have "ends (\<lambda>u v. True) (serial_input ''s1'' p) w (Inr ()) (printed_world t pr)"
    unfolding serial_input_def with_session_def
    by (intro ends_look) (simp add: assms quiet_worker_def ends_look)
  then show ?thesis
    unfolding write_serial_def with_session_def require_live_input_def guard_def
    by - (rule ends_look, simp add: assms, rule ends_seq [OF ends_return], erule ends_seq, rule ends_settled, rule taken_world(1))
qed

text \<open>The output of the two boots.\<close>

definition boot_lines :: "string list" where
  "boot_lines = [heartbeat, heartbeat, heartbeat] @ boot_texts STICKS3 @ [''SIM:PONG'']"

definition second_boot :: "nat \<Rightarrow> string" where
  "second_boot n = concat (replicate n heartbeat) @ nvs_text 2"

lemma boot_text_ascii: "ascii_text (concat boot_lines)" "ascii_text (second_boot n)"
proof -
  have a: "ascii_text (concat ls) \<longleftrightarrow> list_all ascii_text ls" for ls by (induction ls) (simp_all add: ascii_text_def)
  have b: "ascii_text heartbeat" by (simp add: ascii_text_def heartbeat_def)
  have c: "ascii_text (nvs_text 2)" by (simp add: ascii_text_def nvs_text_def str_nat_def base_digits.simps digit_char_def)
  have "list_all ascii_text (boot_texts STICKS3)"
    by (simp add: ascii_text_def boot_texts_def is_cardputer_def STICKS3_def imu_zero_text_def str_int_def str_nat_def base_digits.simps
        digit_char_def)
  with b show "ascii_text (concat boot_lines)" by (auto simp: boot_lines_def ascii_text_def [abs_def] list_all_iff)
  from b c show "ascii_text (second_boot n)" by (auto simp: second_boot_def a ascii_text_def list_all_iff)
qed

lemma lit_texts: "lit (a @ b) = lit a @ lit b" "lit t = [] \<longleftrightarrow> t = []" "lit (concat ls) = concat (map lit ls)"
  by (simp_all add: lit_def) (induction ls, simp_all add: lit_def)

lemma printed_text: "serial_buffer s = [ascii t] \<Longrightarrow> ascii_text t \<Longrightarrow> serial_text s = lit t"
  by (simp add: serial_text_def decode_ascii_text)

theorem contract_passed_witness:
  "\<exists>out w' s. ends (\<lambda>u v. True) (contract sample_env ''s1'' STICKS3 False) (printed_world (concat boot_lines) (Some 5)) (Inr out) w'
     \<and> find_session w' ''s1'' = Some s \<and> state s = STOPPED \<and> 1 \<le> count_text (lit (nvs_text 2)) out"
proof -
  let ?R = "\<lambda>u v :: world. True" and ?w = "printed_world (concat boot_lines) (Some 5)"
  let ?p = "map (of_nat \<circ> of_char) (''ping'' @ [CHR 0x0A])" and ?q = "map (of_nat \<circ> of_char) (''reset'' @ [CHR 0x0A])"
  let ?s = "printed_session (concat boot_lines) (Some 5)"
  have each: "1 \<le> count_text (lit t) (lit (concat boot_lines))" if "t \<in> set boot_lines" "t \<noteq> []" for t
    using that by (rule count_printed)
  have shown: "serial_text ?s = lit (concat boot_lines)" by (intro printed_text boot_text_ascii) simp
  have "\<forall>t\<in>set (boot_texts STICKS3). t \<noteq> []" by (simp add: boot_texts_def imu_zero_text_def)
  then have texts: "\<forall>t\<in>set (boot_texts STICKS3). 1 \<le> count_text (lit t) (serial_text ?s)"
    unfolding shown by (intro ballI each) (simp_all add: boot_lines_def)
  have beats: "3 \<le> count_heartbeats ?s"
  proof -
    have "lit (concat boot_lines) = concat (replicate 3 (lit heartbeat)) @ lit (concat (boot_texts STICKS3 @ [''SIM:PONG'']))"
      by (simp add: boot_lines_def lit_texts numeral_3_eq_3)
    then show ?thesis
      using count_replicate [of "lit heartbeat" 3] by (simp add: count_heartbeats_def shown lit_texts(2) heartbeat_def)
  qed
  have traces: "list_all (\<lambda>t. t \<in> set (observed_types ?s)) (boot_trace_types STICKS3)"
    by (auto simp: observed_types_def list_all_iff traced_event_def image_iff)
  have boot: "ends ?R (boot_stage ''s1'' STICKS3) ?w (Inr ()) ?w"
    by (rule ends_boot_stage [OF _ texts beats traces]) simp
  let ?w1 = "after_input ?p ?w"
  have ping: "ends ?R (write_serial sample_env ''s1'' ?p) ?w (Inr ()) ?w1"
    by (rule ends_write [OF printed_simps(1)]) simp_all
  obtain s1 where s1: "find_session ?w1 ''s1'' = Some s1" "serial_buffer s1 = [ascii (concat boot_lines)]" "process s1 = Some 5"
    "state s1 = RUNNING" "accept_live_input s1" using taken_world(2) by blast
  have text1: "serial_text s1 = lit (concat boot_lines)" by (rule printed_text [OF s1(2) boot_text_ascii(1)])
  have pong: "ends ?R (expect ''s1'' ''SIM:PONG'') ?w1 (Inr ()) ?w1"
    by (rule ends_expect [OF s1(1)]) (unfold text1, rule each, simp_all add: boot_lines_def)
  define n where "n = count_heartbeats s1 + 1"
  let ?v = "printed_world (second_boot n) None"
  let ?w2 = "after_input ?q ?v"
  have reset: "ends ?R (write_serial sample_env ''s1'' ?q) ?w1 (Inr ()) ?w2"
    by (rule ends_write [OF s1(1,4,5,3)]) (simp add: taken_world)
  obtain s2 where s2: "find_session ?w2 ''s1'' = Some s2" "serial_buffer s2 = [ascii (second_boot n)]" "process s2 = None"
    "reader_task s2 = None" "trace_reader_task s2 = None" "replay_task s2 = None" "gdb_ref s2 = None" "debug_run_task s2 = None"
    "int (length (events s2)) < 4096" "runtime_directory s2 = runtime_directory (idle_session RUNNING)" using taken_world(2) by blast
  have text2: "serial_text s2 = lit (second_boot n)" by (rule printed_text [OF s2(2) boot_text_ascii(2)])
  have banner: "1 \<le> count_text (lit (nvs_text 2)) (serial_text s2)"
    unfolding text2 second_boot_def lit_texts
    using count_inside [of "lit (nvs_text 2)" "concat (map lit (replicate n heartbeat))" "[]"] by (simp add: lit_texts(2) nvs_text_def)
  have more: "n \<le> count_heartbeats s2"
    using count_replicate [of "lit heartbeat" n "lit (nvs_text 2)"]
    by (simp add: count_heartbeats_def text2 second_boot_def lit_texts heartbeat_def map_replicate)
  have gone: "\<not> exists_path sample_files (runtime_directory (idle_session RUNNING))"
    by (simp add: exists_path_def follow_def sample_files_def idle_session_def new_session_def Let_def sample_env_def
        sample_settings_def default_settings_def initial_world_def)
  have "\<exists>w3 s3. settle (stop sample_env ''s1'' False) ?w2 = (w3, Ret (Inr ())) \<and> find_session w3 ''s1'' = Some s3
      \<and> runtime_directory s3 = runtime_directory (idle_session RUNNING) \<and> files w3 = rmtree (\<lambda>_. False) (runtime_directory s3) sample_files"
    using s2 by (simp add: stop_def terminate_worker_def close_debugger_def locked_def acquire_def taken_world
        release_def run_simps settle_recording record_ev_def record_event_room to_result_def join_other_def find_publish_eq)
  then obtain w3 s3 where stopped: "settle (stop sample_env ''s1'' False) ?w2 = (w3, Ret (Inr ()))"
    "find_session w3 ''s1'' = Some s3" "runtime_directory s3 = runtime_directory (idle_session RUNNING)"
    "files w3 = rmtree (\<lambda>_. False) (runtime_directory s3) sample_files" by blast
  have "\<not> exists_path (files w3) (runtime_directory s3)"
    using gone by (simp add: stopped exists_path_def follow_def split: option.split file_kind.split)
  then have checked: "ends ?R (look (\<lambda>w. with_session ''s1'' (\<lambda>s. check (\<not> exists_path (files w) (runtime_directory s))
           ''session runtime directory was not removed''))) w3 (Inr ()) w3"
    by (intro ends_settled) (simp add: run_simps stopped(2) check_def)
  have "ends ?R (contract sample_env ''s1'' STICKS3 False) ?w (Inr (serial_text s2)) w3"
    unfolding contract_def if_False
    apply (rule ends_seq [OF boot], rule ends_seq [OF ends_return], rule ends_seq [OF ping], rule ends_seq [OF pong],
        rule ends_seq [OF ends_return])
    apply (unfold with_session_def, rule ends_look, simp only: s1(1) option.case Let_def n_def [symmetric])
    apply (rule ends_seq [OF reset], rule ends_then_do [OF ends_wait_for_text [OF s2(1) banner]],
        rule ends_seq [OF ends_beats [OF s2(1) more]], rule ends_then_do [OF ends_return],
        rule ends_seq [OF ends_settled [OF stopped(1)]])
    apply (rule ends_seq [OF checked [unfolded with_session_def] ends_return])
    done
  with contract_passed [OF this] show ?thesis by auto
qed

end
