(* ===== verification/Sandbox_Probe.thy ===== *)
theory Sandbox_Probe
  imports Worker_Broker Json_Text
begin

section \<open>The sandbox probe (scripts/probe-worker-sandbox.py)\<close>

text \<open>
  The script that runs a small Python program in the worker sandbox and judges what that program could
  see.  The program (\<open>PROBE\<close>) is a function of its argument and of what the sandbox shows it; Bubblewrap
  itself is outside the model: the run is a function from the command to its outcome.  A failure is
  named by the key it was found under.
\<close>

subsection \<open>The program that runs in the sandbox\<close>

text \<open>
  What the program meets: whether the marker can be written, the two files of \<open>/proc\<close>, the exit status of
  the nested \<open>unshare\<close>, the names of its environment, which paths exist, and the marker read back.
  \<open>None\<close> is an exception.  Nothing is caught, so that every exception ends the program the same way:
  with status 1 and no output.
\<close>

record sandbox_view =
  marker_written :: bool
  status_file :: "bytes option"
  route_file :: "bytes option"
  unshare_returncode :: "int option"
  environ_keys :: "utext list"
  path_seen :: "utext \<Rightarrow> bool option"
  marker_file :: "bytes option"

definition read_text :: "bytes option \<Rightarrow> utext option" where
  "read_text content = Option.bind content (\<lambda>bs. map_option universal_newlines (utf8_decode False bs))"

definition cap_eff :: "utext \<Rightarrow> utext option" where
  "cap_eff status = (case filter (\<lambda>l. take 7 l = lit ''CapEff:'') (splitlines status) of
       [] \<Rightarrow> None
     | l # ls \<Rightarrow> (let ws = split_words l in if length ws < 2 then None else Some (ws ! 1)))"

definition secret_like :: "utext \<Rightarrow> bool" where
  "secret_like key = list_ex (\<lambda>w. contains (lit w) (upper key)) [''SECRET'', ''TOKEN'', ''PASSWORD'', ''KEY'']"

text \<open>\<open>for path in forbidden\<close> over a JSON value, and \<open>Path(path)\<close>, which takes strings only.\<close>

fun iterate :: "json \<Rightarrow> json list option" where
  "iterate (JArr xs) = Some xs"
| "iterate (JStr s) = Some (map (\<lambda>c. JStr [c]) s)"
| "iterate (JObj kvs) = Some (map (JStr \<circ> fst) kvs)"
| "iterate _ = None"

fun visible_paths :: "(utext \<Rightarrow> bool option) \<Rightarrow> json list \<Rightarrow> json list option" where
  "visible_paths seen [] = Some []"
| "visible_paths seen (JStr p # ps) = Option.bind (seen p) (\<lambda>there.
     map_option (\<lambda>vs. if there then JStr p # vs else vs) (visible_paths seen ps))"
| "visible_paths seen (_ # ps) = None"

definition probe_report :: "sandbox_view \<Rightarrow> utext \<Rightarrow> json option" where
  "probe_report v argument =
     (case loads_text argument of Inl e \<Rightarrow> None | Inr forbidden \<Rightarrow>
      if \<not> marker_written v then None else
      Option.bind (Option.bind (read_text (status_file v)) cap_eff) (\<lambda>cap.
      Option.bind (read_text (route_file v)) (\<lambda>route.
      Option.bind (unshare_returncode v) (\<lambda>nested.
      Option.bind (Option.bind (iterate forbidden) (visible_paths (path_seen v))) (\<lambda>visible.
      Option.bind (read_text (marker_file v)) (\<lambda>marker.
        Some (jobj [(''cap_eff'', JStr cap), (''forbidden_visible'', JArr visible),
          (''routes'', JArr (map JStr (drop 1 (splitlines route)))), (''scratch_write'', JStr marker),
          (''secret_keys'', JArr (map JStr (filter secret_like (environ_keys v)))),
          (''nested_userns_returncode'', JInt nested)])))))))"

text \<open>\<open>json.dumps(..., sort_keys=True)\<close> and \<open>print\<close>.\<close>

fun sorted_keys :: "json \<Rightarrow> json" where
  "sorted_keys (JObj kvs) = JObj (sort_key fst (map (\<lambda>(k, v). (k, sorted_keys v)) kvs))"
| "sorted_keys (JArr xs) = JArr (map sorted_keys xs)"
| "sorted_keys v = v"

definition probe_program :: "sandbox_view \<Rightarrow> utext \<Rightarrow> utext option" where
  "probe_program v argument =
     map_option (\<lambda>report. lit (json_text '', '' '': '' (sorted_keys report)) @ [10]) (probe_report v argument)"

subsection \<open>The command\<close>

definition default_forbidden :: "string list" where
  "default_forbidden = [''/home'', ''/root'', ''/var/run/docker.sock'', ''/run/docker.sock'']"

text \<open>
  \<open>parse_args\<close>: the options in the order they were given.  The last executable counts, the read-only paths
  replace the default set, the forbidden paths are added to it.
\<close>

datatype probe_option = SandboxExecutable path | ReadonlyPath path | ForbiddenPath string

record probe_args =
  arg_executable :: path
  arg_readonly :: "path list"
  arg_forbidden :: "string list"

fun take_option :: "probe_option \<Rightarrow> probe_args \<Rightarrow> probe_args" where
  "take_option (SandboxExecutable p) a = a\<lparr>arg_executable := p\<rparr>"
| "take_option (ReadonlyPath p) a = a\<lparr>arg_readonly := arg_readonly a @ [p]\<rparr>"
| "take_option (ForbiddenPath p) a = a\<lparr>arg_forbidden := arg_forbidden a @ [p]\<rparr>"

definition probe_parse_args :: "probe_option list \<Rightarrow> probe_args" where
  "probe_parse_args opts = fold take_option opts
     \<lparr>arg_executable = Abs [''usr'', ''bin'', ''bwrap''], arg_readonly = [], arg_forbidden = default_forbidden\<rparr>"

definition probe_config :: "string list \<Rightarrow> path \<Rightarrow> path list \<Rightarrow> qemu_worker_config" where
  "probe_config dir bwrap readonly = \<lparr>executable = Abs [''usr'', ''bin'', ''python3''], rom_directory = Abs [''usr''],
     sandbox_mode = BUBBLEWRAP, sandbox_executable = absolute dir bwrap,
     sandbox_readonly_paths = (if readonly \<noteq> [] then map (absolute dir) readonly else DEFAULT_SANDBOX_READONLY_PATHS),
     broker_socket_path = Abs [''run'', ''esp32-simulator'', ''worker-broker.sock'']\<rparr>"

definition probe_command :: "string list \<Rightarrow> path \<Rightarrow> path list \<Rightarrow> string \<Rightarrow> string list \<Rightarrow> path \<Rightarrow> string list" where
  "probe_command dir bwrap readonly script forbidden scratch =
     wrap_worker_command dir (probe_config dir bwrap readonly)
       [''/usr/bin/python3'', ''-I'', ''-c'', script, json_text '', '' '': '' (JArr (map jstr forbidden))] scratch"

subsection \<open>The checks\<close>

text \<open>\<open>result[key]\<close> and the comparison with 0, which \<open>false\<close> and a float zero equal too.\<close>

definition field :: "json \<Rightarrow> string \<Rightarrow> exn + json" where
  "field v k = (case v of
       JObj kvs \<Rightarrow> (case map_of kvs (lit k) of None \<Rightarrow> Inl (KeyError k) | Some x \<Rightarrow> Inr x)
     | _ \<Rightarrow> Inl (TypeError k))"

fun equals_zero :: "json \<Rightarrow> bool" where
  "equals_zero (JInt i) = (i = 0)"
| "equals_zero (JBool b) = (\<not> b)"
| "equals_zero (JFloat (Fin m e)) = (m = 0)"
| "equals_zero _ = False"

definition probe_failures :: "json \<Rightarrow> exn + string list" where
  "probe_failures result =
     sum_bind (field result ''cap_eff'') (\<lambda>cap_eff.
     sum_bind (field result ''forbidden_visible'') (\<lambda>visible.
     sum_bind (field result ''routes'') (\<lambda>routes.
     sum_bind (field result ''scratch_write'') (\<lambda>scratch.
     sum_bind (field result ''secret_keys'') (\<lambda>secret_keys.
     sum_bind (field result ''nested_userns_returncode'') (\<lambda>nested.
       Inr ((if cap_eff \<noteq> jstr ''0000000000000000'' then [''cap_eff''] else [])
         @ (if truthy visible then [''forbidden_visible''] else [])
         @ (if truthy routes then [''routes''] else [])
         @ (if scratch \<noteq> jstr ''private scratch only'' then [''scratch_write''] else [])
         @ (if truthy secret_keys then [''secret_keys''] else [])
         @ (if equals_zero nested then [''nested_userns_returncode''] else []))))))))"

text \<open>\<open>stdout.strip().splitlines()[-1]\<close>, then \<open>json.loads\<close> and the checks.\<close>

definition probe_verdict :: "utext \<Rightarrow> exn + string list" where
  "probe_verdict stdout = (let ls = splitlines (strip_by u_space stdout) in
     if ls = [] then Inl (IndexError ''list index out of range'')
     else sum_bind (loads_text (last ls)) probe_failures)"

text \<open>
  \<open>main\<close>: the configuration is validated, the command is run for at most 15 seconds, an exit status
  other than 0 is an error (\<open>check=True\<close>), and the output is judged.
\<close>

datatype probe_run = Ran int utext | TimedOut | NotStarted exn

datatype probe_end = Passed json | Failed "string list" | Crashed exn | WorkerFailed int | WorkerTimedOut

definition with_status :: "json \<Rightarrow> json" where
  "with_status result = (case result of
       JObj kvs \<Rightarrow> JObj (fold (\<lambda>(k, v). dict_put k v) kvs [(lit ''status'', jstr ''passed'')])
     | _ \<Rightarrow> result)"

definition probe_main ::
    "string list \<Rightarrow> filesys \<Rightarrow> probe_args \<Rightarrow> string \<Rightarrow> path \<Rightarrow> (string list \<Rightarrow> probe_run) \<Rightarrow> probe_end" where
  "probe_main dir fs args script scratch run =
     (case validate_worker_config fs (probe_config dir (arg_executable args) (arg_readonly args)) of
        Inl e \<Rightarrow> Crashed e
      | Inr u \<Rightarrow> (case run (probe_command dir (arg_executable args) (arg_readonly args) script (arg_forbidden args) scratch) of
          NotStarted e \<Rightarrow> Crashed e
        | TimedOut \<Rightarrow> WorkerTimedOut
        | Ran code stdout \<Rightarrow>
            if code \<noteq> 0 then WorkerFailed code
            else (case probe_verdict stdout of
                Inl e \<Rightarrow> Crashed e
              | Inr fs \<Rightarrow> if fs \<noteq> [] then Failed fs
                  else Passed (sorted_keys (with_status (case loads_text (last (splitlines (strip_by u_space stdout))) of
                    Inr r \<Rightarrow> r | Inl e \<Rightarrow> JNull))))))"

subsection \<open>The verdict\<close>

lemma read_text_scalar: "read_text content = Some t \<Longrightarrow> list_all scalar t"
  using set_universal_newlines utf8_scalar
  by (fastforce simp: read_text_def scalar_def list_all_iff bind_eq_Some_conv)

lemma cap_eff_scalar: "cap_eff t = Some w \<Longrightarrow> list_all scalar t \<Longrightarrow> list_all scalar w"
proof -
  assume c: "cap_eff t = Some w" and s: "list_all scalar t"
  from c obtain l ls where f: "filter (\<lambda>l. take 7 l = lit ''CapEff:'') (splitlines t) = l # ls"
    and "w = split_words l ! 1" "\<not> length (split_words l) < 2"
    by (auto simp: cap_eff_def Let_def split: list.splits if_splits)
  then have w: "w \<in> set (split_words l)" by simp
  have "l \<in> set (filter (\<lambda>l. take 7 l = lit ''CapEff:'') (splitlines t))" unfolding f by simp
  then have l: "l \<in> set (splitlines t)" by simp
  with set_splitlines [OF l] set_split_words [OF w] s show ?thesis by (auto simp: list_all_iff)
qed

lemma lines_scalar: "list_all scalar t \<Longrightarrow> list_all (list_all scalar) (drop k (splitlines t))"
  using set_splitlines [of _ t] by (fastforce simp: list_all_iff dest: in_set_dropD)

lemma visible_paths_filter:
  "visible_paths seen (map JStr ps) = Some vs \<Longrightarrow> vs = map JStr (filter (\<lambda>p. seen p = Some True) ps)"
  by (induction ps arbitrary: vs) (auto simp: bind_eq_Some_conv split: if_splits)


lemma sorted_keys_strings [simp]: "sorted_keys (JArr (map JStr ts)) = JArr (map JStr ts)"
  by simp

text \<open>A line that was printed is the last line that is read.\<close>

lemma printed_line:
  assumes "plain_text d" "d \<noteq> []" "hd d \<noteq> CHR '' ''" "last d \<noteq> CHR '' ''"
  shows "splitlines (strip_by u_space (lit d @ [10])) = [lit d]"
proof -
  have sp: "\<not> u_space (of_char c)" if "c \<in> set d" "c \<noteq> CHR '' ''" for c
  proof -
    have "(of_char c :: nat) \<noteq> of_char (CHR '' '')" using that(2) by (simp only: of_char_eq_iff) simp
    then show ?thesis using that(1) assms(1) by (auto simp: plain_text_def list_all_iff u_space_def)
  qed
  have e: "hd (lit d) = of_char (hd d)" "last (lit d) = of_char (last d)"
    using assms(2) by (simp_all add: lit_def hd_map last_map)
  have n: "lit d \<noteq> []" "\<not> u_space (hd (lit d))" "\<not> u_space (last (lit d))"
    unfolding e using sp [of "hd d"] sp [of "last d"] assms(2-) by (simp_all add: lit_def)
  have keep: "dropWhile u_space x = x" if "x \<noteq> []" "\<not> u_space (hd x)" for x
    using that by (cases x) simp_all
  have "strip_by u_space (lit d @ [10]) = rev (dropWhile u_space (rev (lit d)))"
    using n keep [of "lit d @ [10]"] by (simp add: strip_by_def u_space_def [of 10] hd_append)
  also have "\<dots> = lit d" using n keep [of "rev (lit d)"] by (simp add: hd_rev)
  finally have "strip_by u_space (lit d @ [10]) = lit d" .
  moreover have "list_all (\<lambda>c. \<not> line_end c) (lit d)"
    using assms(1) by (auto simp: plain_text_def list_all_iff lit_def line_end_def)
  ultimately show ?thesis using n(1) by (simp add: splitlines_single)
qed

text \<open>The members of a report.\<close>

definition report_members :: "utext \<Rightarrow> utext list \<Rightarrow> utext list \<Rightarrow> utext \<Rightarrow> utext list \<Rightarrow> int \<Rightarrow> (utext \<times> json) list" where
  "report_members cap visible routes marker secrets nested =
     [(lit ''cap_eff'', JStr cap), (lit ''forbidden_visible'', JArr (map JStr visible)), (lit ''routes'', JArr (map JStr routes)),
      (lit ''scratch_write'', JStr marker), (lit ''secret_keys'', JArr (map JStr secrets)),
      (lit ''nested_userns_returncode'', JInt nested)]"

lemma report_read_back:
  assumes "list_all scalar cap" "list_all (list_all scalar) visible" "list_all (list_all scalar) routes"
    "list_all scalar marker" "list_all (list_all scalar) secrets"
  shows "probe_verdict (lit (json_text '', '' '': '' (sorted_keys (JObj (report_members cap visible routes marker secrets nested)))) @ [10])
    = probe_failures (JObj (report_members cap visible routes marker secrets nested))"
proof -
  let ?kvs = "report_members cap visible routes marker secrets nested"
  let ?v = "JObj (sort_key fst ?kvs)"
  have d: "distinct (map fst ?kvs)" by (simp add: report_members_def)
  have "map (\<lambda>(k, v). (k, sorted_keys v)) ?kvs = ?kvs" by (simp add: report_members_def)
  then have s: "sorted_keys (JObj ?kvs) = ?v" by simp
  have "list_all (\<lambda>(k, v). list_all scalar k \<and> printable v) ?kvs"
    using assms by (simp add: report_members_def list.pred_map comp_def scalar_def) 
  then have p: "printable ?v" by (intro printable_sorted d)
  have sep: "separators '', '' '': ''" by (simp add: separators_def j_space_def)
  have shape: "json_text '', '' '': '' ?v = CHR ''{'' # x @ ''}''" 
    if "x = join '', '' (map (\<lambda>(k, v). dump_str k @ '': '' @ json_text '', '' '': '' v) (sort_key fst ?kvs))" for x
    using that by simp
  have "splitlines (strip_by u_space (lit (json_text '', '' '': '' ?v) @ [10])) = [lit (json_text '', '' '': '' ?v)]"
    unfolding shape [OF refl] by (intro printed_line) (use plain_text_json [of "'', ''" "'': ''" ?v] shape [OF refl] in simp_all)
  moreover have "loads_text (lit (json_text '', '' '': '' ?v)) = Inr ?v" by (rule loads_text_json [OF p sep])
  moreover have "field ?v k = field (JObj ?kvs) k" for k
    by (simp add: field_def map_of_sort [OF d])
  ultimately show ?thesis unfolding s by (simp add: probe_verdict_def Let_def probe_failures_def)
qed

lemma argument_read:
  "loads_text (lit (last (probe_command dir bwrap readonly script forbidden scratch))) = Inr (JArr (map jstr forbidden))"
proof -
  have "printable (JArr (map jstr forbidden))" by (simp add: list.pred_map comp_def jstr_def scalar_ascii list.pred_True)
  from loads_text_json [OF this, of "'', ''" "'': ''"] show ?thesis
    by (simp add: separators_def j_space_def probe_command_def wrap_worker_command_def)
qed

lemma printed_paths: "map jstr ps = map JStr (map lit ps)"
  by (simp add: jstr_def)

lemma report_verdict:
  assumes "probe_program v (lit (last (probe_command dir bwrap readonly script forbidden scratch))) = Some out"
    and "\<forall>k\<in>set (environ_keys v). list_all scalar k"
  shows "probe_verdict out = Inr (
      (if Option.bind (read_text (status_file v)) cap_eff \<noteq> Some (lit ''0000000000000000'') then [''cap_eff''] else [])
    @ (if \<exists>p\<in>set forbidden. path_seen v (lit p) = Some True then [''forbidden_visible''] else [])
    @ (if \<exists>t. read_text (route_file v) = Some t \<and> 2 \<le> length (splitlines t) then [''routes''] else [])
    @ (if read_text (marker_file v) \<noteq> Some (lit ''private scratch only'') then [''scratch_write''] else [])
    @ (if \<exists>k\<in>set (environ_keys v). secret_like k then [''secret_keys''] else [])
    @ (if unshare_returncode v = Some 0 then [''nested_userns_returncode''] else []))"
proof -
  obtain status cap route nested visible marker where seen:
    "read_text (status_file v) = Some status" "cap_eff status = Some cap" "read_text (route_file v) = Some route"
    "unshare_returncode v = Some nested" "visible_paths (path_seen v) (map JStr (map lit forbidden)) = Some visible"
    "read_text (marker_file v) = Some marker"
    and out: "out = lit (json_text '', '' '': '' (sorted_keys (jobj [(''cap_eff'', JStr cap), (''forbidden_visible'', JArr visible),
          (''routes'', JArr (map JStr (drop 1 (splitlines route)))), (''scratch_write'', JStr marker),
          (''secret_keys'', JArr (map JStr (filter secret_like (environ_keys v)))),
          (''nested_userns_returncode'', JInt nested)]))) @ [10]"
    using assms(1) unfolding probe_program_def probe_report_def argument_read printed_paths
    by (auto simp only: bind_eq_Some_conv map_option_eq_Some sum.case iterate.simps option.distinct option.inject
        split: if_splits)
  define ps where "ps = filter (\<lambda>p. path_seen v p = Some True) (map lit forbidden)"
  have vis: "visible = map JStr ps" using visible_paths_filter [OF seen(5)] by (simp only: ps_def)
  let ?routes = "drop 1 (splitlines route)"
  let ?secrets = "filter secret_like (environ_keys v)"
  have "out = lit (json_text '', '' '': '' (sorted_keys (JObj (report_members cap ps ?routes marker ?secrets nested)))) @ [10]"
    unfolding out vis by (simp add: jobj_def report_members_def del: sorted_keys.simps json_text.simps)
  moreover have "list_all scalar cap" "list_all scalar marker" "list_all (list_all scalar) ?routes"
    "list_all (list_all scalar) ?secrets" "list_all (list_all scalar) ps"
    using cap_eff_scalar [OF seen(2) read_text_scalar [OF seen(1)]] read_text_scalar [OF seen(6)]
      lines_scalar [OF read_text_scalar [OF seen(3)], of 1] assms(2)
    by (auto simp: ps_def list_all_iff scalar_ascii [unfolded list_all_iff])
  ultimately have "probe_verdict out = probe_failures (JObj (report_members cap ps ?routes marker ?secrets nested))"
    by (simp only: report_read_back)
  moreover have "?routes \<noteq> [] \<longleftrightarrow> (\<exists>t. read_text (route_file v) = Some t \<and> 2 \<le> length (splitlines t))"
    using seen(3) by auto
  moreover have "ps \<noteq> [] \<longleftrightarrow> (\<exists>p\<in>set forbidden. path_seen v (lit p) = Some True)"
    by (simp add: ps_def filter_empty_conv)
  moreover have "?secrets \<noteq> [] \<longleftrightarrow> (\<exists>k\<in>set (environ_keys v). secret_like k)"
    by (simp add: filter_empty_conv)
  ultimately show ?thesis
    using seen(1,2,4,6) by (simp only: probe_failures_def report_members_def) (simp add: field_def jstr_def)
qed

lemma visible_paths_total:
  "visible_paths seen (map JStr ps) \<noteq> None \<longleftrightarrow> (\<forall>p\<in>set ps. seen p \<noteq> None)"
  by (induction ps) (auto split: Option.bind_splits)

text \<open>The program ends normally exactly when everything it looks at can be looked at.\<close>

lemma probe_program_ends:
  "probe_program v (lit (last (probe_command dir bwrap readonly script forbidden scratch))) \<noteq> None \<longleftrightarrow>
     marker_written v \<and> Option.bind (read_text (status_file v)) cap_eff \<noteq> None \<and> read_text (route_file v) \<noteq> None
     \<and> unshare_returncode v \<noteq> None \<and> (\<forall>p\<in>set forbidden. path_seen v (lit p) \<noteq> None) \<and> read_text (marker_file v) \<noteq> None"
proof -
  have "visible_paths (path_seen v) (map JStr (map lit forbidden)) \<noteq> None \<longleftrightarrow> (\<forall>p\<in>set forbidden. path_seen v (lit p) \<noteq> None)"
    by (simp only: visible_paths_total) simp
  then show ?thesis unfolding probe_program_def probe_report_def argument_read printed_paths sum.case
    by (simp only: iterate.simps Option.bind.simps map_option_is_None) (auto split: Option.bind_splits simp del: json_text.simps)
qed

text \<open>What the run of an honest interpreter looks like.\<close>

definition interpreted :: "sandbox_view \<Rightarrow> string list \<Rightarrow> probe_run" where
  "interpreted v argv = (case probe_program v (lit (last argv)) of Some out \<Rightarrow> Ran 0 out | None \<Rightarrow> Ran 1 [])"

text \<open>
  C40. The probe passes exactly when the sandbox is tight: the program can do everything it tries, its
  effective capabilities are empty, no forbidden path exists, the routing table has no entry after its
  heading, the scratch directory keeps what was written, no name in the environment looks like a secret,
  and a nested user namespace is refused.
\<close>

theorem probe_passes_iff_tight:
  assumes "validate_worker_config fs (probe_config dir (arg_executable args) (arg_readonly args)) = Inr ()"
    and "\<forall>k\<in>set (environ_keys v). list_all scalar k"
  shows "(\<exists>r. probe_main dir fs args script scratch (interpreted v) = Passed r) \<longleftrightarrow>
    marker_written v \<and> Option.bind (read_text (status_file v)) cap_eff = Some (lit ''0000000000000000'')
    \<and> (\<forall>p\<in>set (arg_forbidden args). path_seen v (lit p) = Some False)
    \<and> (\<exists>t. read_text (route_file v) = Some t \<and> length (splitlines t) \<le> 1)
    \<and> read_text (marker_file v) = Some (lit ''private scratch only'')
    \<and> (\<forall>k\<in>set (environ_keys v). \<not> secret_like k)
    \<and> (\<exists>n. unshare_returncode v = Some n \<and> n \<noteq> 0)" (is "?passed \<longleftrightarrow> ?tight")
proof (cases "probe_program v (lit (last (probe_command dir (arg_executable args) (arg_readonly args) script
    (arg_forbidden args) scratch)))")
  case None
  moreover from None have "\<not> ?passed" using assms(1) by (simp add: probe_main_def interpreted_def)
  moreover have "\<not> ?tight" using probe_program_ends [of v dir "arg_executable args" "arg_readonly args" script
    "arg_forbidden args" scratch] None by auto
  ultimately show ?thesis by blast
next
  case (Some out)
  note verdict = report_verdict [OF Some assms(2)]
  have "?passed \<longleftrightarrow> probe_verdict out = Inr []"
    using assms(1) Some unfolding verdict by (simp add: probe_main_def interpreted_def verdict del: append_is_Nil_conv)
  moreover have seen: "marker_written v" "read_text (route_file v) \<noteq> None" "unshare_returncode v \<noteq> None"
    "\<forall>p\<in>set (arg_forbidden args). path_seen v (lit p) \<noteq> None"
    using probe_program_ends [of v dir "arg_executable args" "arg_readonly args" script "arg_forbidden args" scratch] Some
    by simp_all
  moreover have "(\<forall>p\<in>set (arg_forbidden args). path_seen v (lit p) = Some False)
      \<longleftrightarrow> \<not> (\<exists>p\<in>set (arg_forbidden args). path_seen v (lit p) = Some True)"
    using seen(4) by (metis (full_types) not_None_eq option.inject)
  ultimately show ?thesis unfolding verdict by (auto simp: not_le less_Suc_eq_le)
qed

definition probe_host :: filesys where
  "probe_host = Map.empty(Abs [''usr''] \<mapsto> \<lparr>kind = Directory, mode = octal [7, 5, 5], uid = 0, gid = 0\<rparr>,
     Abs [''lib''] \<mapsto> \<lparr>kind = Directory, mode = octal [7, 5, 5], uid = 0, gid = 0\<rparr>,
     Abs [''lib64''] \<mapsto> \<lparr>kind = Directory, mode = octal [7, 5, 5], uid = 0, gid = 0\<rparr>,
     Abs [''usr'', ''bin'', ''python3''] \<mapsto> \<lparr>kind = Regular [], mode = octal [7, 5, 5], uid = 0, gid = 0\<rparr>,
     Abs [''usr'', ''bin'', ''bwrap''] \<mapsto> \<lparr>kind = Regular [], mode = octal [7, 5, 5], uid = 0, gid = 0\<rparr>)"

definition tight_view :: sandbox_view where
  "tight_view = \<lparr>marker_written = True, status_file = Some (ascii ''Uid: 0\<newline>CapEff: 0000000000000000\<newline>''),
     route_file = Some (ascii ''Iface Destination\<newline>''), unshare_returncode = Some 1,
     environ_keys = [lit ''LANG'', lit ''PATH'', lit ''PWD''], path_seen = (\<lambda>p. Some False),
     marker_file = Some (ascii ''private scratch only'')\<rparr>"

lemma read_text_ascii:
  "list_all (\<lambda>c. of_char c < (128 :: nat)) s \<Longrightarrow> CHR 0x0D \<notin> set s \<Longrightarrow> read_text (Some (ascii s)) = Some (lit s)"
proof -
  assume a: "list_all (\<lambda>c. of_char c < (128 :: nat)) s" "CHR 0x0D \<notin> set s"
  have "(13 :: nat) = of_char (CHR 0x0D)" by simp
  then have "13 \<notin> set (lit s)" using a(2) unfolding lit_def by (auto simp: of_char_eq_iff simp del: of_char_Char)
  then show ?thesis using a(1) by (simp add: read_text_def utf8_decode_ascii universal_newlines_id)
qed

theorem probe_passes_iff_tight_witness:
  "\<exists>r. probe_main [] probe_host (probe_parse_args []) [] (Abs [''tmp'']) (interpreted tight_view) = Passed r"
proof -
  let ?a = "probe_parse_args []"
  have cfg: "validate_worker_config probe_host (probe_config [] (arg_executable ?a) (arg_readonly ?a)) = Inr ()"
    by (simp add: validate_worker_config_def probe_config_def probe_parse_args_def DEFAULT_SANDBOX_READONLY_PATHS_def
      is_file_def access_x_def is_directory_def exists_path_def follow_def probe_host_def)
  have keys: "\<forall>k\<in>set (environ_keys tight_view). list_all scalar k"
    using scalar_ascii [of "''LANG''"] scalar_ascii [of "''PATH''"] scalar_ascii [of "''PWD''"] by (simp add: tight_view_def)
  have secret: "\<forall>k\<in>set (environ_keys tight_view). \<not> secret_like k"
    by (simp add: tight_view_def secret_like_def upper_def upper_char_def)
  have lines: "splitlines (lit ''Uid: 0\<newline>CapEff: 0000000000000000\<newline>'') = [lit ''Uid: 0'', lit ''CapEff: 0000000000000000'']"
    by (simp add: line_end_def)
  have "split_words (lit ''CapEff: 0000000000000000'') = [lit ''CapEff:'', lit ''0000000000000000'']"
    by (simp add: split_words.simps u_space_def Let_def)
  then have cap: "cap_eff (lit ''Uid: 0\<newline>CapEff: 0000000000000000\<newline>'') = Some (lit ''0000000000000000'')"
    unfolding cap_eff_def lines by (simp add: Let_def)
  have route: "length (splitlines (lit ''Iface Destination\<newline>'')) \<le> 1" by (simp add: line_end_def)
  have texts: "read_text (status_file tight_view) = Some (lit ''Uid: 0\<newline>CapEff: 0000000000000000\<newline>'')"
    "read_text (route_file tight_view) = Some (lit ''Iface Destination\<newline>'')"
    "read_text (marker_file tight_view) = Some (lit ''private scratch only'')"
    unfolding tight_view_def sandbox_view.simps by (intro read_text_ascii; simp)+
  show ?thesis
    unfolding probe_passes_iff_tight [OF cfg keys] texts
    using secret cap route by (simp only: bind.simps option.inject) (simp add: tight_view_def)
qed

theorem probe_passes_iff:
  "probe_verdict stdout = Inr [] \<longleftrightarrow> (\<exists>kvs routes visible secret_keys nested.
     splitlines (strip_by u_space stdout) \<noteq> [] \<and> loads_text (last (splitlines (strip_by u_space stdout))) = Inr (JObj kvs)
     \<and> map_of kvs (lit ''cap_eff'') = Some (jstr ''0000000000000000'')
     \<and> map_of kvs (lit ''forbidden_visible'') = Some visible \<and> \<not> truthy visible
     \<and> map_of kvs (lit ''routes'') = Some routes \<and> \<not> truthy routes
     \<and> map_of kvs (lit ''scratch_write'') = Some (jstr ''private scratch only'')
     \<and> map_of kvs (lit ''secret_keys'') = Some secret_keys \<and> \<not> truthy secret_keys
     \<and> map_of kvs (lit ''nested_userns_returncode'') = Some nested \<and> \<not> equals_zero nested)"
proof -
  have f: "field v k = Inr x \<longleftrightarrow> (\<exists>kvs. v = JObj kvs \<and> map_of kvs (lit k) = Some x)" for v k x
    by (simp add: field_def split: json.split option.split)
  show ?thesis by (auto simp: probe_verdict_def probe_failures_def Let_def f) blast
qed

text \<open>
  The probe's own command hides what it asks about: with the default read-only set, no forbidden
  path lies in or above a directory that is mounted.
\<close>

theorem probe_mounts_hide_forbidden:
  assumes "m \<in> set (ro_mounts dir [] (readonly_requests (probe_config dir bwrap [])))" "f \<in> set default_forbidden"
  shows "\<not> is_relative_to (path_of f) m \<and> \<not> is_relative_to m (path_of f)"
proof -
  obtain p where p: "p \<in> set (readonly_requests (probe_config dir bwrap []))" "m = absolute dir p"
    using ro_mounts_requested [OF assms(1)] by blast
  have paths: "map path_of default_forbidden = [Abs [''home''], Abs [''root''], Abs [''var'', ''run'', ''docker.sock''], Abs [''run'', ''docker.sock'']]"
    by code_simp
  have "path_of f \<in> set (map path_of default_forbidden)" using assms(2) by simp
  then show ?thesis using p unfolding paths
    by (auto simp: readonly_requests_def probe_config_def DEFAULT_SANDBOX_READONLY_PATHS_def list_prefix_iff)
qed

end
