(* ===== verification/Spec2Isabelle.thy ===== *)
theory Spec2Isabelle
  imports Session_Refinement Session_Launches Session_Races Api_Broker Broker_Liveness Broker_Pipe Conformance Sandbox_Probe
begin

text \<open>
  A verification development of the ESP32-S3 web simulator (\<open>src/src/esp32_s3_simulator\<close>).

  The program.  A web service keeps simulation sessions: an upload is validated and padded to a flash
  image, a QEMU worker runs it, and the client watches its serial output and screen, sends board
  inputs, pauses, debugs, records and replays it.  \<open>sessions.py\<close> is the core: one asyncio event loop with a
  task per request and background tasks per worker, over shared session records.  It talks to a
  worker by QMP (\<open>qmp.py\<close>) and the GDB remote protocol (\<open>gdb.py\<close>), and starts it directly, under
  Bubblewrap (\<open>qemu.py\<close>) or through the worker broker: a separate process of another user
  (\<open>worker_broker.py\<close>) that speaks a framed protocol (\<open>broker_protocol.py\<close>) on a Unix socket and runs
  each worker in a rootless container under a fixed policy (\<open>oci.py\<close>).

  Foundations.  \<open>Sim_Prelude\<close> has the shared lemmas and types; \<open>Py_Float\<close> (exact binary floats and
  their rounding), \<open>Py_Values\<close> (JSON values and one constructor per exception class), \<open>Py_Hashlib\<close> (SHA-256),
  \<open>Py_Json\<close> and \<open>Json_Text\<close> (\<open>json.loads\<close>, \<open>json.dumps\<close>, UTF-8), \<open>Py_Text\<close> (lines, words, case), \<open>Py_Regex\<close> (\<open>re.fullmatch\<close> by derivatives),
  \<open>File_System\<close> and \<open>Environment\<close> (paths, links, nodes, environment variables) model what the source uses of
  Python's library.  \<open>Sim_Monad\<close> is state with exceptions for code that does not suspend; \<open>Async\<close> is the
  coroutine type: \<open>Do\<close> for uninterrupted code, \<open>Await\<close> for a suspension with its wake-up condition and its
  input from outside.  \<open>safe I p\<close> says that every piece of a task keeps an invariant, \<open>ends R p w r w'\<close> that
  it can end so while other tasks take steps in \<open>R\<close>, \<open>ends_on J\<close> that it can with inputs in \<open>J\<close> only, and
  \<open>wp\<close> is the weakest precondition for it.

  Removal.  Files can refuse to go: \<open>stuck\<close> of the world are the paths the operating system does not
  remove, given anew with the input of every turn.  \<open>rmtree\<close> (with \<open>ignore_errors\<close>) leaves them, \<open>unlink_missing_ok\<close>
  raises on them and on a directory, and what a property says of files is said up to them.

  Pure components.  \<open>Boards\<close> (boards.py), \<open>Tracing\<close> (tracing.py), \<open>Recording\<close> (recording.py), \<open>Firmware\<close>
  (firmware.py), \<open>Framebuffer\<close> (framebuffer.py), \<open>Inputs\<close> (inputs.py), \<open>Qemu\<close> (qemu.py), \<open>Settings\<close> (settings.py):
  parsers with their round trips, validations as equivalences, and the shape of every command line;
  \<open>Settings_Environment\<close> reads the settings from the environment.
  Peers.  \<open>Qmp\<close> (qmp.py) and \<open>Gdb\<close> (gdb.py): clients as functions of the bytes a peer sends and, for QMP, of
  what becomes of the attempts to open its socket.

  The session manager.  \<open>Session_State\<close> has the records, the world of the tasks and the suspensions,
  \<open>Session_Log\<close> the event and replay recordings, \<open>Session_Worker\<close> the launch, the readers and the end
  of a worker, \<open>Session_Ops\<close>, \<open>Session_Streams\<close> and \<open>Session_Replay\<close> the operations, \<open>Session_System\<close> the event loop:
  requests, tasks, exits and cancellations in any order, as a reachability relation.  Its locale
  \<open>world_law\<close> turns closure under elementary changes into an invariant of every reachable state and is
  interpreted in \<open>Session_Invariants\<close> on the recordings; \<open>Session_Properties\<close>, \<open>Session_Outcomes\<close> and
  \<open>Session_Guards\<close> have the properties: what holds in every interleaving, what an operation has
  achieved when it ends whatever others did, and what it refuses.  \<open>Session_Refinement\<close> shows the bounded
  event log as a window on an unbounded history.  The world keeps a log of what every worker was started
  with (\<open>launches\<close>: the process and its limits, or the request to the broker), a ghost that no operation
  reads and that has no counterpart in the code; \<open>Session_Launches\<close> proves the
  confinement of every entry in every reachable state, by a further interpretation of \<open>world_law\<close>.
  \<open>Session_Races\<close> has schedules that end as the code does not mean to: a worker that outlives its failed session,
  a subscription broken by output, a lagging client that is never told of the end.

  The interface.  \<open>Api\<close> (api.py, and what cli.py gives to uvicorn) has the HTTP endpoints as coroutines over the manager's operations with
  their translation of exceptions, \<open>Api_Sockets\<close> the input and framebuffer sockets (the serial socket and
  its two tasks are in \<open>Session_Streams\<close>), \<open>Api_Properties\<close> and \<open>Api_Privacy\<close> what is answered and what answers cannot reveal.  Requests are values: routing, the
  parsing of bodies and the writing of responses are FastAPI's, the declared constraints are
  \<open>acceptable\<close>, and the adapter of the input messages is a parameter.

  The broker.  \<open>Broker_Protocol\<close> has frames, messages and the client side (broker_protocol.py), \<open>Oci\<close> the
  policy (oci.py), \<open>Broker_State\<close>, \<open>Worker_Broker\<close> and \<open>Broker_Service\<close> the server's world, operations and event
  loop (worker_broker.py).  \<open>Broker_Invariants\<close> has the locales \<open>broker_law\<close> and \<open>broker_file_law\<close> with their
  interpretations on the table of workers and on the file system; \<open>Broker_Properties\<close>, \<open>Broker_Start\<close> and
  \<open>Broker_Liveness\<close> the properties.  Three theories put the two programs together: \<open>Session_Broker\<close> what the manager leaves on
  disk against what the broker's policy accepts, \<open>Broker_Pipe\<close> the bytes that the two ends of a connection
  exchange for a worker, in both directions, \<open>Api_Broker\<close> an upload whose broker gives no worker, up to the
  answer of the endpoint, with the connection's own closing as one more way to fail.

  The scripts.  \<open>Conformance\<close> (run-base-conformance.py) is the base firmware contract as a coroutine that
  calls the manager, with what a run that passes has established; \<open>Sandbox_Probe\<close> (probe-worker-sandbox.py) the probe of the sandbox: its options and
  command, the program it runs inside over what that finds there, and the verdict on its output.

  Bounds.  Loops that end only with the service (clean-up, streams, the broker's health check) take the
  number of their rounds as an argument, and every statement holds for all of them.  Loops over
  data recurse on it.  The parser of JSON carries fuel larger than its input, and the waiting loops of
  the contract as much as sleeps of 50 milliseconds fit before their deadline.

  Simplified.  The creation and expiry of a session are integers on the clock of the world, not
  \<open>datetime\<close> objects and their texts.  A QMP request is always written: a failing write or drain is not a
  case of its own.  Of a GDB read that times out the bytes of the unfinished piece are dropped, and the
  limits of asyncio's buffers are left out, as are in \<open>loads\<close> the detection of UTF-16 and UTF-32 and the
  interpreter's limits on digits and nesting.

  Not modelled.  Sockets, pipes and processes below the byte streams and exit codes they deliver; expat,
  which is a parameter; logging, and the option of the broker that configures it; uvicorn; the interface
  worker_process.py, which has no code; argument parsing and printing of the scripts; Docker, Bubblewrap
  and the kernel, whose effect on a process is outside the program (the models end at the commands
  and limits given to them); in the HTTP layer the routing, the parsing of bodies and the headers of the
  diagnostics download, which are FastAPI's.
\<close>

end
